(* ===== verification/Prelude.thy ===== *)
theory Prelude
  imports Main "HOL-Library.Word"
begin

text \<open>
  Shared vocabulary of the node-rpi-feeder development: the names of the handle types
  the JavaScript runtime hands out (timer handles, recording handles, socket ids), the
  byte type of the camera frames, the collection of frame lemmas the component
  theories register, and generic lemmas on lists and function iteration that the
  component proofs share.
\<close>

section \<open>Names of the model's types\<close>

type_synonym tid = nat  \<comment> \<open>a \<open>Timeout\<close> object returned by \<open>setTimeout\<close>\<close>
type_synonym rid = nat  \<comment> \<open>a microphone recording and the recognize stream it is piped into\<close>
type_synonym sid = nat  \<comment> \<open>a connected Socket.IO socket\<close>
type_synonym byte = "8 word"

named_theorems frame_simps
  "facts that an operation leaves a field of the process state unchanged"

section \<open>Lists\<close>

lemma length_filter_neq_less [intro]:
  assumes "x \<in> set xs"
  shows "length (filter (\<lambda>y. k y \<noteq> k x) xs) < length xs"
  using assms by (rule length_filter_less) simp

lemma length_concat_replicate [simp]:
  "length (concat (replicate n xs)) = n * length xs"
  by (induction n) simp_all

lemma removeAll_keeps_other [simp]:
  "y \<noteq> x \<Longrightarrow> (y \<in> set (removeAll x xs)) = (y \<in> set xs)"
  by simp

lemma concat_replicate_snoc: "concat (replicate n xs) @ xs = concat (replicate (Suc n) xs)"
  by (induction n) simp_all

section \<open>Options\<close>

lemma pred_option_iff [simp]: "pred_option P x \<longleftrightarrow> (\<forall>y. x = Some y \<longrightarrow> P y)"
  by (cases x) simp_all

section \<open>Bytes\<close>

lemma unat_byte_less [simp]: "unat (a :: byte) < 256"
  using unsigned_less [of a] by simp

section \<open>Iterated functions\<close>

text \<open>
  A listener registered \<open>n\<close> times runs \<open>n\<close> times: the handler's effect is the
  \<open>n\<close>-fold iteration \<open>f ^^ n\<close>. A field that one run leaves alone, every run leaves
  alone.
\<close>

lemma funpow_keeps:
  assumes "\<And>x. g (f x) = g x"
  shows "g ((f ^^ n) x) = g x"
  by (induction n) (simp_all add: assms)

end
