(* ===== verification/World.thy ===== *)
theory World
  imports Prelude
begin

text \<open>
  The state of the node-rpi-feeder process. The JavaScript modules keep their state in
  closure variables: \<open>src/raspi/gpio.js\<close> holds \<open>servo\<close> and \<open>timer\<close>,
  \<open>src/raspi/speech.js\<close> holds \<open>recording\<close> and \<open>timer\<close>, \<open>src/raspi/index.js\<close>
  holds the shared \<open>EventEmitter\<close> with its listener array, \<open>src/io.js\<close> holds the
  Socket.IO server with its connected sockets. All of them live in one process and one
  event loop, so the model gathers them in one record \<open>world\<close>, next to the parts of
  the Node runtime they use: the clock, the pending timers, the open microphone
  processes and recognize streams, and the frame files on disk.

  This theory also holds the Node timer primitives (\<open>setTimeout\<close>, \<open>clearTimeout\<close>
  and the choice of the next timer to fire) and the two state queries \<open>isFeeding\<close>
  and \<open>isRecording\<close>, which every other component reads.
\<close>

section \<open>Data\<close>

text \<open>\<open>five.Servo\<close> is only ever moved with \<open>min()\<close> and \<open>max()\<close>; it is
  constructed with \<open>startAt: 0\<close>, the minimum of its default range.\<close>

datatype servo_pos = ServoMin | ServoMax

text \<open>The two callbacks the sources pass to \<open>setTimeout\<close>.\<close>

datatype timer_cb = StopFeederCb | StopSpeechCb

record js_timer =
  t_id :: tid
  t_due :: nat
  t_cb :: timer_cb

text \<open>The only exception the modelled code can raise: reading a property of an
  undefined variable (\<open>servo.max()\<close> before the board is ready).\<close>

datatype js_error = TypeError string

text \<open>The configuration keys the core reads with \<open>config.get\<close>.\<close>

record config =
  cfg_feeder_timer :: nat      \<comment> \<open>\<open>raspi.feeder.timer\<close>\<close>
  cfg_speech_timer :: nat      \<comment> \<open>\<open>raspi.speech.timer\<close>\<close>
  cfg_hotwords :: "string list" \<comment> \<open>\<open>raspi.speech.hotwords\<close>\<close>
  cfg_output_dir :: string     \<comment> \<open>\<open>raspi.camera.outputDirectory\<close>\<close>
  cfg_timelapse_interval :: nat \<comment> \<open>\<open>raspi.camera.timelapseInterval\<close>\<close>
  cfg_speech_device :: string  \<comment> \<open>\<open>raspi.speech.device\<close>\<close>

text \<open>The events emitted on the shared emitter. The five relayed ones are forwarded
  to the browsers by \<open>src/io.js\<close>; \<open>speechRecordingRecognized\<close> is not relayed but
  starts the feeder.\<close>

datatype relay_event =
  FeedingStarted | FeedingStopped | FrameLoaded | SpeechRecordingStarted | SpeechRecordingStopped

datatype raspi_event = Relay relay_event | SpeechRecordingRecognized

text \<open>The payload objects passed to \<open>emitter.emit\<close>: \<open>{message, status}\<close>, and for
  \<open>frameLoaded\<close> also \<open>cameraImage\<close> (absent, i.e. \<open>undefined\<close>, otherwise).\<close>

record payload =
  message :: string
  status :: string
  cameraImage :: "string option"

text \<open>The messages \<open>io.emit\<close> broadcasts: \<open>info {date, isFeedingPossible,
  isRecordingPossible}\<close>, the relayed events \<open>{date, message, status}\<close> under their
  tag, and \<open>image {date, cameraImage, message, status}\<close>.\<close>

datatype wire =
    WInfo nat bool bool
  | WEvent string nat string string
  | WImage nat "string option" string string

record world =
  cfg :: config
  now :: nat                         \<comment> \<open>\<open>Date.now()\<close>, the event loop's clock\<close>
  next_id :: nat                     \<comment> \<open>source of fresh handles\<close>
  timers :: "js_timer list"          \<comment> \<open>pending timers, in creation order\<close>
  servo :: "servo_pos option"        \<comment> \<open>gpio.js \<open>servo\<close>, undefined until board ready\<close>
  feeder_timer :: "tid option"       \<comment> \<open>gpio.js \<open>timer\<close>\<close>
  recording :: "rid option"          \<comment> \<open>speech.js \<open>recording\<close>\<close>
  speech_timer :: "tid option"       \<comment> \<open>speech.js \<open>timer\<close>\<close>
  mics :: "rid list"                 \<comment> \<open>running sox recorder processes\<close>
  streams :: "rid list"              \<comment> \<open>open recognize streams\<close>
  listeners :: "raspi_event list"    \<comment> \<open>the emitter's listeners, registration order\<close>
  sockets :: "(sid \<times> wire list) list" \<comment> \<open>connected sockets with what each received\<close>
  emitted :: "raspi_event list"      \<comment> \<open>every \<open>emitter.emit\<close> call, in order (history)\<close>
  files :: "string \<Rightarrow> byte list option" \<comment> \<open>frame files in the output directory\<close>
  timelapse :: bool                  \<comment> \<open>the raspistill timelapse process runs\<close>

section \<open>Node timers\<close>

text \<open>
  Node clamps a delay outside \<open>[1, 2147483647]\<close> to 1 ms. A timer is due at the
  creation time plus its delay; handles are fresh numbers.
\<close>

definition timer_delay :: "nat \<Rightarrow> nat" where
  "timer_delay d = (if 1 \<le> d \<and> d \<le> 2147483647 then d else 1)"

definition setTimeout :: "nat \<Rightarrow> timer_cb \<Rightarrow> world \<Rightarrow> tid \<times> world" where
  "setTimeout d cb w =
     (next_id w,
      w\<lparr>timers := timers w @ [\<lparr>t_id = next_id w, t_due = now w + timer_delay d, t_cb = cb\<rparr>],
        next_id := Suc (next_id w)\<rparr>)"

text \<open>\<open>clearTimeout\<close> accepts \<open>null\<close> and \<open>undefined\<close> and then does nothing.\<close>

definition clearTimeout :: "tid option \<Rightarrow> world \<Rightarrow> world" where
  "clearTimeout h w =
     (case h of None \<Rightarrow> w | Some t \<Rightarrow> w\<lparr>timers := filter (\<lambda>x. t_id x \<noteq> t) (timers w)\<rparr>)"

text \<open>
  The timer the event loop runs next: the one with the earliest due time, the first
  created among equal ones; it runs only if it is due by the time the loop has reached.
\<close>

fun earliest :: "js_timer list \<Rightarrow> js_timer option" where
  "earliest [] = None"
| "earliest (x # xs) =
     (case earliest xs of
        None \<Rightarrow> Some x
      | Some y \<Rightarrow> (if t_due y < t_due x then Some y else Some x))"

definition due_timer :: "nat \<Rightarrow> js_timer list \<Rightarrow> js_timer option" where
  "due_timer target ts =
     (case earliest ts of
        None \<Rightarrow> None
      | Some x \<Rightarrow> (if t_due x \<le> target then Some x else None))"

section \<open>State queries\<close>

text \<open>\<open>timer instanceof Timeout\<close>: the handle variable holds a \<open>Timeout\<close> object.\<close>

definition isFeeding :: "world \<Rightarrow> bool" where
  "isFeeding w \<longleftrightarrow> feeder_timer w \<noteq> None"

definition isRecording :: "world \<Rightarrow> bool" where
  "isRecording w \<longleftrightarrow> speech_timer w \<noteq> None"

section \<open>Lemmas on timers\<close>

lemma earliest_None_iff [simp]: "earliest ts = None \<longleftrightarrow> ts = []"
  by (induction ts) (auto split: option.splits)

lemma earliest_Some:
  assumes "earliest ts = Some x"
  shows "x \<in> set ts \<and> (\<forall>y \<in> set ts. t_due x \<le> t_due y)"
  using assms
proof (induction ts arbitrary: x)
  case Nil
  then show ?case by simp
next
  case (Cons z zs)
  show ?case
  proof (cases "earliest zs")
    case None
    with Cons.prems show ?thesis by simp
  next
    case (Some y)
    with Cons.IH have "y \<in> set zs \<and> (\<forall>u \<in> set zs. t_due y \<le> t_due u)" by simp
    with Cons.prems Some show ?thesis by (auto split: if_splits)
  qed
qed

lemma due_timer_Some:
  assumes "due_timer target ts = Some x"
  shows "x \<in> set ts" and "t_due x \<le> target" and "\<forall>y \<in> set ts. t_due x \<le> t_due y"
  using assms earliest_Some [of ts x]
  by (auto simp: due_timer_def split: option.splits if_splits)

lemma due_timer_None:
  assumes "due_timer target ts = None"
  shows "\<forall>y \<in> set ts. target < t_due y"
proof
  fix y assume y: "y \<in> set ts"
  then obtain x where x: "earliest ts = Some x"
    by (cases "earliest ts") auto
  with assms have "target < t_due x" by (simp add: due_timer_def split: if_splits)
  moreover from earliest_Some [OF x] y have "t_due x \<le> t_due y" by blast
  ultimately show "target < t_due y" by simp
qed

lemma timer_delay_bounds: "1 \<le> timer_delay d \<and> timer_delay d \<le> 2147483647"
  by (simp add: timer_delay_def)

lemma timer_delay_id [simp]: "1 \<le> d \<Longrightarrow> d \<le> 2147483647 \<Longrightarrow> timer_delay d = d"
  by (simp add: timer_delay_def)

lemma setTimeout_fields [frame_simps]:
  "setTimeout d cb w = (t, w') \<Longrightarrow> t = next_id w \<and> next_id w' = Suc (next_id w)
     \<and> timers w' = timers w @ [\<lparr>t_id = next_id w, t_due = now w + timer_delay d, t_cb = cb\<rparr>]
     \<and> w' = w\<lparr>timers := timers w', next_id := next_id w'\<rparr>"
  by (auto simp: setTimeout_def)

lemma clearTimeout_timers [simp]:
  "timers (clearTimeout (Some t) w) = filter (\<lambda>x. t_id x \<noteq> t) (timers w)"
  "clearTimeout None w = w"
  by (simp_all add: clearTimeout_def)

lemma clearTimeout_other [frame_simps]:
  "cfg (clearTimeout h w) = cfg w" "now (clearTimeout h w) = now w"
  "next_id (clearTimeout h w) = next_id w"
  "servo (clearTimeout h w) = servo w" "feeder_timer (clearTimeout h w) = feeder_timer w"
  "recording (clearTimeout h w) = recording w" "speech_timer (clearTimeout h w) = speech_timer w"
  "mics (clearTimeout h w) = mics w" "streams (clearTimeout h w) = streams w"
  "listeners (clearTimeout h w) = listeners w" "sockets (clearTimeout h w) = sockets w"
  "emitted (clearTimeout h w) = emitted w" "files (clearTimeout h w) = files w"
  "timelapse (clearTimeout h w) = timelapse w"
  by (simp_all add: clearTimeout_def split: option.splits)

lemma clearTimeout_length_le: "length (timers (clearTimeout h w)) \<le> length (timers w)"
  by (cases h) simp_all

end
