(* ===== verification/EventBus.thy ===== *)
theory EventBus
  imports World
begin

text \<open>
  The shared emitter of \<open>src/raspi/index.js\<close> (\<open>class RaspiEmitter extends
  EventEmitter\<close>). Node's \<open>emitter.emit(name, ...)\<close> takes a snapshot of the
  listener array and calls, synchronously and in registration order, every listener
  registered for \<open>name\<close>; a listener that throws ends the call: the exception leaves
  \<open>emit\<close> and the listeners after it do not run.

  \<open>ee_emit\<close> is that semantics over any listener identity \<open>'n\<close> and any state
  \<open>'s\<close>: the handler \<open>h\<close> says what running one listener does. The component
  theories instantiate it with the listeners of \<open>src/io.js\<close>.
\<close>

fun ee_emit :: "('n \<Rightarrow> 's \<Rightarrow> 'e + 's) \<Rightarrow> 'n list \<Rightarrow> 'n \<Rightarrow> 's \<Rightarrow> 'e + 's" where
  "ee_emit h [] n s = Inr s"
| "ee_emit h (l # ls) n s =
     (if l = n then (case h l s of Inl e \<Rightarrow> Inl e | Inr s' \<Rightarrow> ee_emit h ls n s')
      else ee_emit h ls n s)"

section \<open>Delivery\<close>

lemma ee_emit_append:
  "ee_emit h (xs @ ys) n s = (case ee_emit h xs n s of Inl e \<Rightarrow> Inl e | Inr s' \<Rightarrow> ee_emit h ys n s')"
  by (induction xs arbitrary: s) (simp_all split: sum.splits)

lemma ee_emit_no_listener: "n \<notin> set ls \<Longrightarrow> ee_emit h ls n s = Inr s"
  by (induction ls) auto

text \<open>A listener that cannot throw runs once per registration: \<open>count_list ls n\<close>
  times, one after the other.\<close>

lemma ee_emit_total:
  "ee_emit (\<lambda>_ s. Inr (f s)) ls n s = Inr ((f ^^ count_list ls n) s)"
  by (induction ls arbitrary: s) (simp_all add: funpow_swap1)

text \<open>A throwing listener stops delivery: the first matching listener already runs on
  the unchanged state, so if it throws nobody after it is called.\<close>

lemma ee_emit_first_throws:
  assumes "n \<in> set ls" and "h n s = Inl e"
  shows "ee_emit h ls n s = Inl e"
  using assms by (induction ls) auto

lemma ee_emit_Inl_from_handler:
  "ee_emit h ls n s = Inl e \<Longrightarrow> \<exists>s'. h n s' = Inl e"
  by (induction ls arbitrary: s) (auto split: if_splits sum.splits)

text \<open>An invariant every run of the listener keeps holds after the emit.\<close>

lemma ee_emit_preserves:
  assumes "\<And>s s'. P s \<Longrightarrow> h n s = Inr s' \<Longrightarrow> P s'"
    and "P s" and "ee_emit h ls n s = Inr s'"
  shows "P s'"
  using assms(2,3)
proof (induction ls arbitrary: s)
  case Nil
  then show ?case by simp
next
  case (Cons l ls)
  show ?case
  proof (cases "l = n")
    case True
    with Cons.prems obtain s1 where s1: "h n s = Inr s1" and rest: "ee_emit h ls n s1 = Inr s'"
      by (auto split: sum.splits)
    from assms(1) [OF Cons.prems(1) s1] rest show ?thesis by (rule Cons.IH)
  next
    case False
    with Cons show ?thesis by simp
  qed
qed

end
