(* ===== verification/Notify.thy ===== *)
theory Notify
  imports EventBus
begin

text \<open>
  The outward side of \<open>src/io.js\<close>: the Socket.IO broadcast \<open>io.emit\<close>, the status
  snapshot \<open>updateInfo\<close>, and the five emitter listeners that forward a hardware
  event to every connected browser and then broadcast a fresh snapshot. With them,
  \<open>emit_relay\<close> is \<open>emitter.emit\<close> of a relayed event: it records the emit in the
  history and runs every listener registered for it.
\<close>

section \<open>Broadcast\<close>

text \<open>\<open>io.emit\<close> sends to every socket connected at that moment.\<close>

definition deliver :: "wire list \<Rightarrow> (sid \<times> wire list) list \<Rightarrow> (sid \<times> wire list) list" where
  "deliver ms ss = map (\<lambda>(s, inbox). (s, inbox @ ms)) ss"

definition io_emit :: "wire \<Rightarrow> world \<Rightarrow> world" where
  "io_emit m w = w\<lparr>sockets := deliver [m] (sockets w)\<rparr>"

definition info_wire :: "world \<Rightarrow> wire" where
  "info_wire w = WInfo (now w) (\<not> isFeeding w) (\<not> isRecording w)"

definition updateInfo :: "world \<Rightarrow> world" where
  "updateInfo w = io_emit (WInfo (now w) (\<not> isFeeding w) (\<not> isRecording w)) w"

section \<open>The relay listeners\<close>

text \<open>The message each listener broadcasts, stamped with \<open>Date.now()\<close>.\<close>

fun relay_wire :: "relay_event \<Rightarrow> payload \<Rightarrow> nat \<Rightarrow> wire" where
  "relay_wire FeedingStarted p d = WEvent ''feedingStarted'' d (message p) (status p)"
| "relay_wire FeedingStopped p d = WEvent ''feedingStopped'' d (message p) (status p)"
| "relay_wire FrameLoaded p d = WImage d (cameraImage p) (message p) (status p)"
| "relay_wire SpeechRecordingStarted p d = WEvent ''speechRecordingStarted'' d (message p) (status p)"
| "relay_wire SpeechRecordingStopped p d = WEvent ''speechRecordingStopped'' d (message p) (status p)"

definition relay :: "relay_event \<Rightarrow> payload \<Rightarrow> world \<Rightarrow> world" where
  "relay e p w = updateInfo (io_emit (relay_wire e p (now w)) w)"

definition emit_relay :: "relay_event \<Rightarrow> payload \<Rightarrow> world \<Rightarrow> js_error + world" where
  "emit_relay e p w =
     (let w' = w\<lparr>emitted := emitted w @ [Relay e]\<rparr>
      in ee_emit (\<lambda>_ s. Inr (relay e p s)) (listeners w') (Relay e) w')"

section \<open>What a relayed emit does\<close>

lemma deliver_simps [simp]:
  "deliver ms [] = []"
  "deliver ms ((s, inbox) # ss) = (s, inbox @ ms) # deliver ms ss"
  by (simp_all add: deliver_def)

lemma deliver_deliver [simp]: "deliver ys (deliver xs ss) = deliver (xs @ ys) ss"
  by (induction ss) (auto simp: deliver_def)

lemma deliver_Nil [simp]: "deliver [] ss = ss"
  by (induction ss) (auto simp: deliver_def)

lemma map_fst_deliver [simp]: "map fst (deliver ms ss) = map fst ss"
  by (induction ss) (auto simp: deliver_def)

lemma relay_eq:
  "relay e p w = w\<lparr>sockets := deliver [relay_wire e p (now w), info_wire w] (sockets w)\<rparr>"
  by (simp add: relay_def updateInfo_def io_emit_def info_wire_def isFeeding_def isRecording_def)

lemma relay_funpow:
  "(relay e p ^^ k) w =
     w\<lparr>sockets := deliver (concat (replicate k [relay_wire e p (now w), info_wire w])) (sockets w)\<rparr>"
proof (induction k arbitrary: w)
  case 0
  then show ?case by simp
next
  case (Suc k)
  have "(relay e p ^^ Suc k) w = (relay e p ^^ k) (relay e p w)"
    by (simp only: funpow_Suc_right comp_def)
  also have "\<dots> = relay e p w\<lparr>sockets := deliver (concat (replicate k
        [relay_wire e p (now (relay e p w)), info_wire (relay e p w)])) (sockets (relay e p w))\<rparr>"
    by (rule Suc.IH)
  also have "\<dots> = w\<lparr>sockets := deliver (concat (replicate (Suc k)
        [relay_wire e p (now w), info_wire w])) (sockets w)\<rparr>"
    by (simp add: relay_eq info_wire_def isFeeding_def isRecording_def)
  finally show ?case .
qed

text \<open>
  The characteristic equation of a relayed emit: it is recorded once in the history,
  and every connected socket receives the event and a fresh snapshot once per listener
  registered for it. Nothing else changes, and it never throws.
\<close>

lemma emit_relay_eq:
  "emit_relay e p w =
     Inr (w\<lparr>emitted := emitted w @ [Relay e],
            sockets := deliver (concat (replicate (count_list (listeners w) (Relay e))
                         [relay_wire e p (now w), info_wire w])) (sockets w)\<rparr>)"
  by (simp add: emit_relay_def ee_emit_total relay_funpow info_wire_def isFeeding_def isRecording_def)

end
