(* ===== verification/Gpio.thy ===== *)
theory Gpio
  imports Notify
begin

text \<open>
  The feeder controller of \<open>src/raspi/gpio.js\<close>. Its state is the closure variables
  \<open>servo\<close> (undefined until the board's \<open>ready\<close> event) and \<open>timer\<close> (a
  \<open>Timeout\<close> while feeding, \<open>null\<close> after a stop); \<open>isFeeding\<close> is in
  \<^theory_text>\<open>World\<close>. \<open>startFeeder\<close> and \<open>stopFeeder\<close> are translated statement by
  statement, with \<open>emitter.emit\<close> as \<open>emit_relay\<close>. \<open>servo.max()\<close> on an undefined
  \<open>servo\<close> throws, which is the \<open>Inl\<close> branch.
\<close>

section \<open>Operations\<close>

definition boardReady :: "world \<Rightarrow> world" where
  "boardReady w = w\<lparr>servo := Some ServoMin\<rparr>"

definition stopFeeder :: "world \<Rightarrow> js_error + world" where
  "stopFeeder w =
     (if isFeeding w then
        (case servo w of
           None \<Rightarrow> Inl (TypeError ''Cannot read property min of undefined'')
         | Some _ \<Rightarrow>
             (let w1 = w\<lparr>servo := Some ServoMin\<rparr>;
                  w2 = clearTimeout (feeder_timer w1) w1;
                  w3 = w2\<lparr>feeder_timer := None\<rparr>
              in emit_relay FeedingStopped
                   \<lparr>message = ''Feeding stopped'', status = ''success'', cameraImage = None\<rparr> w3))
      else Inr w)"

definition startFeeder :: "world \<Rightarrow> js_error + world" where
  "startFeeder w =
     (if \<not> isFeeding w then
        (case servo w of
           None \<Rightarrow> Inl (TypeError ''Cannot read property max of undefined'')
         | Some _ \<Rightarrow>
             (let w1 = w\<lparr>servo := Some ServoMax\<rparr>;
                  (t, w2) = setTimeout (cfg_feeder_timer (cfg w1)) StopFeederCb w1;
                  w3 = w2\<lparr>feeder_timer := Some t\<rparr>
              in emit_relay FeedingStarted
                   \<lparr>message = ''Feeding started'', status = ''success'', cameraImage = None\<rparr> w3))
      else Inr w)"

section \<open>Characteristic equations\<close>

definition feeder_timer_entry :: "world \<Rightarrow> js_timer" where
  "feeder_timer_entry w =
     \<lparr>t_id = next_id w, t_due = now w + timer_delay (cfg_feeder_timer (cfg w)), t_cb = StopFeederCb\<rparr>"

lemma startFeeder_while_feeding: "isFeeding w \<Longrightarrow> startFeeder w = Inr w"
  by (simp add: startFeeder_def)

lemma startFeeder_not_ready:
  "\<not> isFeeding w \<Longrightarrow> servo w = None \<Longrightarrow>
     startFeeder w = Inl (TypeError ''Cannot read property max of undefined'')"
  by (simp add: startFeeder_def)

lemma startFeeder_start:
  assumes "\<not> isFeeding w" and "servo w = Some x"
  shows "startFeeder w =
    Inr (w\<lparr>timers := timers w @ [feeder_timer_entry w], next_id := Suc (next_id w),
           servo := Some ServoMax, feeder_timer := Some (next_id w),
           emitted := emitted w @ [Relay FeedingStarted],
           sockets := deliver (concat (replicate (count_list (listeners w) (Relay FeedingStarted))
              [WEvent ''feedingStarted'' (now w) ''Feeding started'' ''success'',
               WInfo (now w) False (\<not> isRecording w)])) (sockets w)\<rparr>)"
  using assms
  by (simp add: startFeeder_def setTimeout_def emit_relay_eq info_wire_def isFeeding_def
      isRecording_def feeder_timer_entry_def)

lemma stopFeeder_idle: "\<not> isFeeding w \<Longrightarrow> stopFeeder w = Inr w"
  by (simp add: stopFeeder_def)

lemma stopFeeder_stop:
  assumes "feeder_timer w = Some t" and "servo w = Some x"
  shows "stopFeeder w =
    Inr (w\<lparr>servo := Some ServoMin, timers := filter (\<lambda>y. t_id y \<noteq> t) (timers w),
           feeder_timer := None, emitted := emitted w @ [Relay FeedingStopped],
           sockets := deliver (concat (replicate (count_list (listeners w) (Relay FeedingStopped))
              [WEvent ''feedingStopped'' (now w) ''Feeding stopped'' ''success'',
               WInfo (now w) True (\<not> isRecording w)])) (sockets w)\<rparr>)"
  using assms
  by (simp add: stopFeeder_def clearTimeout_def emit_relay_eq info_wire_def isFeeding_def
      isRecording_def)

lemma stopFeeder_not_ready:
  "isFeeding w \<Longrightarrow> servo w = None \<Longrightarrow>
     stopFeeder w = Inl (TypeError ''Cannot read property min of undefined'')"
  by (simp add: stopFeeder_def)

section \<open>Case rules\<close>

text \<open>A successful call either changes nothing or is the one start (stop) above.\<close>

lemma startFeeder_cases:
  assumes "startFeeder w = Inr w'"
  obtains (noop) "w' = w" "isFeeding w"
  | (start) x where "\<not> isFeeding w" "servo w = Some x"
      "w' = w\<lparr>timers := timers w @ [feeder_timer_entry w], next_id := Suc (next_id w),
           servo := Some ServoMax, feeder_timer := Some (next_id w),
           emitted := emitted w @ [Relay FeedingStarted],
           sockets := deliver (concat (replicate (count_list (listeners w) (Relay FeedingStarted))
              [WEvent ''feedingStarted'' (now w) ''Feeding started'' ''success'',
               WInfo (now w) False (\<not> isRecording w)])) (sockets w)\<rparr>"
proof (cases "isFeeding w")
  case True
  with assms show ?thesis by (simp add: startFeeder_while_feeding noop)
next
  case False
  then obtain x where x: "servo w = Some x"
    using assms startFeeder_not_ready by (cases "servo w") auto
  with False assms show ?thesis by (simp add: startFeeder_start start)
qed

lemma stopFeeder_cases:
  assumes "stopFeeder w = Inr w'"
  obtains (noop) "w' = w" "\<not> isFeeding w"
  | (stop) t x where "feeder_timer w = Some t" "servo w = Some x"
      "w' = w\<lparr>servo := Some ServoMin, timers := filter (\<lambda>y. t_id y \<noteq> t) (timers w),
           feeder_timer := None, emitted := emitted w @ [Relay FeedingStopped],
           sockets := deliver (concat (replicate (count_list (listeners w) (Relay FeedingStopped))
              [WEvent ''feedingStopped'' (now w) ''Feeding stopped'' ''success'',
               WInfo (now w) True (\<not> isRecording w)])) (sockets w)\<rparr>"
proof (cases "feeder_timer w")
  case None
  then have "\<not> isFeeding w" by (simp add: isFeeding_def)
  with assms show ?thesis by (simp add: stopFeeder_idle noop)
next
  case (Some t)
  then have f: "isFeeding w" by (simp add: isFeeding_def)
  then obtain x where x: "servo w = Some x"
    using assms stopFeeder_not_ready by (cases "servo w") auto
  with Some assms show ?thesis by (simp add: stopFeeder_stop stop)
qed

section \<open>Frame facts\<close>

text \<open>The feeder touches neither the recorder nor the configuration, the listeners, the
  files or the clock.\<close>

lemma startFeeder_frame [frame_simps]:
  assumes "startFeeder w = Inr w'"
  shows "recording w' = recording w" "speech_timer w' = speech_timer w" "mics w' = mics w"
    "streams w' = streams w" "listeners w' = listeners w" "cfg w' = cfg w" "now w' = now w"
    "files w' = files w" "timelapse w' = timelapse w" "map fst (sockets w') = map fst (sockets w)"
  using assms by (cases rule: startFeeder_cases; simp)+

lemma stopFeeder_frame [frame_simps]:
  assumes "stopFeeder w = Inr w'"
  shows "recording w' = recording w" "speech_timer w' = speech_timer w" "mics w' = mics w"
    "streams w' = streams w" "listeners w' = listeners w" "cfg w' = cfg w" "now w' = now w"
    "files w' = files w" "timelapse w' = timelapse w" "next_id w' = next_id w"
    "map fst (sockets w') = map fst (sockets w)"
  using assms by (cases rule: stopFeeder_cases; simp)+

lemma stopFeeder_timers_subset:
  "stopFeeder w = Inr w' \<Longrightarrow> set (timers w') \<subseteq> set (timers w)"
  by (cases rule: stopFeeder_cases) auto

lemma stopFeeder_timers_length:
  "stopFeeder w = Inr w' \<Longrightarrow> length (timers w') \<le> length (timers w)"
  by (cases rule: stopFeeder_cases) auto

lemma startFeeder_Inl: "startFeeder w = Inl e \<Longrightarrow> servo w = None \<and> e = TypeError ''Cannot read property max of undefined''"
  by (simp add: startFeeder_def emit_relay_eq Let_def split: if_splits option.splits prod.splits)

end
