(* ===== verification/Speech.thy ===== *)
theory Speech
  imports Notify
begin

text \<open>
  The speech controller of \<open>src/raspi/speech.js\<close>. Its state is the closure variables
  \<open>recording\<close> (the current \<open>node-record-lpcm16\<close> recording) and \<open>timer\<close>;
  \<open>isRecording\<close> is in \<^theory_text>\<open>World\<close>. A call of \<open>startSpeechRecording\<close> opens a
  Google recognize stream and a sox recording piped into it; the model gives the pair
  one fresh handle, kept in \<open>streams\<close> and \<open>mics\<close> until the stream ends and the
  recording is stopped. Unlike \<open>startFeeder\<close>, \<open>startSpeechRecording\<close> has no guard.

  The stream's \<open>data\<close> listener normalises the first transcript with
  \<open>trim().toLowerCase()\<close> and emits \<open>speechRecordingRecognized\<close> when the result is
  one of the configured hotwords (\<open>Array.prototype.includes\<close>: exact equality). The
  emit is a parameter of \<open>speech_on_data\<close>, as the emitter is a parameter of the
  module; \<^theory_text>\<open>Gateway\<close> supplies it.

  Strings are byte strings. \<open>trim\<close> strips the ASCII whitespace and line terminators
  (tab, LF, VT, FF, CR, space) and \<open>toLowerCase\<close> maps \<open>A\<close>-\<open>Z\<close>; the non-ASCII
  whitespace and letters of JavaScript's UTF-16 strings are outside the model.
\<close>

section \<open>Transcript normalisation\<close>

definition is_js_space :: "char \<Rightarrow> bool" where
  "is_js_space c \<longleftrightarrow> of_char c \<in> {9, 10, 11, 12, 13, 32 :: nat}"

definition trim :: "string \<Rightarrow> string" where
  "trim s = rev (dropWhile is_js_space (rev (dropWhile is_js_space s)))"

definition lower_char :: "char \<Rightarrow> char" where
  "lower_char c = (if (65 :: nat) \<le> of_char c \<and> of_char c \<le> (90 :: nat) then char_of (of_char c + (32 :: nat)) else c)"

definition toLowerCase :: "string \<Rightarrow> string" where
  "toLowerCase s = map lower_char s"

definition normalize_transcript :: "string \<Rightarrow> string" where
  "normalize_transcript t = toLowerCase (trim t)"

section \<open>The module's constant arguments\<close>

text \<open>The request passed to \<open>client.streamingRecognize\<close> (the constant \<open>request\<close> of
  the module) and the options passed to \<open>recorder.record\<close>. The sample rate of the
  recording is read from the request, so microphone and recognizer agree; neither the
  rate nor the language is read from the configuration.\<close>

record recognize_config =
  encoding :: string
  languageCode :: string
  sampleRateHertz :: nat

record recognize_request =
  rq_config :: recognize_config
  interimResults :: bool

definition speech_request :: recognize_request where
  "speech_request =
     \<lparr>rq_config = \<lparr>encoding = ''LINEAR16'', languageCode = ''pt-PT'', sampleRateHertz = 16000\<rparr>,
      interimResults = False\<rparr>"

record recorder_options =
  device :: string
  recorder :: string
  sampleRate :: nat

definition record_options :: "config \<Rightarrow> recorder_options" where
  "record_options c =
     \<lparr>device = cfg_speech_device c, recorder = ''sox'',
      sampleRate = sampleRateHertz (rq_config speech_request)\<rparr>"

section \<open>Operations\<close>

text \<open>\<open>data.results[i].alternatives[j].transcript\<close>\<close>

type_synonym speech_data = "string list list"

definition stopSpeechRecording :: "world \<Rightarrow> js_error + world" where
  "stopSpeechRecording w =
     (if isRecording w then
        (case recording w of
           None \<Rightarrow> Inl (TypeError ''Cannot read property stop of undefined'')
         | Some r \<Rightarrow>
             (let w1 = w\<lparr>mics := removeAll r (mics w)\<rparr>;
                  w2 = clearTimeout (speech_timer w1) w1;
                  w3 = w2\<lparr>speech_timer := None\<rparr>
              in emit_relay SpeechRecordingStopped
                   \<lparr>message = ''Speech recording stopped'', status = ''success'', cameraImage = None\<rparr> w3))
      else Inr w)"

definition startSpeechRecording :: "world \<Rightarrow> js_error + world" where
  "startSpeechRecording w =
     (let r = next_id w;
          w1 = w\<lparr>streams := streams w @ [r], mics := mics w @ [r], recording := Some r,
                 next_id := Suc r\<rparr>;
          (t, w2) = setTimeout (cfg_speech_timer (cfg w1)) StopSpeechCb w1;
          w3 = w2\<lparr>speech_timer := Some t\<rparr>
      in emit_relay SpeechRecordingStarted
           \<lparr>message = ''Speech recording started'', status = ''success'', cameraImage = None\<rparr> w3)"

definition speech_on_data :: "(world \<Rightarrow> js_error + world) \<Rightarrow> speech_data \<Rightarrow> world \<Rightarrow> js_error + world" where
  "speech_on_data emit_recognized d w =
     (case d of
        [] \<Rightarrow> Inr w
      | res # _ \<Rightarrow>
          (case res of
             [] \<Rightarrow> Inr w
           | tr # _ \<Rightarrow>
               (let transcription = normalize_transcript tr
                in if transcription \<in> set (cfg_hotwords (cfg w)) then emit_recognized w else Inr w)))"

text \<open>The \<open>error\<close> listeners of the recognize stream and of the microphone stream only
  log: the session keeps running.\<close>

definition speech_stream_error :: "rid \<Rightarrow> world \<Rightarrow> world" where
  "speech_stream_error r w = w"

definition mic_stream_error :: "rid \<Rightarrow> world \<Rightarrow> world" where
  "mic_stream_error r w = w"

text \<open>A string without leading or trailing whitespace, and the timer a recording starts.\<close>

definition trimmed :: "string \<Rightarrow> bool" where
  "trimmed t \<longleftrightarrow> t = [] \<or> (\<not> is_js_space (hd t) \<and> \<not> is_js_space (last t))"

definition speech_timer_entry :: "world \<Rightarrow> js_timer" where
  "speech_timer_entry w =
     \<lparr>t_id = Suc (next_id w), t_due = now w + timer_delay (cfg_speech_timer (cfg w)),
      t_cb = StopSpeechCb\<rparr>"

section \<open>Normalisation lemmas\<close>

lemma is_js_space_lower [simp]: "is_js_space (lower_char c) = is_js_space c"
  by (auto simp: is_js_space_def lower_char_def)

lemma dropWhile_map_lower:
  "dropWhile is_js_space (map lower_char s) = map lower_char (dropWhile is_js_space s)"
  by (induction s) simp_all

lemma trim_toLowerCase: "trim (toLowerCase s) = toLowerCase (trim s)"
  by (simp add: trim_def toLowerCase_def dropWhile_map_lower rev_map)

lemma last_dropWhile:
  "dropWhile P xs \<noteq> [] \<Longrightarrow> last (dropWhile P xs) = last xs"
  by (metis last_appendR takeWhile_dropWhile_id)

lemma trim_trimmed: "trimmed (trim s)"
proof -
  define u where "u = dropWhile is_js_space s"
  define v where "v = dropWhile is_js_space (rev u)"
  have t: "trim s = rev v" by (simp add: trim_def u_def v_def)
  show ?thesis
  proof (cases "v = []")
    case True
    then show ?thesis by (simp add: t trimmed_def)
  next
    case False
    then have "u \<noteq> []" by (auto simp: v_def)
    have "\<not> is_js_space (hd v)" using False by (simp add: v_def hd_dropWhile)
    moreover have "last v = hd u"
      using False by (simp add: v_def last_dropWhile last_rev)
    moreover have "\<not> is_js_space (hd u)" using \<open>u \<noteq> []\<close> by (simp add: u_def hd_dropWhile)
    ultimately show ?thesis by (simp add: t trimmed_def hd_rev last_rev)
  qed
qed

lemma trimmed_trim_id:
  assumes "trimmed t"
  shows "trim t = t"
proof (cases "t = []")
  case True
  then show ?thesis by (simp add: trim_def)
next
  case False
  with assms have "dropWhile is_js_space t = t"
    by (simp add: trimmed_def dropWhile_eq_self_iff)
  moreover from False assms have "dropWhile is_js_space (rev t) = rev t"
    by (simp add: trimmed_def dropWhile_eq_self_iff hd_rev)
  ultimately show ?thesis by (simp add: trim_def)
qed

lemma trim_idem: "trim (trim s) = trim s"
  by (rule trimmed_trim_id [OF trim_trimmed])

lemma lower_char_idem [simp]: "lower_char (lower_char c) = lower_char c"
  by (auto simp: lower_char_def)

lemma toLowerCase_idem: "toLowerCase (toLowerCase s) = toLowerCase s"
  by (simp add: toLowerCase_def)

lemma lower_char_not_upper: "\<not> ((65 :: nat) \<le> of_char (lower_char c) \<and> of_char (lower_char c) \<le> (90 :: nat))"
  by (auto simp: lower_char_def)

lemma normalize_transcript_idem:
  "normalize_transcript (normalize_transcript t) = normalize_transcript t"
  by (simp add: normalize_transcript_def trim_toLowerCase trim_idem toLowerCase_idem)

text \<open>A hotword that normalisation changes is the normalised text of no transcript.\<close>

lemma unnormalised_not_normal:
  assumes "normalize_transcript h \<noteq> h"
  shows "normalize_transcript tr \<noteq> h"
proof
  assume "normalize_transcript tr = h"
  then have "normalize_transcript h = normalize_transcript (normalize_transcript tr)" by simp
  also have "\<dots> = normalize_transcript tr" by (rule normalize_transcript_idem)
  finally show False using \<open>normalize_transcript tr = h\<close> assms by simp
qed

section \<open>Characteristic equations\<close>

lemma startSpeechRecording_eq:
  "startSpeechRecording w =
    Inr (w\<lparr>streams := streams w @ [next_id w], mics := mics w @ [next_id w],
           recording := Some (next_id w), next_id := Suc (Suc (next_id w)),
           timers := timers w @ [speech_timer_entry w], speech_timer := Some (Suc (next_id w)),
           emitted := emitted w @ [Relay SpeechRecordingStarted],
           sockets := deliver (concat (replicate (count_list (listeners w) (Relay SpeechRecordingStarted))
              [WEvent ''speechRecordingStarted'' (now w) ''Speech recording started'' ''success'',
               WInfo (now w) (\<not> isFeeding w) False])) (sockets w)\<rparr>)"
  by (simp add: startSpeechRecording_def setTimeout_def emit_relay_eq info_wire_def isFeeding_def Let_def
      isRecording_def speech_timer_entry_def)

lemma stopSpeechRecording_idle: "\<not> isRecording w \<Longrightarrow> stopSpeechRecording w = Inr w"
  by (simp add: stopSpeechRecording_def)

lemma stopSpeechRecording_not_ready:
  "isRecording w \<Longrightarrow> recording w = None \<Longrightarrow>
     stopSpeechRecording w = Inl (TypeError ''Cannot read property stop of undefined'')"
  by (simp add: stopSpeechRecording_def)

lemma stopSpeechRecording_stop:
  assumes "speech_timer w = Some t" and "recording w = Some r"
  shows "stopSpeechRecording w =
    Inr (w\<lparr>mics := removeAll r (mics w), timers := filter (\<lambda>y. t_id y \<noteq> t) (timers w),
           speech_timer := None, emitted := emitted w @ [Relay SpeechRecordingStopped],
           sockets := deliver (concat (replicate (count_list (listeners w) (Relay SpeechRecordingStopped))
              [WEvent ''speechRecordingStopped'' (now w) ''Speech recording stopped'' ''success'',
               WInfo (now w) (\<not> isFeeding w) True])) (sockets w)\<rparr>)"
  using assms
  by (simp add: stopSpeechRecording_def clearTimeout_def emit_relay_eq info_wire_def isFeeding_def
      isRecording_def)

lemma stopSpeechRecording_cases:
  assumes "stopSpeechRecording w = Inr w'"
  obtains (noop) "w' = w" "\<not> isRecording w"
  | (stop) t r where "speech_timer w = Some t" "recording w = Some r"
      "w' = w\<lparr>mics := removeAll r (mics w), timers := filter (\<lambda>y. t_id y \<noteq> t) (timers w),
           speech_timer := None, emitted := emitted w @ [Relay SpeechRecordingStopped],
           sockets := deliver (concat (replicate (count_list (listeners w) (Relay SpeechRecordingStopped))
              [WEvent ''speechRecordingStopped'' (now w) ''Speech recording stopped'' ''success'',
               WInfo (now w) (\<not> isFeeding w) True])) (sockets w)\<rparr>"
proof (cases "speech_timer w")
  case None
  then have "\<not> isRecording w" by (simp add: isRecording_def)
  with assms show ?thesis by (simp add: stopSpeechRecording_idle noop)
next
  case (Some t)
  then have "isRecording w" by (simp add: isRecording_def)
  then obtain r where "recording w = Some r"
    using assms stopSpeechRecording_not_ready by (cases "recording w") auto
  with Some assms show ?thesis by (simp add: stopSpeechRecording_stop stop)
qed

lemma speech_on_data_cases:
  assumes "speech_on_data emit_recognized d w = res"
  obtains (ignored) "res = Inr w"
  | (recognized) tr alts rest where "d = (tr # alts) # rest"
      "normalize_transcript tr \<in> set (cfg_hotwords (cfg w))" "res = emit_recognized w"
  using assms by (auto simp: speech_on_data_def split: list.splits if_splits)

section \<open>Frame facts\<close>

lemma stopSpeechRecording_frame [frame_simps]:
  assumes "stopSpeechRecording w = Inr w'"
  shows "servo w' = servo w" "feeder_timer w' = feeder_timer w" "recording w' = recording w"
    "streams w' = streams w" "listeners w' = listeners w" "cfg w' = cfg w" "now w' = now w"
    "files w' = files w" "timelapse w' = timelapse w" "next_id w' = next_id w"
    "map fst (sockets w') = map fst (sockets w)"
  using assms by (cases rule: stopSpeechRecording_cases; simp)+

lemma stopSpeechRecording_timers_subset:
  "stopSpeechRecording w = Inr w' \<Longrightarrow> set (timers w') \<subseteq> set (timers w)"
  by (cases rule: stopSpeechRecording_cases) auto

lemma stopSpeechRecording_timers_length:
  "stopSpeechRecording w = Inr w' \<Longrightarrow> length (timers w') \<le> length (timers w)"
  by (cases rule: stopSpeechRecording_cases) auto

lemma stopSpeechRecording_mics:
  "stopSpeechRecording w = Inr w' \<Longrightarrow> set (mics w') \<subseteq> set (mics w)"
  by (cases rule: stopSpeechRecording_cases) auto

lemma startSpeechRecording_Inr: "\<exists>w'. startSpeechRecording w = Inr w'"
  by (simp add: startSpeechRecording_eq)


lemma stream_errors_log_only [simp]: "speech_stream_error r w = w" "mic_stream_error r w = w"
  by (simp_all add: speech_stream_error_def mic_stream_error_def)

end
