(* ===== verification/Base64.thy ===== *)
theory Base64
  imports Prelude
begin

text \<open>
  Base64 as the camera module uses it: \<open>Buffer.from(data).toString("base64")\<close> in
  \<open>src/raspi/camera.js\<close> turns the bytes of a frame into the text that the
  \<open>image\<close> message carries to the browser, which shows it as a
  \<open>data:image/jpeg;base64,\<close> URI (\<open>src/public/js/main.js\<close>). The encoder is RFC 4648
  base64 with padding, the output of Node's \<open>Buffer\<close>; \<open>base64_decode\<close> is the
  decoder of the browser side, written from RFC 4648 and used to state that the encoding
  loses nothing.
\<close>

section \<open>The encoder\<close>

definition b64_alphabet :: string where
  "b64_alphabet = ''ABCDEFGHIJKLMNOPQRSTUVWXYZabcdefghijklmnopqrstuvwxyz0123456789+/''"

definition b64_char :: "nat \<Rightarrow> char" where
  "b64_char n = b64_alphabet ! n"

fun base64_encode :: "byte list \<Rightarrow> string" where
  "base64_encode (a # b # c # rest) =
     (let n = unat a * 65536 + unat b * 256 + unat c
      in [b64_char (n div 262144), b64_char (n div 4096 mod 64),
          b64_char (n div 64 mod 64), b64_char (n mod 64)]) @ base64_encode rest"
| "base64_encode [a, b] =
     (let n = unat a * 65536 + unat b * 256
      in [b64_char (n div 262144), b64_char (n div 4096 mod 64), b64_char (n div 64 mod 64), CHR ''=''])"
| "base64_encode [a] =
     (let n = unat a * 65536
      in [b64_char (n div 262144), b64_char (n div 4096 mod 64), CHR ''='', CHR ''=''])"
| "base64_encode [] = []"

section \<open>The decoder (RFC 4648)\<close>

definition b64_value :: "char \<Rightarrow> nat option" where
  "b64_value c =
     (let k = of_char c :: nat
      in if 65 \<le> k \<and> k \<le> 90 then Some (k - 65)
         else if 97 \<le> k \<and> k \<le> 122 then Some (k - 71)
         else if 48 \<le> k \<and> k \<le> 57 then Some (k + 4)
         else if k = 43 then Some 62
         else if k = 47 then Some 63
         else None)"

fun base64_decode :: "string \<Rightarrow> byte list option" where
  "base64_decode (c1 # c2 # c3 # c4 # rest) =
     (case (b64_value c1, b64_value c2) of
        (Some d1, Some d2) \<Rightarrow>
          if rest = [] \<and> c3 = CHR ''='' \<and> c4 = CHR ''=''
          then Some [of_nat ((d1 * 262144 + d2 * 4096) div 65536)]
          else (case b64_value c3 of
                  None \<Rightarrow> None
                | Some d3 \<Rightarrow>
                    if rest = [] \<and> c4 = CHR ''=''
                    then (let n = d1 * 262144 + d2 * 4096 + d3 * 64
                          in Some [of_nat (n div 65536), of_nat (n div 256 mod 256)])
                    else (case (b64_value c4, base64_decode rest) of
                            (Some d4, Some bs) \<Rightarrow>
                              (let n = d1 * 262144 + d2 * 4096 + d3 * 64 + d4
                               in Some ([of_nat (n div 65536), of_nat (n div 256 mod 256),
                                         of_nat (n mod 256)] @ bs))
                          | _ \<Rightarrow> None))
      | _ \<Rightarrow> None)"
| "base64_decode [] = Some []"
| "base64_decode _ = None"

section \<open>Digits\<close>

lemma b64_alphabet_codes:
  "map of_char b64_alphabet = [65..<91] @ [97..<123] @ [48..<58] @ [43, 47::nat]"
  by code_simp

lemma length_b64_alphabet [simp]: "length b64_alphabet = 64"
  by (simp add: b64_alphabet_def)

lemma b64_digit_cases:
  assumes "n < (64::nat)"
  obtains (upper) "n < 26" | (lower) "26 \<le> n" "n < 52" | (digit) "52 \<le> n" "n < 62"
    | (plus) "n = 62" | (slash) "n = 63"
  using assms by linarith

lemma of_char_b64_char:
  assumes "n < 64"
  shows "of_char (b64_char n) =
    (if n < 26 then 65 + n else if n < 52 then 71 + n else if n < 62 then n - 4
     else if n = 62 then 43 else (47::nat))"
proof -
  have "of_char (b64_char n) = map of_char b64_alphabet ! n"
    using assms by (simp add: b64_char_def)
  also have "\<dots> = ([65..<91] @ [97..<123] @ [48..<58] @ [43, 47::nat]) ! n"
    by (simp only: b64_alphabet_codes)
  also have "\<dots> = (if n < 26 then 65 + n else if n < 52 then 71 + n else if n < 62 then n - 4
     else if n = 62 then 43 else (47::nat))"
    using assms by (cases rule: b64_digit_cases) (auto simp: nth_append nth_Cons' del: upt_rec_numeral)
  finally show ?thesis .
qed

lemma b64_value_char [simp]:
  assumes "n < 64"
  shows "b64_value (b64_char n) = Some n"
  using assms by (cases rule: b64_digit_cases) (auto simp: b64_value_def of_char_b64_char Let_def)

lemma b64_char_not_pad [simp]: "n < 64 \<Longrightarrow> b64_char n \<noteq> CHR ''=''"
proof
  assume "n < 64" and "b64_char n = CHR ''=''"
  then have "of_char (b64_char n) = (61::nat)" by simp
  with \<open>n < 64\<close> show False
    by (cases rule: b64_digit_cases) (simp_all add: of_char_b64_char)
qed

section \<open>Groups of three bytes\<close>

lemma digits_recombine:
  fixes n :: nat
  assumes "n < 16777216"
  shows "n div 262144 * 262144 + n div 4096 mod 64 * 4096 + n div 64 mod 64 * 64 + n mod 64 = n"
proof -
  have "n mod 4096 = 64 * (n div 64 mod 64) + n mod 64"
    using mod_mult2_eq [of n 64 64] by simp
  moreover have "n mod 262144 = 4096 * (n div 4096 mod 64) + n mod 4096"
    using mod_mult2_eq [of n 4096 64] by simp
  moreover have "n div 262144 * 262144 + n mod 262144 = n"
    by (rule div_mult_mod_eq)
  ultimately show ?thesis by linarith
qed

lemma byte_group3:
  fixes a b c :: byte
  defines "n \<equiv> unat a * 65536 + unat b * 256 + unat c"
  shows "n < 16777216" "n div 65536 = unat a" "n div 256 mod 256 = unat b" "n mod 256 = unat c"
proof -
  have a: "unat a < 256" and b: "unat b < 256" and c: "unat c < 256" by simp_all
  then show "n < 16777216" unfolding n_def by linarith
  have lo: "unat b * 256 + unat c < 65536" using b c by linarith
  have "n = (unat b * 256 + unat c) + unat a * 65536" by (simp add: n_def)
  then show "n div 65536 = unat a" using lo by simp
  have n256: "n = unat c + (unat a * 256 + unat b) * 256" by (simp add: n_def)
  have "n div 256 = unat a * 256 + unat b"
    unfolding n256 by (subst div_mult_self1) (use c in simp_all)
  then show "n div 256 mod 256 = unat b" using b by simp
  show "n mod 256 = unat c" unfolding n256 by (subst mod_mult_self1) (use c in simp)
qed

lemma digit_bounds [simp]:
  fixes n :: nat
  shows "n < 16777216 \<Longrightarrow> n div 262144 < 64" "n div 4096 mod 64 < 64" "n div 64 mod 64 < 64"
    "n mod 64 < 64"
  by simp_all

text \<open>Decoding one group of four digits.\<close>

lemma decode_group3:
  assumes "n < 16777216"
  shows "base64_decode ([b64_char (n div 262144), b64_char (n div 4096 mod 64),
            b64_char (n div 64 mod 64), b64_char (n mod 64)] @ rest)
    = map_option (\<lambda>bs. [of_nat (n div 65536), of_nat (n div 256 mod 256), of_nat (n mod 256)] @ bs)
        (base64_decode rest)"
  using assms digits_recombine [OF assms] by (simp add: Let_def split: option.split)

lemma decode_group2:
  assumes "n < 16777216" and "n mod 64 = 0"
  shows "base64_decode [b64_char (n div 262144), b64_char (n div 4096 mod 64),
            b64_char (n div 64 mod 64), CHR ''='']
    = Some [of_nat (n div 65536), of_nat (n div 256 mod 256)]"
  using assms digits_recombine [OF assms(1)] by (simp add: Let_def)

lemma decode_group1:
  assumes "n < 16777216" and "n mod 4096 = 0"
  shows "base64_decode [b64_char (n div 262144), b64_char (n div 4096 mod 64), CHR ''='', CHR ''='']
    = Some [of_nat (n div 65536)]"
proof -
  have "n div 64 mod 64 = 0" "n mod 64 = 0"
    using assms(2) mod_mult2_eq [of n 64 64] by simp_all
  then show ?thesis using assms digits_recombine [OF assms(1)] by simp
qed

section \<open>Round trip, length and alphabet\<close>

text \<open>
  C10. The base64 text of a frame loses nothing: decoding it (as the browser does for
  the \<open>data:\<close> URI of the \<open>image\<close> message) gives back exactly the bytes read from
  the file.
\<close>

lemma base64_roundtrip: "base64_decode (base64_encode bs) = Some bs"
proof (induction bs rule: base64_encode.induct)
  case (1 a b c rest)
  define n where "n = unat a * 65536 + unat b * 256 + unat c"
  have n: "n < 16777216" "n div 65536 = unat a" "n div 256 mod 256 = unat b" "n mod 256 = unat c"
    unfolding n_def by (rule byte_group3)+
  have enc: "base64_encode (a # b # c # rest) = [b64_char (n div 262144), b64_char (n div 4096 mod 64),
      b64_char (n div 64 mod 64), b64_char (n mod 64)] @ base64_encode rest"
    by (simp add: n_def Let_def)
  show ?case unfolding enc decode_group3 [OF n(1)] using 1 n by simp
next
  case (2 a b)
  define n where "n = unat a * 65536 + unat b * 256"
  have n: "n < 16777216" "n div 65536 = unat a" "n div 256 mod 256 = unat b"
    using byte_group3 [of a b 0] by (simp_all add: n_def)
  have enc: "base64_encode [a, b] = [b64_char (n div 262144), b64_char (n div 4096 mod 64),
      b64_char (n div 64 mod 64), CHR ''='']"
    by (simp add: n_def Let_def)
  have m: "n mod 64 = 0" by (simp add: n_def)
  show ?case unfolding enc decode_group2 [OF n(1) m] using n by simp
next
  case (3 a)
  define n where "n = unat a * 65536"
  have n: "n < 16777216" "n div 65536 = unat a"
    using byte_group3 [of a 0 0] by (simp_all add: n_def)
  have enc: "base64_encode [a] = [b64_char (n div 262144), b64_char (n div 4096 mod 64), CHR ''='', CHR ''='']"
    by (simp add: n_def Let_def)
  have m: "n mod 4096 = 0" by (simp add: n_def)
  show ?case unfolding enc decode_group1 [OF n(1) m] using n by simp
qed simp

text \<open>
  C11. The base64 text of \<open>n\<close> bytes has exactly \<open>4 * ceil(n / 3)\<close> characters: every
  started group of three bytes becomes four characters, padding included.
\<close>

lemma base64_length: "length (base64_encode bs) = 4 * ((length bs + 2) div 3)"
proof (induction bs rule: base64_encode.induct)
  case (1 a b c rest)
  have "(length rest + 5) div 3 = Suc ((length rest + 2) div 3)" by presburger
  with 1 show ?case by (simp add: Let_def ac_simps)
qed (simp_all add: Let_def)

lemma b64_char_mem: "n < 64 \<Longrightarrow> b64_char n \<in> set b64_alphabet"
  by (simp add: b64_char_def)

text \<open>The shape of the text over the encoder's table: digits, then the padding.\<close>

lemma base64_chars_table:
  "\<exists>body pad. base64_encode bs = body @ pad \<and> set body \<subseteq> set b64_alphabet
     \<and> pad = replicate ((3 - length bs mod 3) mod 3) CHR ''=''"
proof (induction bs rule: base64_encode.induct)
  case (1 a b c rest)
  then obtain body pad where r: "base64_encode rest = body @ pad" "set body \<subseteq> set b64_alphabet"
    and p: "pad = replicate ((3 - length rest mod 3) mod 3) CHR ''=''" by blast
  let ?n = "unat a * 65536 + unat b * 256 + unat c"
  let ?d = "[b64_char (?n div 262144), b64_char (?n div 4096 mod 64), b64_char (?n div 64 mod 64),
             b64_char (?n mod 64)]"
  have e: "base64_encode (a # b # c # rest) = (?d @ body) @ pad" using r(1) by (simp add: Let_def)
  have d: "set (?d @ body) \<subseteq> set b64_alphabet"
    using byte_group3(1) [of a b c] r(2) by (simp add: b64_char_mem)
  have "pad = replicate ((3 - length (a # b # c # rest) mod 3) mod 3) CHR ''=''" using p by simp
  with e d show ?case by blast
next
  case (2 a b)
  have e: "base64_encode [a, b] = butlast (base64_encode [a, b]) @ ''=''" by (simp add: Let_def)
  have d: "set (butlast (base64_encode [a, b])) \<subseteq> set b64_alphabet"
    using byte_group3(1) [of a b 0] by (simp add: Let_def b64_char_mem)
  have "''='' = replicate ((3 - length [a, b] mod 3) mod 3) CHR ''=''" by simp
  with e d show ?case by blast
next
  case (3 a)
  have "unat a div 4 < 64" using unat_byte_less [of a] by (simp add: div_less_iff_less_mult)
  then have d: "set (take 2 (base64_encode [a])) \<subseteq> set b64_alphabet" by (simp add: Let_def b64_char_mem)
  have e: "base64_encode [a] = take 2 (base64_encode [a]) @ ''==''" by (simp add: Let_def)
  have "''=='' = replicate ((3 - length [a] mod 3) mod 3) CHR ''=''" by (simp add: numeral_2_eq_2)
  with e d show ?case by blast
qed simp

text \<open>
  C12. The base64 text is made of digits of the RFC 4648 alphabet, written out here
  independently of the encoder's table, followed by the padding: as many \<open>=\<close> as the
  last group lacks bytes, and \<open>=\<close> nowhere else. So the text is standard base64, not the
  URL-safe variant, and can be embedded in a \<open>data:\<close> URI unescaped.
\<close>

lemma base64_chars:
  "\<exists>body pad. base64_encode bs = body @ pad
     \<and> set body \<subseteq> set ''ABCDEFGHIJKLMNOPQRSTUVWXYZabcdefghijklmnopqrstuvwxyz0123456789+/''
     \<and> pad = replicate ((3 - length bs mod 3) mod 3) CHR ''=''"
  using base64_chars_table [of bs] by (simp only: b64_alphabet_def)

end
