(* ===== verification/Camera.thy ===== *)
theory Camera
  imports Notify Base64
begin

text \<open>
  The camera module of \<open>src/raspi/camera.js\<close>. The raspistill timelapse process writes
  numbered JPEG files into the output directory and reports each with a \<open>read\<close>
  event. The module's \<open>read\<close> listener reads the file; if the read succeeds it
  encodes the bytes as base64 (\<open>Buffer.from(data).toString("base64")\<close>, modelled in
  \<^theory_text>\<open>Base64\<close>), emits
  \<open>frameLoaded\<close> and then unlinks the file; if the read fails it does nothing.

  The disk is the map \<open>files\<close> of the process state; a read fails when the file is
  missing or when the environment reports an I/O error (the flag \<open>read_error\<close>).
  \<open>path.join\<close> is modelled as joining with one separator, without its
  normalisation of \<open>..\<close> and repeated separators.
\<close>

section \<open>The read listener\<close>

definition join_path :: "string \<Rightarrow> string \<Rightarrow> string" where
  "join_path dir f = dir @ ''/'' @ f"

definition unlink :: "string \<Rightarrow> world \<Rightarrow> world" where
  "unlink p w = w\<lparr>files := (files w)(p := None)\<rparr>"

definition startTimelapse :: "world \<Rightarrow> world" where
  "startTimelapse w = w\<lparr>timelapse := True\<rparr>"

definition stopTimelapse :: "world \<Rightarrow> world" where
  "stopTimelapse w = w\<lparr>timelapse := False\<rparr>"

text \<open>The other events of the raspicam object, \<open>start\<close>, \<open>exit\<close> and \<open>stop\<close>: their
  listeners only log.\<close>

datatype camera_event = CamStart | CamExit | CamStop

definition camera_on_start :: "world \<Rightarrow> world" where
  "camera_on_start w = w"

definition camera_on_exit :: "world \<Rightarrow> world" where
  "camera_on_exit w = w"

definition camera_on_stop :: "world \<Rightarrow> world" where
  "camera_on_stop w = w"

definition camera_on_read :: "string \<Rightarrow> bool \<Rightarrow> world \<Rightarrow> js_error + world" where
  "camera_on_read filename read_error w =
     (let filePath = join_path (cfg_output_dir (cfg w)) filename
      in if read_error then Inr w
         else (case files w filePath of
                 None \<Rightarrow> Inr w
               | Some data \<Rightarrow>
                   (let base64data = base64_encode data
                    in case emit_relay FrameLoaded
                              \<lparr>message = ''New frame received'', status = ''success'',
                               cameraImage = Some base64data\<rparr> w of
                         Inl e \<Rightarrow> Inl e
                       | Inr w' \<Rightarrow> Inr (unlink filePath w'))))"

section \<open>The camera object\<close>

text \<open>The options of \<open>new RaspiCam(...)\<close>: raspistill in timelapse mode, without
  preview and without a time limit, writing numbered JPEG files into the output
  directory at the configured interval. raspistill replaces \<open>%06d\<close> by the frame
  number; the read listener joins the reported file name to the same directory.\<close>

record raspicam_options =
  cam_encoding :: string
  cam_mode :: string
  cam_nopreview :: bool
  cam_output :: string
  cam_timelapse :: nat
  cam_timeout :: nat

definition camera_options :: "config \<Rightarrow> raspicam_options" where
  "camera_options c =
     \<lparr>cam_encoding = ''jpg'', cam_mode = ''timelapse'', cam_nopreview = True,
      cam_output = join_path (cfg_output_dir c) ''image_%06d.jpg'',
      cam_timelapse = cfg_timelapse_interval c, cam_timeout = 0\<rparr>"

section \<open>Characteristic equations\<close>

lemma camera_on_read_ok:
  assumes "files w (join_path (cfg_output_dir (cfg w)) f) = Some data"
  shows "camera_on_read f False w =
    Inr (w\<lparr>emitted := emitted w @ [Relay FrameLoaded],
           sockets := deliver (concat (replicate (count_list (listeners w) (Relay FrameLoaded))
              [WImage (now w) (Some (base64_encode data)) ''New frame received'' ''success'',
               info_wire w])) (sockets w),
           files := (files w)(join_path (cfg_output_dir (cfg w)) f := None)\<rparr>)"
  using assms by (simp add: camera_on_read_def emit_relay_eq unlink_def)

lemma camera_on_read_error: "camera_on_read f True w = Inr w"
  by (simp add: camera_on_read_def)

lemma camera_on_read_missing:
  "files w (join_path (cfg_output_dir (cfg w)) f) = None \<Longrightarrow> camera_on_read f b w = Inr w"
  by (simp add: camera_on_read_def Let_def)

lemma camera_on_read_cases:
  assumes "camera_on_read f b w = res"
  obtains (noop) "res = Inr w"
  | (frame) data where "\<not> b" "files w (join_path (cfg_output_dir (cfg w)) f) = Some data"
      "res = Inr (w\<lparr>emitted := emitted w @ [Relay FrameLoaded],
           sockets := deliver (concat (replicate (count_list (listeners w) (Relay FrameLoaded))
              [WImage (now w) (Some (base64_encode data)) ''New frame received'' ''success'',
               info_wire w])) (sockets w),
           files := (files w)(join_path (cfg_output_dir (cfg w)) f := None)\<rparr>)"
proof (cases b)
  case True
  with assms show ?thesis by (simp add: camera_on_read_error noop)
next
  case False
  show ?thesis
  proof (cases "files w (join_path (cfg_output_dir (cfg w)) f)")
    case None
    with assms show ?thesis by (simp add: camera_on_read_missing noop)
  next
    case (Some data)
    with False assms show ?thesis by (simp add: camera_on_read_ok frame)
  qed
qed

lemma camera_on_read_frame [frame_simps]:
  assumes "camera_on_read f b w = Inr w'"
  shows "cfg w' = cfg w" "now w' = now w" "next_id w' = next_id w" "timers w' = timers w"
    "servo w' = servo w" "feeder_timer w' = feeder_timer w" "recording w' = recording w"
    "speech_timer w' = speech_timer w" "mics w' = mics w" "streams w' = streams w"
    "listeners w' = listeners w" "timelapse w' = timelapse w"
    "map fst (sockets w') = map fst (sockets w)"
  using assms by (cases rule: camera_on_read_cases; simp)+

lemma camera_on_read_Inr: "\<exists>w'. camera_on_read f b w = Inr w'"
  by (cases rule: camera_on_read_cases [OF refl]) auto


lemma camera_events_log_only [simp]:
  "(case e of CamStart \<Rightarrow> camera_on_start w | CamExit \<Rightarrow> camera_on_exit w' | CamStop \<Rightarrow> camera_on_stop w)
     = (if e = CamExit then w' else w)"
  by (cases e) (simp_all add: camera_on_start_def camera_on_exit_def camera_on_stop_def)

end
