(* ===== verification/Facade.thy ===== *)
theory Facade
  imports Gpio Speech Camera
begin

text \<open>
  The interfaces between the modules. Each module of \<open>src/raspi\<close> is a factory that
  takes the shared emitter and returns an object of operations: \<open>gpio.js\<close> returns
  \<open>isFeeding\<close> and \<open>startFeeder\<close>, \<open>speech.js\<close> returns \<open>isRecording\<close> and
  \<open>startSpeechRecording\<close>, \<open>camera.js\<close> returns \<open>startTimelapse\<close> and
  \<open>stopTimelapse\<close>. The factory of \<open>src/raspi/index.js\<close> starts the timelapse and
  returns the facade \<open>raspi\<close> that \<open>src/io.js\<close> calls. The objects are records of
  the operations of the component theories; \<open>stopFeeder\<close> and
  \<open>stopSpeechRecording\<close> are not exported, so only the modules' own timers reach them.
  The emitter, also a field of the facade, is the \<open>listeners\<close> part of the state.
\<close>

section \<open>The module objects\<close>

record gpio_module =
  gm_isFeeding :: "world \<Rightarrow> bool"
  gm_startFeeder :: "world \<Rightarrow> js_error + world"

definition gpio :: gpio_module where
  "gpio = \<lparr>gm_isFeeding = isFeeding, gm_startFeeder = startFeeder\<rparr>"

record speech_module =
  sm_isRecording :: "world \<Rightarrow> bool"
  sm_startSpeechRecording :: "world \<Rightarrow> js_error + world"

definition speech :: speech_module where
  "speech = \<lparr>sm_isRecording = isRecording, sm_startSpeechRecording = startSpeechRecording\<rparr>"

record camera_module =
  cm_startTimelapse :: "world \<Rightarrow> world"
  cm_stopTimelapse :: "world \<Rightarrow> world"

definition camera :: camera_module where
  "camera = \<lparr>cm_startTimelapse = startTimelapse, cm_stopTimelapse = stopTimelapse\<rparr>"

section \<open>The facade\<close>

record raspi_facade =
  fc_isFeeding :: "world \<Rightarrow> bool"
  fc_isRecording :: "world \<Rightarrow> bool"
  fc_startFeeder :: "world \<Rightarrow> js_error + world"
  fc_startSpeechRecording :: "world \<Rightarrow> js_error + world"

definition raspi :: raspi_facade where
  "raspi = \<lparr>fc_isFeeding = gm_isFeeding gpio, fc_isRecording = sm_isRecording speech,
     fc_startFeeder = gm_startFeeder gpio, fc_startSpeechRecording = sm_startSpeechRecording speech\<rparr>"

section \<open>What the facade delegates to\<close>

lemma raspi_ops [simp]:
  "fc_isFeeding raspi = isFeeding" "fc_isRecording raspi = isRecording"
  "fc_startFeeder raspi = startFeeder" "fc_startSpeechRecording raspi = startSpeechRecording"
  by (simp_all add: raspi_def gpio_def speech_def)

lemma camera_ops [simp]:
  "cm_startTimelapse camera = startTimelapse" "cm_stopTimelapse camera = stopTimelapse"
  by (simp_all add: camera_def)

end
