(* ===== verification/Gateway.thy ===== *)
theory Gateway
  imports Facade
begin

text \<open>
  The connection side of \<open>src/io.js\<close>. On every new Socket.IO connection
  \<open>onSocketConnected\<close> broadcasts a snapshot, installs the socket's command handlers
  (\<open>startFeeding\<close>, \<open>startSpeechRecording\<close>) and registers six listeners on the
  shared emitter: the five relays of \<^theory_text>\<open>Notify\<close> and the
  \<open>speechRecordingRecognized\<close> listener, which calls \<open>raspi.startFeeder()\<close>. The emitter
  listeners are never removed, also not when the socket disconnects; the command
  handlers live as long as the socket.

  \<open>emit_recognized\<close> is \<open>emitter.emit("speechRecordingRecognized", ...)\<close> as
  \<open>src/raspi/speech.js\<close> calls it: it runs \<open>startFeeder\<close> once per registered
  listener, and an exception of \<open>startFeeder\<close> leaves the emit.
\<close>

section \<open>Connections\<close>

definition io_listeners :: "raspi_event list" where
  "io_listeners =
     [Relay FeedingStarted, Relay FeedingStopped, Relay FrameLoaded,
      Relay SpeechRecordingStarted, Relay SpeechRecordingStopped, SpeechRecordingRecognized]"

definition onSocketConnected :: "world \<Rightarrow> world" where
  "onSocketConnected w =
     (let s = next_id w;
          w1 = w\<lparr>sockets := sockets w @ [(s, [])], next_id := Suc s\<rparr>;
          w2 = updateInfo w1
      in w2\<lparr>listeners := listeners w2 @ io_listeners\<rparr>)"

definition onSocketDisconnected :: "sid \<Rightarrow> world \<Rightarrow> world" where
  "onSocketDisconnected s w = w\<lparr>sockets := filter (\<lambda>(s', _). s' \<noteq> s) (sockets w)\<rparr>"

definition connected :: "sid \<Rightarrow> world \<Rightarrow> bool" where
  "connected s w \<longleftrightarrow> s \<in> set (map fst (sockets w))"

section \<open>Inbound commands\<close>

definition onStartFeeding :: "sid \<Rightarrow> world \<Rightarrow> js_error + world" where
  "onStartFeeding s w = (if connected s w then fc_startFeeder raspi w else Inr w)"

definition onStartSpeechRecording :: "sid \<Rightarrow> world \<Rightarrow> js_error + world" where
  "onStartSpeechRecording s w = (if connected s w then fc_startSpeechRecording raspi w else Inr w)"

section \<open>The hotword listener\<close>

definition emit_recognized :: "world \<Rightarrow> js_error + world" where
  "emit_recognized w =
     (let w' = w\<lparr>emitted := emitted w @ [SpeechRecordingRecognized]\<rparr>
      in ee_emit (\<lambda>_ s. fc_startFeeder raspi s) (listeners w') SpeechRecordingRecognized w')"

section \<open>Lemmas\<close>

lemma onSocketConnected_eq:
  "onSocketConnected w =
     w\<lparr>sockets := deliver [WInfo (now w) (\<not> isFeeding w) (\<not> isRecording w)] (sockets w @ [(next_id w, [])]),
       next_id := Suc (next_id w), listeners := listeners w @ io_listeners\<rparr>"
  by (simp add: onSocketConnected_def updateInfo_def io_emit_def isFeeding_def isRecording_def Let_def)

lemma count_io_listeners [simp]:
  "count_list io_listeners (Relay e) = 1"
  "count_list io_listeners SpeechRecordingRecognized = 1"
  by (cases e; simp add: io_listeners_def)+

text \<open>A run of \<open>startFeeder\<close> from a feeding state changes nothing, so every listener
  after the first is a no-op.\<close>

lemma startFeeder_funpow_feeding:
  "isFeeding w \<Longrightarrow> ee_emit (\<lambda>_ s. startFeeder s) ls n w = Inr w"
  by (induction ls) (simp_all add: startFeeder_while_feeding)

lemma startFeeder_makes_feeding:
  assumes "startFeeder w = Inr w'"
  shows "isFeeding w'"
  using assms by (cases rule: startFeeder_cases) (simp_all add: isFeeding_def)

lemma ee_emit_startFeeder_once:
  assumes "n \<in> set ls" and "startFeeder w = Inr w'"
  shows "ee_emit (\<lambda>_ s. startFeeder s) ls n w = Inr w'"
  using assms
proof (induction ls arbitrary: w)
  case Nil
  then show ?case by simp
next
  case (Cons l ls)
  show ?case
  proof (cases "l = n")
    case True
    with Cons.prems have "isFeeding w'" by (simp add: startFeeder_makes_feeding)
    with True Cons.prems show ?thesis by (simp add: startFeeder_funpow_feeding)
  next
    case False
    with Cons show ?thesis by simp
  qed
qed

text \<open>So a recognised hotword starts the feeder exactly once, however many listeners
  are registered, and does nothing at all when no client has ever connected.\<close>

lemma emit_recognized_eq:
  "emit_recognized w =
     (if SpeechRecordingRecognized \<in> set (listeners w)
      then startFeeder (w\<lparr>emitted := emitted w @ [SpeechRecordingRecognized]\<rparr>)
      else Inr (w\<lparr>emitted := emitted w @ [SpeechRecordingRecognized]\<rparr>))"
proof (cases "SpeechRecordingRecognized \<in> set (listeners w)")
  case True
  let ?w = "w\<lparr>emitted := emitted w @ [SpeechRecordingRecognized]\<rparr>"
  show ?thesis
  proof (cases "startFeeder ?w")
    case (Inl e)
    with True show ?thesis by (simp add: emit_recognized_def ee_emit_first_throws)
  next
    case (Inr w')
    with True show ?thesis by (simp add: emit_recognized_def ee_emit_startFeeder_once)
  qed
next
  case False
  then show ?thesis by (simp add: emit_recognized_def ee_emit_no_listener)
qed

lemma speech_on_data_Inr:
  assumes "speech_on_data emit_recognized d w = Inr w'"
  shows "w' = w \<or> w' = w\<lparr>emitted := emitted w @ [SpeechRecordingRecognized]\<rparr>
    \<or> startFeeder (w\<lparr>emitted := emitted w @ [SpeechRecordingRecognized]\<rparr>) = Inr w'"
  using assms by (cases rule: speech_on_data_cases) (auto simp: emit_recognized_eq split: if_splits)

lemma speech_on_data_Inl:
  assumes "speech_on_data emit_recognized d w = Inl e"
  shows "startFeeder (w\<lparr>emitted := emitted w @ [SpeechRecordingRecognized]\<rparr>) = Inl e"
  using assms by (cases rule: speech_on_data_cases) (auto simp: emit_recognized_eq split: if_splits)

end
