(* ===== verification/System.thy ===== *)
theory System
  imports Gateway
begin

text \<open>
  The whole process as a deterministic machine driven by the events its environment
  delivers: the board becoming ready, browsers connecting, disconnecting and sending
  commands, time passing, the recognize streams delivering results, raspistill writing
  and reporting frames. Each event is handled to completion before the next, as on
  Node's single thread; \<open>sys_step\<close> is the handler, \<open>Inl\<close> an exception that escapes
  it (which ends the process).

  johnny-five emits the board's \<open>ready\<close> event once; \<open>BoardReady\<close> after that is
  not an event of the board and changes nothing.

  Time passing is \<open>Advance d\<close>: the event loop runs, in due order, every timer that
  falls due within the next \<open>d\<close> milliseconds, then the clock stands at the end of the
  interval. The loop \<open>fire_due\<close> terminates because each round removes the fired timer
  and neither callback creates a timer.
\<close>

section \<open>Timer callbacks and the event loop\<close>

fun run_callback :: "timer_cb \<Rightarrow> world \<Rightarrow> js_error + world" where
  "run_callback StopFeederCb w = stopFeeder w"
| "run_callback StopSpeechCb w = stopSpeechRecording w"

definition fire_one :: "js_timer \<Rightarrow> world \<Rightarrow> world" where
  "fire_one x w = w\<lparr>now := max (now w) (t_due x), timers := filter (\<lambda>y. t_id y \<noteq> t_id x) (timers w)\<rparr>"

function fire_due :: "nat \<Rightarrow> world \<Rightarrow> js_error + world" where
  "fire_due target w =
     (case due_timer target (timers w) of
        None \<Rightarrow> Inr (w\<lparr>now := max (now w) target\<rparr>)
      | Some x \<Rightarrow>
          (case run_callback (t_cb x) (fire_one x w) of
             Inl e \<Rightarrow> Inl e
           | Inr w' \<Rightarrow> fire_due target w'))"
  by pat_completeness auto
termination
proof (relation "measure (\<lambda>(target, w). length (timers w))")
  fix target w x w'
  assume due: "due_timer target (timers w) = Some x"
    and cb: "run_callback (t_cb x) (fire_one x w) = Inr w'"
  have "length (timers w') \<le> length (timers (fire_one x w))"
    using cb by (cases "t_cb x") (simp_all add: stopFeeder_timers_length stopSpeechRecording_timers_length)
  also have "\<dots> < length (timers w)"
    using due_timer_Some(1) [OF due] by (simp add: fire_one_def length_filter_neq_less)
  finally show "((target, w'), target, w) \<in> measure (\<lambda>(target, w). length (timers w))" by simp
qed simp

declare fire_due.simps [simp del]

section \<open>Start-up\<close>

text \<open>Loading \<open>src/io.js\<close> calls the factory of \<open>src/raspi/index.js\<close> once, which builds
  the emitter and the three modules and starts the timelapse.\<close>

definition init_world :: "config \<Rightarrow> world" where
  "init_world c = cm_startTimelapse camera
     \<lparr>cfg = c, now = 0, next_id = 0, timers = [], servo = None, feeder_timer = None,
      recording = None, speech_timer = None, mics = [], streams = [], listeners = [],
      sockets = [], emitted = [], files = Map.empty, timelapse = False\<rparr>"

section \<open>The step function\<close>

datatype input =
    BoardReady
  | Connect
  | Disconnect sid
  | CmdStartFeeding sid
  | CmdStartSpeechRecording sid
  | Advance nat
  | SpeechData rid speech_data
  | SpeechError rid
  | MicError rid
  | StreamEnd rid
  | FrameWritten string "byte list"
  | CameraRead string bool
  | CameraEvent camera_event

fun sys_step :: "world \<Rightarrow> input \<Rightarrow> js_error + world" where
  "sys_step w BoardReady = Inr (if servo w = None then boardReady w else w)"
| "sys_step w Connect = Inr (onSocketConnected w)"
| "sys_step w (Disconnect s) = Inr (onSocketDisconnected s w)"
| "sys_step w (CmdStartFeeding s) = onStartFeeding s w"
| "sys_step w (CmdStartSpeechRecording s) = onStartSpeechRecording s w"
| "sys_step w (Advance d) = fire_due (now w + d) w"
| "sys_step w (SpeechData r d) =
     (if r \<in> set (streams w) then speech_on_data emit_recognized d w else Inr w)"
| "sys_step w (SpeechError r) = Inr (speech_stream_error r w)"
| "sys_step w (MicError r) = Inr (mic_stream_error r w)"
| "sys_step w (StreamEnd r) = Inr (w\<lparr>streams := removeAll r (streams w)\<rparr>)"
| "sys_step w (FrameWritten p bs) = Inr (w\<lparr>files := (files w)(p \<mapsto> bs)\<rparr>)"
| "sys_step w (CameraRead f err) = camera_on_read f err w"
| "sys_step w (CameraEvent e) =
     Inr (case e of CamStart \<Rightarrow> camera_on_start w
                  | CamExit \<Rightarrow> camera_on_exit (w\<lparr>timelapse := False\<rparr>)
                  | CamStop \<Rightarrow> camera_on_stop w)"

fun run :: "world \<Rightarrow> input list \<Rightarrow> js_error + world" where
  "run w [] = Inr w"
| "run w (i # ins) = (case sys_step w i of Inl e \<Rightarrow> Inl e | Inr w' \<Rightarrow> run w' ins)"

inductive reachable :: "world \<Rightarrow> bool" where
  init: "reachable (init_world c)"
| step: "reachable w \<Longrightarrow> sys_step w i = Inr w' \<Longrightarrow> reachable w'"

text \<open>The definitions a concrete run unfolds to, for evaluation by the simplifier.\<close>

lemmas eval_simps = init_world_def startTimelapse_def boardReady_def onSocketConnected_eq
  onSocketDisconnected_def onStartFeeding_def onStartSpeechRecording_def connected_def
  startFeeder_def stopFeeder_def startSpeechRecording_def stopSpeechRecording_def
  setTimeout_def clearTimeout_def emit_relay_eq info_wire_def isFeeding_def isRecording_def
  timer_delay_def fire_due.simps due_timer_def fire_one_def speech_on_data_def
  emit_recognized_eq camera_on_read_def unlink_def join_path_def

lemma run_reachable: "reachable w \<Longrightarrow> run w ins = Inr w' \<Longrightarrow> reachable w'"
  by (induction ins arbitrary: w) (auto split: sum.splits intro: reachable.step)

end
