(* ===== verification/FeederSpec.thy ===== *)
theory FeederSpec
  imports System
begin

text \<open>
  The feeder as the spec describes it (section 4.2 of the design): a two-state machine
  \<open>Idle \<rightarrow> Feeding \<rightarrow> Idle\<close> whose start publishes \<open>FeedingStarted\<close> and whose
  deadline expiry publishes \<open>FeedingStopped\<close>; a start while \<open>Feeding\<close> is a no-op.
  \<open>feeder_abs\<close> reads this abstract state off the process state of the model: the mode
  is \<open>isFeeding\<close> of \<open>src/raspi/gpio.js\<close> (the \<open>timer\<close> variable is set) and the
  log is the subsequence of feeder events in the history of \<open>emitter.emit\<close>.

  The simulation lemmas show that every event the process handles is either invisible
  to the abstraction or one abstract step; the event loop \<open>fire_due\<close>, which may run
  several callbacks, performs at most one (an expiry), because after an expiry the
  feeder is idle and no callback starts it.
\<close>

section \<open>The abstract machine\<close>

datatype feeder_mode = Idle | Feeding

definition feed_log :: "world \<Rightarrow> raspi_event list" where
  "feed_log w = filter (\<lambda>e. e = Relay FeedingStarted \<or> e = Relay FeedingStopped) (emitted w)"

definition feeder_abs :: "world \<Rightarrow> feeder_mode \<times> raspi_event list" where
  "feeder_abs w = (if isFeeding w then Feeding else Idle, feed_log w)"

inductive feeder_astep :: "feeder_mode \<times> raspi_event list \<Rightarrow> feeder_mode \<times> raspi_event list \<Rightarrow> bool" where
  start: "feeder_astep (Idle, log) (Feeding, log @ [Relay FeedingStarted])"
| expire: "feeder_astep (Feeding, log) (Idle, log @ [Relay FeedingStopped])"

code_pred feeder_astep .

inductive_cases feeder_astepE: "feeder_astep s s'"

section \<open>Simulation, operation by operation\<close>

lemma startFeeder_abs:
  assumes "startFeeder w = Inr w'"
  shows "feeder_abs w' = feeder_abs w \<or> feeder_astep (feeder_abs w) (feeder_abs w')"
  using assms
proof (cases rule: startFeeder_cases)
  case (start x)
  then show ?thesis by (simp add: feeder_abs_def feed_log_def isFeeding_def feeder_astep.start)
qed simp

lemma stopFeeder_abs:
  assumes "stopFeeder w = Inr w'"
  shows "feeder_abs w' = feeder_abs w \<or> feeder_astep (feeder_abs w) (feeder_abs w') \<and> \<not> isFeeding w'"
  using assms
proof (cases rule: stopFeeder_cases)
  case (stop t x)
  then show ?thesis by (simp add: feeder_abs_def feed_log_def isFeeding_def feeder_astep.expire)
qed simp

lemma stopSpeechRecording_abs:
  assumes "stopSpeechRecording w = Inr w'"
  shows "feeder_abs w' = feeder_abs w"
  using assms
  by (cases rule: stopSpeechRecording_cases) (simp_all add: feeder_abs_def feed_log_def isFeeding_def)

lemma run_callback_abs:
  assumes "run_callback cb w = Inr w'"
  shows "feeder_abs w' = feeder_abs w \<or> feeder_astep (feeder_abs w) (feeder_abs w') \<and> \<not> isFeeding w'"
  using assms by (cases cb) (auto dest: stopFeeder_abs stopSpeechRecording_abs)

lemma run_callback_idle:
  assumes "run_callback cb w = Inr w'" and "\<not> isFeeding w"
  shows "feeder_abs w' = feeder_abs w"
  using run_callback_abs [OF assms(1)] assms(2)
  by (auto simp: feeder_abs_def elim: feeder_astepE)

lemma fire_one_abs [simp]: "feeder_abs (fire_one x w) = feeder_abs w"
  by (simp add: feeder_abs_def feed_log_def isFeeding_def fire_one_def)

lemma fire_due_idle:
  "fire_due target w = Inr w' \<Longrightarrow> \<not> isFeeding w \<Longrightarrow> feeder_abs w' = feeder_abs w"
proof (induction target w rule: fire_due.induct)
  case (1 target w)
  show ?case
  proof (cases "due_timer target (timers w)")
    case None
    with "1.prems" show ?thesis
      by (auto simp: fire_due.simps [of target w] feeder_abs_def feed_log_def isFeeding_def)
  next
    case (Some x)
    with "1.prems" obtain w1 where cb: "run_callback (t_cb x) (fire_one x w) = Inr w1"
      and rest: "fire_due target w1 = Inr w'"
      by (auto simp: fire_due.simps [of target w] split: sum.splits)
    have "\<not> isFeeding (fire_one x w)" using "1.prems"(2) by (simp add: fire_one_def isFeeding_def)
    then have eq: "feeder_abs w1 = feeder_abs w" using run_callback_idle [OF cb] by simp
    then have "\<not> isFeeding w1" using "1.prems"(2) by (simp add: feeder_abs_def split: if_splits)
    with "1.IH" [OF Some cb rest] eq show ?thesis by simp
  qed
qed

lemma fire_due_abs:
  "fire_due target w = Inr w' \<Longrightarrow> feeder_abs w' = feeder_abs w \<or> feeder_astep (feeder_abs w) (feeder_abs w')"
proof (induction target w rule: fire_due.induct)
  case (1 target w)
  show ?case
  proof (cases "due_timer target (timers w)")
    case None
    with "1.prems" show ?thesis
      by (auto simp: fire_due.simps [of target w] feeder_abs_def feed_log_def isFeeding_def)
  next
    case (Some x)
    with "1.prems" obtain w1 where cb: "run_callback (t_cb x) (fire_one x w) = Inr w1"
      and rest: "fire_due target w1 = Inr w'"
      by (auto simp: fire_due.simps [of target w] split: sum.splits)
    from run_callback_abs [OF cb] show ?thesis
    proof
      assume "feeder_abs w1 = feeder_abs (fire_one x w)"
      with "1.IH" [OF Some cb rest] show ?thesis by simp
    next
      assume "feeder_astep (feeder_abs (fire_one x w)) (feeder_abs w1) \<and> \<not> isFeeding w1"
      with fire_due_idle [OF rest] show ?thesis by simp
    qed
  qed
qed

section \<open>Simulation of a whole step\<close>

lemma feed_log_other [simp]:
  "e \<noteq> Relay FeedingStarted \<Longrightarrow> e \<noteq> Relay FeedingStopped \<Longrightarrow>
   feed_log (w\<lparr>emitted := emitted w @ [e]\<rparr>) = feed_log w"
  by (simp add: feed_log_def)

lemma feeder_abs_emit_other [simp]:
  "e \<noteq> Relay FeedingStarted \<Longrightarrow> e \<noteq> Relay FeedingStopped \<Longrightarrow>
   feeder_abs (w\<lparr>emitted := emitted w @ [e]\<rparr>) = feeder_abs w"
  by (simp add: feeder_abs_def isFeeding_def)

lemma sys_step_feeder_sim:
  assumes "sys_step w i = Inr w'"
  shows "feeder_abs w' = feeder_abs w \<or> feeder_astep (feeder_abs w) (feeder_abs w')"
proof (cases i)
  case (Advance d)
  with assms show ?thesis by (simp add: fire_due_abs)
next
  case (CmdStartFeeding s)
  with assms show ?thesis by (auto simp: onStartFeeding_def split: if_splits dest: startFeeder_abs)
next
  case (CmdStartSpeechRecording s)
  with assms show ?thesis
    by (auto simp: onStartSpeechRecording_def startSpeechRecording_eq feeder_abs_def feed_log_def
        isFeeding_def split: if_splits)
next
  case (SpeechData r d)
  with assms show ?thesis
    by (auto split: if_splits dest!: speech_on_data_Inr dest: startFeeder_abs)
next
  case (CameraRead f b)
  with assms show ?thesis
    by (auto elim!: camera_on_read_cases simp: feeder_abs_def feed_log_def isFeeding_def)
qed (use assms in \<open>auto simp: onSocketConnected_eq onSocketDisconnected_def boardReady_def
      feeder_abs_def feed_log_def isFeeding_def split: if_splits\<close>)

section \<open>Abstract reachability and the shape of the feeder log\<close>

lemma init_feeder_abs [simp]: "feeder_abs (init_world c) = (Idle, [])"
  by (simp add: feeder_abs_def feed_log_def isFeeding_def init_world_def startTimelapse_def)

lemma reachable_feeder_areach: "reachable w \<Longrightarrow> feeder_astep\<^sup>*\<^sup>* (Idle, []) (feeder_abs w)"
proof (induction rule: reachable.induct)
  case (step w i w')
  from sys_step_feeder_sim [OF step.hyps(2)] step.IH show ?case
    by (auto intro: rtranclp.rtrancl_into_rtrancl)
qed simp

lemma feeder_areach_log:
  assumes "feeder_astep\<^sup>*\<^sup>* (Idle, []) s"
  shows "\<exists>n. snd s = concat (replicate n [Relay FeedingStarted, Relay FeedingStopped])
                   @ (if fst s = Feeding then [Relay FeedingStarted] else [])"
  using assms
proof (induction rule: rtranclp_induct)
  case base
  then show ?case by (intro exI [of _ 0]) simp
next
  case (step y z)
  then obtain n where n: "snd y = concat (replicate n [Relay FeedingStarted, Relay FeedingStopped])
      @ (if fst y = Feeding then [Relay FeedingStarted] else [])" by blast
  from step.hyps(2) show ?case
  proof (cases rule: feeder_astep.cases)
    case (start log)
    with n show ?thesis by auto
  next
    case (expire log)
    with n show ?thesis
      by (intro exI [of _ "Suc n"]) (simp del: replicate_Suc flip: concat_replicate_snoc)
  qed
qed

end
