(* ===== verification/SpeechSpec.thy ===== *)
theory SpeechSpec
  imports System
begin

text \<open>
  The recorder as \<open>src/raspi/speech.js\<close> behaves, seen from outside: whether
  \<open>isRecording()\<close> holds and the history of its two events on the emitter.
  \<open>speech_astep\<close> is the machine the code implements. Unlike the spec's machine of
  section 4.3 its start has no guard: a start while recording is a step that emits
  \<open>speechRecordingStarted\<close> again. A stop is a step only while recording, since
  \<open>stopSpeechRecording\<close> checks \<open>isRecording()\<close> and clears the timer. The simulation
  lemmas show that every event the process handles is a sequence of such steps;
  from the machine follows the shape of the event log: a stop event is always
  preceded directly by a start event, so no stop is ever published twice.
\<close>

section \<open>The machine the code implements\<close>

definition speech_log :: "world \<Rightarrow> raspi_event list" where
  "speech_log w =
     filter (\<lambda>e. e = Relay SpeechRecordingStarted \<or> e = Relay SpeechRecordingStopped) (emitted w)"

definition speech_abs :: "world \<Rightarrow> bool \<times> raspi_event list" where
  "speech_abs w = (isRecording w, speech_log w)"

inductive speech_astep :: "bool \<times> raspi_event list \<Rightarrow> bool \<times> raspi_event list \<Rightarrow> bool" where
  start: "speech_astep (r, log) (True, log @ [Relay SpeechRecordingStarted])"
| stop: "speech_astep (True, log) (False, log @ [Relay SpeechRecordingStopped])"

code_pred speech_astep .

text \<open>The shape of the log the machine keeps.\<close>

definition speech_log_ok :: "bool \<times> raspi_event list \<Rightarrow> bool" where
  "speech_log_ok s \<longleftrightarrow>
     successively (\<lambda>a b. b = Relay SpeechRecordingStopped \<longrightarrow> a = Relay SpeechRecordingStarted) (snd s)
     \<and> (snd s \<noteq> [] \<longrightarrow> hd (snd s) = Relay SpeechRecordingStarted)
     \<and> (fst s \<longrightarrow> snd s \<noteq> [] \<and> last (snd s) = Relay SpeechRecordingStarted)"

section \<open>Simulation, operation by operation\<close>

lemma speech_log_other [simp]:
  "e \<noteq> Relay SpeechRecordingStarted \<Longrightarrow> e \<noteq> Relay SpeechRecordingStopped \<Longrightarrow>
   speech_log (w\<lparr>emitted := emitted w @ [e]\<rparr>) = speech_log w"
  by (simp add: speech_log_def)

lemma speech_abs_emit_other [simp]:
  "e \<noteq> Relay SpeechRecordingStarted \<Longrightarrow> e \<noteq> Relay SpeechRecordingStopped \<Longrightarrow>
   speech_abs (w\<lparr>emitted := emitted w @ [e]\<rparr>) = speech_abs w"
  by (simp add: speech_abs_def isRecording_def)

lemma startSpeechRecording_sabs:
  "startSpeechRecording w = Inr w' \<Longrightarrow> speech_astep (speech_abs w) (speech_abs w')"
  by (auto simp: startSpeechRecording_eq speech_abs_def speech_log_def isRecording_def
      intro: speech_astep.start)

lemma stopSpeechRecording_sabs:
  assumes "stopSpeechRecording w = Inr w'"
  shows "speech_abs w' = speech_abs w \<or> speech_astep (speech_abs w) (speech_abs w')"
  using assms
proof (cases rule: stopSpeechRecording_cases)
  case (stop t r)
  then show ?thesis by (simp add: speech_abs_def speech_log_def isRecording_def speech_astep.stop)
qed simp

lemma startFeeder_sabs: "startFeeder w = Inr w' \<Longrightarrow> speech_abs w' = speech_abs w"
  by (erule startFeeder_cases) (simp_all add: speech_abs_def speech_log_def isRecording_def)

lemma stopFeeder_sabs: "stopFeeder w = Inr w' \<Longrightarrow> speech_abs w' = speech_abs w"
  by (erule stopFeeder_cases) (simp_all add: speech_abs_def speech_log_def isRecording_def)

lemma run_callback_sabs:
  "run_callback cb w = Inr w' \<Longrightarrow> speech_astep\<^sup>*\<^sup>* (speech_abs w) (speech_abs w')"
  by (cases cb) (auto dest: stopFeeder_sabs stopSpeechRecording_sabs)

lemma fire_one_sabs [simp]: "speech_abs (fire_one x w) = speech_abs w"
  by (simp add: speech_abs_def speech_log_def isRecording_def fire_one_def)

lemma fire_due_sabs:
  "fire_due target w = Inr w' \<Longrightarrow> speech_astep\<^sup>*\<^sup>* (speech_abs w) (speech_abs w')"
proof (induction target w rule: fire_due.induct)
  case (1 target w)
  show ?case
  proof (cases "due_timer target (timers w)")
    case None
    with "1.prems" show ?thesis
      by (auto simp: fire_due.simps [of target w] speech_abs_def speech_log_def isRecording_def)
  next
    case (Some x)
    with "1.prems" obtain w1 where cb: "run_callback (t_cb x) (fire_one x w) = Inr w1"
      and rest: "fire_due target w1 = Inr w'"
      by (auto simp: fire_due.simps [of target w] split: sum.splits)
    from run_callback_sabs [OF cb] "1.IH" [OF Some cb rest] show ?thesis by simp
  qed
qed

section \<open>Simulation of a whole step\<close>

lemma sys_step_speech_sim:
  assumes "sys_step w i = Inr w'"
  shows "speech_astep\<^sup>*\<^sup>* (speech_abs w) (speech_abs w')"
proof (cases i)
  case (Advance d)
  with assms show ?thesis by (simp add: fire_due_sabs)
next
  case (CmdStartFeeding s)
  with assms show ?thesis by (auto simp: onStartFeeding_def split: if_splits dest: startFeeder_sabs)
next
  case (CmdStartSpeechRecording s)
  with assms show ?thesis
    by (auto simp: onStartSpeechRecording_def split: if_splits dest: startSpeechRecording_sabs)
next
  case (SpeechData r d)
  with assms show ?thesis
    by (auto split: if_splits dest!: speech_on_data_Inr dest: startFeeder_sabs)
next
  case (CameraRead f b)
  with assms show ?thesis
    by (auto elim!: camera_on_read_cases simp: speech_abs_def speech_log_def isRecording_def)
qed (use assms in \<open>auto simp: onSocketConnected_eq onSocketDisconnected_def boardReady_def
      speech_abs_def speech_log_def isRecording_def split: if_splits\<close>)

section \<open>Reachable abstract states\<close>

lemma init_speech_abs [simp]: "speech_abs (init_world c) = (False, [])"
  by (simp add: speech_abs_def speech_log_def isRecording_def init_world_def startTimelapse_def)

lemma reachable_speech_areach: "reachable w \<Longrightarrow> speech_astep\<^sup>*\<^sup>* (False, []) (speech_abs w)"
proof (induction rule: reachable.induct)
  case (step w i w')
  from step.IH sys_step_speech_sim [OF step.hyps(2)] show ?case by simp
qed simp

lemma speech_astep_log_ok: "speech_astep s s' \<Longrightarrow> speech_log_ok s \<Longrightarrow> speech_log_ok s'"
  by (induction rule: speech_astep.induct) (auto simp: speech_log_ok_def successively_append_iff hd_append)

lemma speech_areach_log_ok: "speech_astep\<^sup>*\<^sup>* (False, []) s \<Longrightarrow> speech_log_ok s"
proof (induction rule: rtranclp_induct)
  case base
  show ?case by (simp add: speech_log_ok_def)
next
  case (step y z)
  from step.hyps(2) step.IH show ?case by (rule speech_astep_log_ok)
qed

end
