(* ===== verification/Invariants.thy ===== *)
theory Invariants
  imports System
begin

text \<open>
  The invariant of the process state that every event keeps, and the facts about the
  feeder and the recorder that follow from it. It is split into the agreement of the
  handles with the pending timers (\<open>ids_ok\<close>, \<open>clock_ok\<close>), the feeder's
  agreement between its \<open>timer\<close> variable, its servo and its pending stop timer
  (\<open>feeder_ok\<close>), and the recorder's (\<open>speech_ok\<close>). Between events the loop has
  also run every timer that fell due (\<open>settled\<close>).
\<close>

section \<open>The invariant\<close>

definition ids_ok :: "world \<Rightarrow> bool" where
  "ids_ok w \<longleftrightarrow> distinct (map t_id (timers w)) \<and> (\<forall>x \<in> set (timers w). t_id x < next_id w)
     \<and> (\<forall>r \<in> set (mics w). r < next_id w) \<and> (\<forall>r \<in> set (streams w). r < next_id w)
     \<and> pred_option (\<lambda>r. r < next_id w) (recording w)"

definition clock_ok :: "world \<Rightarrow> bool" where
  "clock_ok w \<longleftrightarrow> (\<forall>x \<in> set (timers w). now w \<le> t_due x)"

definition settled :: "world \<Rightarrow> bool" where
  "settled w \<longleftrightarrow> (\<forall>x \<in> set (timers w). now w < t_due x)"

definition feeder_stops :: "world \<Rightarrow> js_timer list" where
  "feeder_stops w = filter (\<lambda>x. t_cb x = StopFeederCb) (timers w)"

definition feeder_ok :: "world \<Rightarrow> bool" where
  "feeder_ok w \<longleftrightarrow>
     (case feeder_timer w of
        None \<Rightarrow> servo w \<noteq> Some ServoMax \<and> feeder_stops w = []
      | Some t \<Rightarrow> servo w = Some ServoMax \<and> length (feeder_stops w) = 1 \<and>
          list_all (\<lambda>x. t_id x = t \<and> t_due x \<le> now w + timer_delay (cfg_feeder_timer (cfg w)))
            (feeder_stops w))"

definition speech_ok :: "world \<Rightarrow> bool" where
  "speech_ok w \<longleftrightarrow>
     pred_option (\<lambda>t. (\<exists>x \<in> set (timers w). t_id x = t \<and> t_cb x = StopSpeechCb)
         \<and> recording w \<noteq> None \<and> pred_option (\<lambda>r. r \<in> set (mics w)) (recording w))
       (speech_timer w)"

definition core_inv :: "world \<Rightarrow> bool" where
  "core_inv w \<longleftrightarrow> ids_ok w \<and> clock_ok w \<and> feeder_ok w \<and> speech_ok w"

definition world_inv :: "world \<Rightarrow> bool" where
  "world_inv w \<longleftrightarrow> core_inv w \<and> settled w"

text \<open>What running timers leaves alone, or only shrinks.\<close>

definition loop_frame :: "world \<Rightarrow> world \<Rightarrow> bool" where
  "loop_frame w w' \<longleftrightarrow> cfg w' = cfg w \<and> listeners w' = listeners w \<and> next_id w' = next_id w
     \<and> recording w' = recording w \<and> set (mics w') \<subseteq> set (mics w) \<and> streams w' = streams w
     \<and> (servo w' = None \<longleftrightarrow> servo w = None) \<and> map fst (sockets w') = map fst (sockets w)
     \<and> files w' = files w \<and> timelapse w' = timelapse w \<and> now w \<le> now w'
     \<and> set (timers w') \<subseteq> set (timers w)
     \<and> set (mics w) - set_option (recording w) \<subseteq> set (mics w')"

section \<open>Lists of timers\<close>

lemma filter_filter_absorb:
  "(\<And>x. x \<in> set xs \<Longrightarrow> P x \<Longrightarrow> Q x) \<Longrightarrow> filter P (filter Q xs) = filter P xs"
  by (induction xs) auto

lemma filter_singleton_in:
  assumes "filter P xs = [y]" and "x \<in> set xs" and "P x"
  shows "x = y"
proof -
  from assms(2,3) have "x \<in> set (filter P xs)" by simp
  with assms(1) show ?thesis by simp
qed

lemma distinct_ids_eq:
  "distinct (map t_id xs) \<Longrightarrow> x \<in> set xs \<Longrightarrow> y \<in> set xs \<Longrightarrow> t_id x = t_id y \<Longrightarrow> x = y"
  by (metis distinct_map inj_onD)

lemma feeder_ok_Some_entry:
  assumes "feeder_ok w" and "feeder_timer w = Some t"
  obtains y where "feeder_stops w = [y]" "t_id y = t"
    "t_due y \<le> now w + timer_delay (cfg_feeder_timer (cfg w))" "servo w = Some ServoMax"
  using assms by (auto simp: feeder_ok_def length_Suc_conv)

section \<open>Starting a session keeps the invariant\<close>

lemma startFeeder_core_inv:
  assumes inv: "core_inv w" and st: "startFeeder w = Inr w'"
  shows "core_inv w'"
  using st
proof (cases rule: startFeeder_cases)
  case noop
  with inv show ?thesis by simp
next
  case (start x)
  from start(1) have "feeder_timer w = None" by (simp add: isFeeding_def)
  with inv have "feeder_stops w = []"
    by (simp add: core_inv_def feeder_ok_def)
  with inv start(3) \<open>feeder_timer w = None\<close> show ?thesis
    by (auto simp: core_inv_def ids_ok_def clock_ok_def feeder_ok_def speech_ok_def feeder_stops_def
        feeder_timer_entry_def split: option.splits)
qed

lemma startFeeder_settled:
  "settled w \<Longrightarrow> startFeeder w = Inr w' \<Longrightarrow> settled w'"
  by (erule startFeeder_cases)
    (auto simp: settled_def feeder_timer_entry_def timer_delay_def)

lemma startSpeechRecording_core_inv:
  assumes inv: "core_inv w" and st: "startSpeechRecording w = Inr w'"
  shows "core_inv w'"
proof -
  have w': "w' = w\<lparr>streams := streams w @ [next_id w], mics := mics w @ [next_id w],
           recording := Some (next_id w), next_id := Suc (Suc (next_id w)),
           timers := timers w @ [speech_timer_entry w], speech_timer := Some (Suc (next_id w)),
           emitted := emitted w @ [Relay SpeechRecordingStarted],
           sockets := deliver (concat (replicate (count_list (listeners w) (Relay SpeechRecordingStarted))
              [WEvent ''speechRecordingStarted'' (now w) ''Speech recording started'' ''success'',
               WInfo (now w) (\<not> isFeeding w) False])) (sockets w)\<rparr>"
    using st by (simp add: startSpeechRecording_eq)
  have "ids_ok w'"
    using inv unfolding w' by (auto simp: core_inv_def ids_ok_def speech_timer_entry_def split: option.splits)
  moreover have "clock_ok w'"
    using inv unfolding w' by (simp add: core_inv_def clock_ok_def speech_timer_entry_def)
  moreover have "feeder_ok w'"
    using inv unfolding w'
    by (simp add: core_inv_def feeder_ok_def feeder_stops_def speech_timer_entry_def split: option.splits)
  moreover have "speech_ok w'"
    unfolding w' by (simp add: speech_ok_def speech_timer_entry_def)
  ultimately show ?thesis by (simp add: core_inv_def)
qed

lemma startSpeechRecording_settled:
  "settled w \<Longrightarrow> startSpeechRecording w = Inr w' \<Longrightarrow> settled w'"
  by (auto simp: startSpeechRecording_eq settled_def speech_timer_entry_def timer_delay_def)

section \<open>Firing a timer keeps the invariant\<close>

lemma ids_ok_cb_differ:
  assumes "ids_ok w" and "y \<in> set (timers w)" and "z \<in> set (timers w)" and "t_cb y \<noteq> t_cb z"
  shows "t_id y \<noteq> t_id z"
  using assms distinct_ids_eq [of "timers w" y z] by (auto simp: ids_ok_def)

lemma fire_one_fields [simp]:
  "timers (fire_one x w) = filter (\<lambda>y. t_id y \<noteq> t_id x) (timers w)"
  "now (fire_one x w) = max (now w) (t_due x)"
  "cfg (fire_one x w) = cfg w" "next_id (fire_one x w) = next_id w" "servo (fire_one x w) = servo w"
  "feeder_timer (fire_one x w) = feeder_timer w" "recording (fire_one x w) = recording w"
  "speech_timer (fire_one x w) = speech_timer w" "mics (fire_one x w) = mics w"
  "streams (fire_one x w) = streams w" "listeners (fire_one x w) = listeners w"
  "sockets (fire_one x w) = sockets w" "emitted (fire_one x w) = emitted w"
  "files (fire_one x w) = files w" "timelapse (fire_one x w) = timelapse w"
  by (simp_all add: fire_one_def)

lemma fire_one_ids_clock:
  assumes inv: "core_inv w" and due: "due_timer target (timers w) = Some x"
  shows "ids_ok (fire_one x w)" "clock_ok (fire_one x w)" "now (fire_one x w) = t_due x"
proof -
  have min: "\<forall>y \<in> set (timers w). t_due x \<le> t_due y" by (rule due_timer_Some(3) [OF due])
  have "now w \<le> t_due x"
    using inv due_timer_Some(1) [OF due] by (auto simp: core_inv_def clock_ok_def)
  then show "now (fire_one x w) = t_due x" by simp
  show "ids_ok (fire_one x w)"
    using inv by (auto simp: core_inv_def ids_ok_def distinct_map_filter)
  show "clock_ok (fire_one x w)"
    using min \<open>now w \<le> t_due x\<close> by (auto simp: clock_ok_def)
qed

lemma fire_feeder_cb:
  assumes inv: "core_inv w" and due: "due_timer target (timers w) = Some x"
    and cb: "t_cb x = StopFeederCb"
  shows "feeder_timer w = Some (t_id x)" and "servo w = Some ServoMax"
    and "feeder_stops w = [x]"
proof -
  have x: "x \<in> set (timers w)" by (rule due_timer_Some(1) [OF due])
  show "feeder_timer w = Some (t_id x)" "servo w = Some ServoMax" "feeder_stops w = [x]"
  proof (atomize (full), cases "feeder_timer w")
    case None
    with inv have "feeder_stops w = []" by (simp add: core_inv_def feeder_ok_def)
    with x cb show "feeder_timer w = Some (t_id x) \<and> servo w = Some ServoMax \<and> feeder_stops w = [x]"
      by (simp add: feeder_stops_def filter_empty_conv)
  next
    case (Some t)
    from inv have "feeder_ok w" by (simp add: core_inv_def)
    then obtain y where y: "feeder_stops w = [y]" "t_id y = t" "servo w = Some ServoMax"
      using Some by (rule feeder_ok_Some_entry)
    have "x \<in> set (feeder_stops w)" using x cb by (simp add: feeder_stops_def)
    with y(1) have "x = y" by simp
    with Some y show "feeder_timer w = Some (t_id x) \<and> servo w = Some ServoMax \<and> feeder_stops w = [x]"
      by simp
  qed
qed

lemma fire_feeder_step:
  assumes inv: "core_inv w" and due: "due_timer target (timers w) = Some x"
    and cb: "t_cb x = StopFeederCb"
  shows "run_callback (t_cb x) (fire_one x w) =
    Inr ((fire_one x w)\<lparr>servo := Some ServoMin, feeder_timer := None,
           emitted := emitted w @ [Relay FeedingStopped],
           sockets := deliver (concat (replicate (count_list (listeners w) (Relay FeedingStopped))
              [WEvent ''feedingStopped'' (now (fire_one x w)) ''Feeding stopped'' ''success'',
               WInfo (now (fire_one x w)) True (\<not> isRecording w)])) (sockets w)\<rparr>)"
proof -
  have ft: "feeder_timer (fire_one x w) = Some (t_id x)" and sv: "servo (fire_one x w) = Some ServoMax"
    using fire_feeder_cb [OF inv due cb] by simp_all
  show ?thesis
    using cb stopFeeder_stop [OF ft sv]
    by (simp add: isRecording_def)
qed

lemma fire_feeder_core_inv:
  assumes inv: "core_inv w" and due: "due_timer target (timers w) = Some x"
    and cb: "t_cb x = StopFeederCb" and res: "run_callback (t_cb x) (fire_one x w) = Inr w'"
  shows "core_inv w'"
proof -
  have w': "w' = (fire_one x w)\<lparr>servo := Some ServoMin, feeder_timer := None,
           emitted := emitted w @ [Relay FeedingStopped],
           sockets := deliver (concat (replicate (count_list (listeners w) (Relay FeedingStopped))
              [WEvent ''feedingStopped'' (now (fire_one x w)) ''Feeding stopped'' ''success'',
               WInfo (now (fire_one x w)) True (\<not> isRecording w)])) (sockets w)\<rparr>"
    using res fire_feeder_step [OF inv due cb] by simp
  have stops: "feeder_stops w = [x]" by (rule fire_feeder_cb(3) [OF inv due cb])
  have ic: "ids_ok (fire_one x w)" "clock_ok (fire_one x w)"
    using fire_one_ids_clock [OF inv due] by simp_all
  have "ids_ok w'" "clock_ok w'"
    using ic by (simp_all add: w' ids_ok_def clock_ok_def)
  moreover have "feeder_ok w'"
  proof -
    have "\<forall>z \<in> set (timers w). t_cb z = StopFeederCb \<longrightarrow> z = x"
      using stops by (auto simp: feeder_stops_def dest: filter_singleton_in)
    then show ?thesis by (auto simp: w' feeder_ok_def feeder_stops_def filter_empty_conv)
  qed
  moreover have "speech_ok w'"
  proof (cases "speech_timer w")
    case None
    then show ?thesis by (simp add: w' speech_ok_def)
  next
    case (Some st)
    with inv obtain z r where z: "z \<in> set (timers w)" "t_id z = st" "t_cb z = StopSpeechCb"
      and r: "recording w = Some r" "r \<in> set (mics w)"
      by (auto simp: core_inv_def speech_ok_def split: option.splits)
    have "t_id z \<noteq> t_id x"
      using inv z(1,3) due_timer_Some(1) [OF due] cb
      by (intro ids_ok_cb_differ) (auto simp: core_inv_def)
    with Some z r show ?thesis by (auto simp: w' speech_ok_def)
  qed
  ultimately show ?thesis by (simp add: core_inv_def)
qed

lemma feeder_ok_transfer:
  assumes "feeder_ok w" and "feeder_timer w' = feeder_timer w" and "servo w' = servo w"
    and "feeder_stops w' = feeder_stops w" and "now w \<le> now w'" and "cfg w' = cfg w"
  shows "feeder_ok w'"
  using assms by (auto simp: feeder_ok_def list_all_iff split: option.splits)

lemma fire_speech_step:
  assumes inv: "core_inv w" and due: "due_timer target (timers w) = Some x"
    and cb: "t_cb x = StopSpeechCb"
  shows "\<exists>w'. run_callback (t_cb x) (fire_one x w) = Inr w' \<and> core_inv w'
     \<and> feeder_timer w' = feeder_timer w \<and> servo w' = servo w \<and> feeder_stops w' = feeder_stops w
     \<and> count_list (emitted w') (Relay FeedingStopped) = count_list (emitted w) (Relay FeedingStopped)
     \<and> now w' = t_due x \<and> cfg w' = cfg w"
proof -
  let ?w1 = "fire_one x w"
  have x: "x \<in> set (timers w)" by (rule due_timer_Some(1) [OF due])
  have ic: "ids_ok ?w1" "clock_ok ?w1" "now ?w1 = t_due x"
    using fire_one_ids_clock [OF inv due] by simp_all
  have "now w \<le> t_due x" using ic(3) by (simp add: max_def split: if_splits)
  have ids: "ids_ok w" and fok: "feeder_ok w" and sok: "speech_ok w"
    using inv by (simp_all add: core_inv_def)
  have fx: "\<forall>z \<in> set (timers w). t_cb z = StopFeederCb \<longrightarrow> t_id z \<noteq> t_id x"
    using ids x cb by (auto dest: ids_ok_cb_differ [of w _ x])
  show ?thesis
  proof (cases "speech_timer w")
    case None
    then have idle: "run_callback (t_cb x) ?w1 = Inr ?w1"
      using cb by (simp add: stopSpeechRecording_idle isRecording_def)
    have "feeder_stops ?w1 = feeder_stops w"
      unfolding feeder_stops_def using fx by (simp add: filter_filter) (rule filter_cong; auto)
    then have "feeder_ok ?w1"
      using fok \<open>now w \<le> t_due x\<close> ic(3) by (intro feeder_ok_transfer [OF fok]) simp_all
    moreover have "speech_ok ?w1" using None by (simp add: speech_ok_def)
    ultimately show ?thesis
      using idle ic \<open>feeder_stops ?w1 = feeder_stops w\<close> by (simp add: core_inv_def)
  next
    case (Some st)
    with sok obtain z r where z: "z \<in> set (timers w)" "t_id z = st" "t_cb z = StopSpeechCb"
      and r: "recording w = Some r" "r \<in> set (mics w)"
      by (auto simp: speech_ok_def split: option.splits)
    have fz: "\<forall>y \<in> set (timers w). t_cb y = StopFeederCb \<longrightarrow> t_id y \<noteq> st \<and> t_id y \<noteq> t_id x"
      using ids z fx by (auto dest: ids_ok_cb_differ [of w _ z])
    let ?w2 = "?w1\<lparr>mics := removeAll r (mics w), timers := filter (\<lambda>y. t_id y \<noteq> st) (timers ?w1),
           speech_timer := None, emitted := emitted w @ [Relay SpeechRecordingStopped],
           sockets := deliver (concat (replicate (count_list (listeners w) (Relay SpeechRecordingStopped))
              [WEvent ''speechRecordingStopped'' (now ?w1) ''Speech recording stopped'' ''success'',
               WInfo (now ?w1) (\<not> isFeeding w) True])) (sockets w)\<rparr>"
    have stop: "run_callback (t_cb x) ?w1 = Inr ?w2"
      using cb Some r stopSpeechRecording_stop [of ?w1 st r] by (simp add: isFeeding_def)
    have fs: "feeder_stops ?w2 = feeder_stops w"
      unfolding feeder_stops_def using fz by (simp add: filter_filter) (rule filter_cong; auto)
    have "ids_ok ?w2" using ids by (auto simp: ids_ok_def distinct_map_filter)
    moreover have "clock_ok ?w2" using ic(2) by (simp add: clock_ok_def)
    moreover have "feeder_ok ?w2"
      using fs \<open>now w \<le> t_due x\<close> ic(3) by (intro feeder_ok_transfer [OF fok]) simp_all
    moreover have "speech_ok ?w2" by (simp add: speech_ok_def)
    ultimately show ?thesis using stop fs ic(3) by (simp add: core_inv_def)
  qed
qed

section \<open>The event loop\<close>

lemma loop_frame_refl [simp]: "loop_frame w w"
  by (simp add: loop_frame_def)

lemma loop_frame_trans: "loop_frame w1 w2 \<Longrightarrow> loop_frame w2 w3 \<Longrightarrow> loop_frame w1 w3"
  by (auto simp: loop_frame_def)

lemma run_callback_frame:
  assumes "run_callback cb w = Inr w'"
  shows "loop_frame w w'"
proof (cases cb)
  case StopFeederCb
  with assms have "stopFeeder w = Inr w'" by simp
  then show ?thesis by (cases rule: stopFeeder_cases) (auto simp: loop_frame_def)
next
  case StopSpeechCb
  with assms have "stopSpeechRecording w = Inr w'" by simp
  then show ?thesis by (cases rule: stopSpeechRecording_cases) (auto simp: loop_frame_def)
qed

lemma fire_one_frame: "loop_frame w (fire_one x w)"
  by (auto simp: loop_frame_def)

lemma core_inv_feeder_stops_None:
  "core_inv w \<Longrightarrow> feeder_timer w = None \<Longrightarrow> feeder_stops w = []"
  by (simp add: core_inv_def feeder_ok_def)

text \<open>
  The loop always returns (never throws under the invariant), keeps the invariant, leaves
  no timer due by the target, stands the clock at the target, and every stop timer of
  the feeder it consumes turns into exactly one \<open>feedingStopped\<close> emit.
\<close>

lemma fire_due_core:
  assumes "core_inv w" and "now w \<le> target"
  shows "\<exists>w'. fire_due target w = Inr w' \<and> core_inv w' \<and> settled w' \<and> now w' = target
     \<and> loop_frame w w'
     \<and> count_list (emitted w') (Relay FeedingStopped) + length (feeder_stops w')
         = count_list (emitted w) (Relay FeedingStopped) + length (feeder_stops w)"
  using assms
proof (induction target w rule: fire_due.induct)
  case (1 target w)
  show ?case
  proof (cases "due_timer target (timers w)")
    case None
    let ?w' = "w\<lparr>now := max (now w) target\<rparr>"
    have later: "\<forall>y \<in> set (timers w). target < t_due y" by (rule due_timer_None [OF None])
    have "feeder_ok w" using "1.prems" by (simp add: core_inv_def)
    then have "feeder_ok ?w'" by (rule feeder_ok_transfer) (simp_all add: feeder_stops_def)
    then have "core_inv ?w'"
      using "1.prems" later by (auto simp: core_inv_def ids_ok_def clock_ok_def speech_ok_def)
    moreover have "settled ?w'" using later "1.prems"(2) by (simp add: settled_def)
    ultimately show ?thesis
      using None "1.prems"(2) by (simp add: fire_due.simps [of target w] loop_frame_def feeder_stops_def)
  next
    case (Some x)
    have le: "t_due x \<le> target" by (rule due_timer_Some(2) [OF Some])
    obtain w1 where cb: "run_callback (t_cb x) (fire_one x w) = Inr w1" and inv1: "core_inv w1"
      and now1: "now w1 = t_due x"
      and cnt: "count_list (emitted w1) (Relay FeedingStopped) + length (feeder_stops w1)
         = count_list (emitted w) (Relay FeedingStopped) + length (feeder_stops w)"
    proof (cases "t_cb x")
      case StopFeederCb
      let ?w1 = "(fire_one x w)\<lparr>servo := Some ServoMin, feeder_timer := None,
           emitted := emitted w @ [Relay FeedingStopped],
           sockets := deliver (concat (replicate (count_list (listeners w) (Relay FeedingStopped))
              [WEvent ''feedingStopped'' (now (fire_one x w)) ''Feeding stopped'' ''success'',
               WInfo (now (fire_one x w)) True (\<not> isRecording w)])) (sockets w)\<rparr>"
      have r: "run_callback (t_cb x) (fire_one x w) = Inr ?w1"
        by (rule fire_feeder_step [OF "1.prems"(1) Some StopFeederCb])
      have i: "core_inv ?w1" by (rule fire_feeder_core_inv [OF "1.prems"(1) Some StopFeederCb r])
      have "feeder_stops ?w1 = []" by (rule core_inv_feeder_stops_None [OF i]) simp
      moreover have "feeder_stops w = [x]" by (rule fire_feeder_cb(3) [OF "1.prems"(1) Some StopFeederCb])
      moreover have "now ?w1 = t_due x" using fire_one_ids_clock(3) [OF "1.prems"(1) Some] by simp
      ultimately show ?thesis using that r i by simp
    next
      case StopSpeechCb
      then show ?thesis using that fire_speech_step [OF "1.prems"(1) Some StopSpeechCb] by auto
    qed
    have "now w1 \<le> target" using now1 le by simp
    then obtain w' where w': "fire_due target w1 = Inr w'" "core_inv w'" "settled w'" "now w' = target"
      "loop_frame w1 w'"
      "count_list (emitted w') (Relay FeedingStopped) + length (feeder_stops w')
         = count_list (emitted w1) (Relay FeedingStopped) + length (feeder_stops w1)"
      using "1.IH" [OF Some cb inv1] by blast
    have "loop_frame w w1"
      by (rule loop_frame_trans [OF fire_one_frame run_callback_frame [OF cb]])
    with w' have "loop_frame w w'" by (blast intro: loop_frame_trans)
    with w' cnt Some cb show ?thesis by (simp add: fire_due.simps [of target w])
  qed
qed

section \<open>Every event keeps the invariant\<close>

lemma world_inv_mono:
  assumes "world_inv w" and "timers w' = timers w" and "now w' = now w" and "cfg w' = cfg w"
    and "servo w' = servo w" and "feeder_timer w' = feeder_timer w"
    and "speech_timer w' = speech_timer w" and "recording w' = recording w" and "mics w' = mics w"
    and "set (streams w') \<subseteq> set (streams w)" and "next_id w \<le> next_id w'"
  shows "world_inv w'"
proof -
  have "ids_ok w'"
  proof -
    have "\<forall>r \<in> set (streams w'). r < next_id w'"
      using assms(1,10,11) by (force simp: world_inv_def core_inv_def ids_ok_def)
    then show ?thesis
      using assms by (force simp: world_inv_def core_inv_def ids_ok_def)
  qed
  moreover have "clock_ok w' \<and> settled w' \<and> feeder_ok w' \<and> speech_ok w'"
    using assms by (simp add: world_inv_def core_inv_def clock_ok_def settled_def feeder_ok_def
        feeder_stops_def speech_ok_def split: option.splits)
  ultimately show ?thesis by (simp add: world_inv_def core_inv_def)
qed

lemma startFeeder_world_inv: "world_inv w \<Longrightarrow> startFeeder w = Inr w' \<Longrightarrow> world_inv w'"
  unfolding world_inv_def by (blast intro: startFeeder_core_inv startFeeder_settled)

lemma startSpeechRecording_world_inv:
  "world_inv w \<Longrightarrow> startSpeechRecording w = Inr w' \<Longrightarrow> world_inv w'"
  unfolding world_inv_def by (blast intro: startSpeechRecording_core_inv startSpeechRecording_settled)

lemma emit_recognized_world_inv:
  assumes "world_inv w" and "emit_recognized w = Inr w'"
  shows "world_inv w'"
proof -
  have "world_inv (w\<lparr>emitted := emitted w @ [SpeechRecordingRecognized]\<rparr>)"
    using assms(1) by (rule world_inv_mono) simp_all
  with assms(2) show ?thesis
    by (auto simp: emit_recognized_eq split: if_splits intro: startFeeder_world_inv)
qed

lemma speech_on_data_world_inv:
  assumes "world_inv w" and "speech_on_data emit_recognized d w = Inr w'"
  shows "world_inv w'"
  using assms(2)
proof (cases rule: speech_on_data_cases)
  case ignored
  with assms(1) show ?thesis by simp
next
  case (recognized tr alts rest)
  with assms show ?thesis by (simp add: emit_recognized_world_inv)
qed

lemma boardReady_world_inv:
  assumes "world_inv w" and "servo w = None"
  shows "world_inv (boardReady w)"
proof -
  from assms have "feeder_timer w = None"
    by (auto simp: world_inv_def core_inv_def feeder_ok_def split: option.splits)
  with assms show ?thesis
    by (auto simp: boardReady_def world_inv_def core_inv_def ids_ok_def clock_ok_def settled_def
        feeder_ok_def feeder_stops_def speech_ok_def)
qed

lemma sys_step_world_inv:
  assumes inv: "world_inv w" and st: "sys_step w i = Inr w'"
  shows "world_inv w'"
proof (cases i)
  case BoardReady
  with inv st show ?thesis by (auto simp: boardReady_world_inv split: if_splits)
next
  case Connect
  with st have "w' = onSocketConnected w" by simp
  then show ?thesis by (simp add: onSocketConnected_eq) (rule world_inv_mono [OF inv]; simp)
next
  case (Disconnect s)
  with st have "w' = onSocketDisconnected s w" by simp
  then show ?thesis by (simp add: onSocketDisconnected_def) (rule world_inv_mono [OF inv]; simp)
next
  case (CmdStartFeeding s)
  with inv st show ?thesis by (auto simp: onStartFeeding_def split: if_splits intro: startFeeder_world_inv)
next
  case (CmdStartSpeechRecording s)
  with inv st show ?thesis
    by (auto simp: onStartSpeechRecording_def split: if_splits intro: startSpeechRecording_world_inv)
next
  case (Advance d)
  from inv have "core_inv w" by (simp add: world_inv_def)
  from fire_due_core [OF this, of "now w + d"] st Advance show ?thesis
    by (auto simp: world_inv_def)
next
  case (SpeechData r d)
  with inv st show ?thesis by (auto split: if_splits intro: speech_on_data_world_inv)
next
  case (SpeechError r)
  with inv st show ?thesis by simp
next
  case (MicError r)
  with inv st show ?thesis by simp
next
  case (CameraEvent e)
  with st have "w' = (if e = CamExit then w\<lparr>timelapse := False\<rparr> else w)" by simp
  then show ?thesis using inv by (simp split: if_splits) (rule world_inv_mono [OF inv]; simp)
next
  case (StreamEnd r)
  with st have "w' = w\<lparr>streams := removeAll r (streams w)\<rparr>" by simp
  then show ?thesis by simp (rule world_inv_mono [OF inv]; auto)
next
  case (FrameWritten p bs)
  with st have "w' = w\<lparr>files := (files w)(p \<mapsto> bs)\<rparr>" by simp
  then show ?thesis by simp (rule world_inv_mono [OF inv]; simp)
next
  case (CameraRead f b)
  with st have cr: "camera_on_read f b w = Inr w'" by simp
  show ?thesis by (rule world_inv_mono [OF inv]) (simp_all add: camera_on_read_frame [OF cr])
qed

lemma init_world_inv: "world_inv (init_world c)"
  by (simp add: init_world_def startTimelapse_def world_inv_def core_inv_def ids_ok_def clock_ok_def
      settled_def feeder_ok_def feeder_stops_def speech_ok_def)

lemma reachable_world_inv: "reachable w \<Longrightarrow> world_inv w"
proof (induction rule: reachable.induct)
  case (init c)
  show ?case by (rule init_world_inv)
next
  case (step w i w')
  then show ?case by (blast intro: sys_step_world_inv)
qed


section \<open>Consequences for reachable states and runs\<close>

lemma reachable_by_run: "run (init_world c) ins = Inr w \<Longrightarrow> reachable w"
  by (rule run_reachable [OF reachable.init])

lemma reachable_feeder_ok: "reachable w \<Longrightarrow> feeder_ok w"
  using reachable_world_inv by (simp add: world_inv_def core_inv_def)

lemma reachable_core_inv: "reachable w \<Longrightarrow> core_inv w"
  using reachable_world_inv by (simp add: world_inv_def)

lemma orphan_mic_step:
  assumes "core_inv w" and "r \<in> set (mics w)" and "recording w \<noteq> Some r"
    and "sys_step w i = Inr w'"
  shows "r \<in> set (mics w') \<and> recording w' \<noteq> Some r"
proof (cases i)
  case (Advance d)
  with assms show ?thesis
    using fire_due_core [OF assms(1), of "now w + d"] by (auto simp: loop_frame_def)
next
  case (CmdStartFeeding s)
  with assms show ?thesis
    by (auto simp: onStartFeeding_def split: if_splits dest: startFeeder_frame(1,3))
next
  case (CmdStartSpeechRecording s)
  have "r < next_id w" using assms(1,2) by (auto simp: core_inv_def ids_ok_def)
  with assms CmdStartSpeechRecording show ?thesis
    by (auto simp: onStartSpeechRecording_def startSpeechRecording_eq split: if_splits)
next
  case (SpeechData q d)
  with assms show ?thesis
    by (auto split: if_splits dest!: speech_on_data_Inr dest: startFeeder_frame(1,3))
next
  case (CameraRead f b)
  with assms show ?thesis by (auto dest: camera_on_read_frame(7,9))
qed (use assms in \<open>auto simp: onSocketConnected_eq onSocketDisconnected_def boardReady_def split: if_splits\<close>)

lemma run_Inr_step:
  "run w (i # ins) = Inr w'' \<Longrightarrow> \<exists>w'. sys_step w i = Inr w' \<and> run w' ins = Inr w''"
  by (auto split: sum.splits)

lemma fire_due_frame: "fire_due target w = Inr w' \<Longrightarrow> loop_frame w w'"
proof (induction target w rule: fire_due.induct)
  case (1 target w)
  show ?case
  proof (cases "due_timer target (timers w)")
    case None
    with "1.prems" show ?thesis by (auto simp: fire_due.simps [of target w] loop_frame_def)
  next
    case (Some x)
    with "1.prems" obtain w1 where cb: "run_callback (t_cb x) (fire_one x w) = Inr w1"
      and rest: "fire_due target w1 = Inr w'"
      by (auto simp: fire_due.simps [of target w] split: sum.splits)
    have "loop_frame w w1" by (rule loop_frame_trans [OF fire_one_frame run_callback_frame [OF cb]])
    then show ?thesis by (rule loop_frame_trans [OF _ "1.IH" [OF Some cb rest]])
  qed
qed

lemma fire_due_now_mono: "fire_due target w = Inr w' \<Longrightarrow> now w \<le> now w'"
  by (drule fire_due_frame) (simp add: loop_frame_def)


section \<open>The camera capture\<close>

text \<open>Only the exit of the raspistill process changes whether the timelapse runs: no
  handler starts or stops it.\<close>

lemma sys_step_timelapse:
  assumes "sys_step w i = Inr w'"
  shows "timelapse w' \<longleftrightarrow> timelapse w \<and> i \<noteq> CameraEvent CamExit"
proof (cases i)
  case (Advance d)
  with assms show ?thesis by (auto dest!: fire_due_frame simp: loop_frame_def)
next
  case (CmdStartFeeding s)
  with assms show ?thesis by (auto simp: onStartFeeding_def split: if_splits dest: startFeeder_frame(9))
next
  case (CmdStartSpeechRecording s)
  with assms show ?thesis by (auto simp: onStartSpeechRecording_def startSpeechRecording_eq split: if_splits)
next
  case (SpeechData r d)
  with assms show ?thesis by (auto split: if_splits dest!: speech_on_data_Inr dest: startFeeder_frame(9))
next
  case (CameraRead f b)
  with assms show ?thesis by (auto dest: camera_on_read_frame(12))
next
  case (CameraEvent e)
  with assms show ?thesis by (cases e) (auto simp: camera_on_start_def camera_on_exit_def camera_on_stop_def)
qed (use assms in \<open>auto simp: onSocketConnected_eq onSocketDisconnected_def boardReady_def split: if_splits\<close>)

lemma run_timelapse:
  "run w ins = Inr w' \<Longrightarrow> timelapse w' \<longleftrightarrow> timelapse w \<and> CameraEvent CamExit \<notin> set ins"
  by (induction ins arbitrary: w) (auto split: sum.splits dest!: sys_step_timelapse)

end
