(* ===== verification/Client.thy ===== *)
theory Client
  imports World
begin

text \<open>
  The browser client of \<open>src/public/js/main.js\<close>. Its state is the part of the page the
  script changes: the event list \<open>#events\<close> (each \<open>addEvent\<close> prepends an item with the
  message, the status and the date), the \<open>disabled\<close> attribute of the two buttons, the
  visibility of the image placeholder and the highlighted image. Each Socket.IO message
  the socket receives runs its handler; a click on an enabled button sends the command.
  A disabled button produces no click event in the browser, so a click on it sends
  nothing.
\<close>

section \<open>State and handlers\<close>

record client_dom =
  ev_list :: "(string \<times> string \<times> nat) list"  \<comment> \<open>\<open>#events\<close>: message, status, date; newest first\<close>
  feed_disabled :: bool                       \<comment> \<open>\<open>#start-feeder-btn\<close> disabled\<close>
  rec_disabled :: bool                        \<comment> \<open>\<open>#start-speech-recording-btn\<close> disabled\<close>
  placeholder_visible :: bool                 \<comment> \<open>\<open>#highlighted-image-placeholder\<close>\<close>
  highlighted :: "(string \<times> nat) option"     \<comment> \<open>\<open>#highlighted-image\<close>: src and alt\<close>

datatype client_cmd = StartFeedingCmd | StartSpeechRecordingCmd

definition client_init :: client_dom where
  "client_init = \<lparr>ev_list = [], feed_disabled = False, rec_disabled = False,
     placeholder_visible = True, highlighted = None\<rparr>"

definition addEvent :: "string \<Rightarrow> string \<Rightarrow> nat \<Rightarrow> client_dom \<Rightarrow> client_dom" where
  "addEvent m st d c = c\<lparr>ev_list := (m, st, d) # ev_list c\<rparr>"

definition client_on_connect :: "nat \<Rightarrow> client_dom \<Rightarrow> client_dom" where
  "client_on_connect d c = addEvent ''Socket connected to server'' ''success'' d c"

definition event_tags :: "string list" where
  "event_tags = [''feedingStarted'', ''feedingStopped'', ''speechRecordingStarted'', ''speechRecordingStopped'']"

fun client_recv :: "wire \<Rightarrow> client_dom \<Rightarrow> client_dom" where
  "client_recv (WInfo d fp rp) c = c\<lparr>feed_disabled := \<not> fp, rec_disabled := \<not> rp\<rparr>"
| "client_recv (WImage d img m st) c =
     c\<lparr>placeholder_visible := False,
       highlighted := Some (''data:image/jpeg;base64,'' @ (case img of Some s \<Rightarrow> s | None \<Rightarrow> ''undefined''), d)\<rparr>"
| "client_recv (WEvent tag d m st) c = (if tag \<in> set event_tags then addEvent m st d c else c)"

definition client_view :: "client_dom \<Rightarrow> wire list \<Rightarrow> client_dom" where
  "client_view c ms = fold client_recv ms c"

definition click_feed :: "client_dom \<Rightarrow> client_cmd list" where
  "click_feed c = (if feed_disabled c then [] else [StartFeedingCmd])"

definition click_rec :: "client_dom \<Rightarrow> client_cmd list" where
  "click_rec c = (if rec_disabled c then [] else [StartSpeechRecordingCmd])"

fun event_entry :: "wire \<Rightarrow> (string \<times> string \<times> nat) list" where
  "event_entry (WEvent tag d m st) = (if tag \<in> set event_tags then [(m, st, d)] else [])"
| "event_entry _ = []"

section \<open>The last status snapshot decides the buttons\<close>

fun last_info :: "wire list \<Rightarrow> (bool \<times> bool) option" where
  "last_info [] = None"
| "last_info (WInfo d fp rp # ms) = (case last_info ms of None \<Rightarrow> Some (fp, rp) | r \<Rightarrow> r)"
| "last_info (_ # ms) = last_info ms"

lemma last_info_append:
  "last_info (xs @ ys) = (case last_info ys of None \<Rightarrow> last_info xs | r \<Rightarrow> r)"
  by (induction xs rule: last_info.induct) (auto split: option.splits)

lemma client_recv_buttons:
  "(feed_disabled (client_recv m c), rec_disabled (client_recv m c)) =
     (case last_info [m] of None \<Rightarrow> (feed_disabled c, rec_disabled c) | Some (fp, rp) \<Rightarrow> (\<not> fp, \<not> rp))"
  by (cases m) (simp_all add: addEvent_def)

lemma client_view_buttons:
  "(feed_disabled (client_view c ms), rec_disabled (client_view c ms)) =
     (case last_info ms of None \<Rightarrow> (feed_disabled c, rec_disabled c) | Some (fp, rp) \<Rightarrow> (\<not> fp, \<not> rp))"
proof (induction ms arbitrary: c rule: rev_induct)
  case (snoc m ms)
  show ?case
    using client_recv_buttons [of m "client_view c ms"] snoc [of c]
    by (auto simp: client_view_def last_info_append split: option.splits)
qed (simp add: client_view_def)


section \<open>Event list and image\<close>

lemma client_view_append: "client_view c (xs @ ys) = client_view (client_view c xs) ys"
  by (simp add: client_view_def)

lemma client_recv_ev_list: "ev_list (client_recv m c) = rev (event_entry m) @ ev_list c"
  by (cases m) (simp_all add: addEvent_def)

lemma image_block_shown:
  "highlighted (client_view c [WImage d (Some s) m st, WInfo d' a b])
     = Some (''data:image/jpeg;base64,'' @ s, d)
   \<and> \<not> placeholder_visible (client_view c [WImage d (Some s) m st, WInfo d' a b])"
  by (simp add: client_view_def)

lemma image_blocks_shown:
  assumes "k \<noteq> 0"
  shows "highlighted (client_view c (concat (replicate k [WImage d (Some s) m st, WInfo d' a b])))
           = Some (''data:image/jpeg;base64,'' @ s, d)
    \<and> \<not> placeholder_visible (client_view c (concat (replicate k [WImage d (Some s) m st, WInfo d' a b])))"
  using assms
proof (induction k arbitrary: c)
  case (Suc j)
  show ?case
  proof (cases "j = 0")
    case True
    then show ?thesis using image_block_shown [of c] by simp
  next
    case False
    let ?B = "[WImage d (Some s) m st, WInfo d' a b]"
    have "client_view c (concat (replicate (Suc j) ?B)) = client_view (client_view c ?B) (concat (replicate j ?B))"
      by (simp only: replicate_Suc concat.simps client_view_append)
    then show ?thesis using Suc.IH [OF False, of "client_view c ?B"] by simp
  qed
qed simp

end
