(* ===== verification/Views.thy ===== *)
theory Views
  imports Invariants Client
begin

text \<open>
  What the browsers show, composed with the server. The spec (section 4.6) requires
  that every client's controls reflect the global availability of feeding and
  recording. \<open>views_ok\<close> says that the last status snapshot each connected socket
  received is the current one; \<open>relays_ok\<close> that once a socket is connected the
  emitter has the relays of \<open>onSocketConnected\<close>, so that every state change of a
  controller is followed by a snapshot to every socket. Both hold in every reachable
  state; with \<^theory_text>\<open>Client\<close> this fixes the buttons of every browser.
\<close>

definition relays_ok :: "world \<Rightarrow> bool" where
  "relays_ok w \<longleftrightarrow> sockets w = [] \<or> set io_listeners \<subseteq> set (listeners w)"

definition views_ok :: "world \<Rightarrow> bool" where
  "views_ok w \<longleftrightarrow> list_all (\<lambda>(s, inbox). last_info inbox = Some (\<not> isFeeding w, \<not> isRecording w)) (sockets w)"

lemma last_info_Cons_other: "last_info [m] = None \<Longrightarrow> last_info (m # ms) = last_info ms"
  by (cases m) (simp_all split: option.splits)

lemma last_info_relays:
  assumes "k \<noteq> 0" and "last_info [m] = None"
  shows "last_info (concat (replicate k [m, WInfo d a b])) = Some (a, b)"
proof -
  obtain j where k: "k = Suc j" using assms(1) by (cases k) auto
  have "concat (replicate k [m, WInfo d a b]) = concat (replicate j [m, WInfo d a b]) @ [m, WInfo d a b]"
    by (simp add: k concat_replicate_snoc del: replicate_Suc)
  then show ?thesis using assms(2) by (simp add: last_info_append last_info_Cons_other)
qed

lemma views_deliver_relays:
  assumes "k \<noteq> 0" and "last_info [m] = None"
  shows "list_all (\<lambda>(s, inbox). last_info inbox = Some (a, b))
           (deliver (concat (replicate k [m, WInfo d a b])) ss)"
  using last_info_relays [OF assms, of d a b]
  by (induction ss) (auto simp: last_info_append)

lemma relays_count:
  assumes "relays_ok w" and "sockets w \<noteq> []"
  shows "count_list (listeners w) (Relay e) \<noteq> 0"
proof -
  have "Relay e \<in> set io_listeners" by (cases e) (simp_all add: io_listeners_def)
  with assms have "Relay e \<in> set (listeners w)" by (auto simp: relays_ok_def)
  then show ?thesis by (simp add: count_list_0_iff)
qed

lemma views_relay:
  assumes "relays_ok w" and "last_info [m] = None"
  shows "list_all (\<lambda>(s, inbox). last_info inbox = Some (a, b))
           (deliver (concat (replicate (count_list (listeners w) (Relay e)) [m, WInfo d a b])) (sockets w))"
proof (cases "sockets w = []")
  case False
  then show ?thesis using views_deliver_relays [OF relays_count [OF assms(1) False] assms(2)] by simp
qed simp

lemma last_info_event [simp]: "last_info [WEvent t d m st] = None" "last_info [WImage d i m st] = None"
  by simp_all

lemma deliver_Nil_iff [simp]: "deliver ms ss = [] \<longleftrightarrow> ss = []"
  by (simp add: deliver_def)

lemma startFeeder_views:
  assumes "startFeeder w = Inr w'" and "views_ok w" and "relays_ok w"
  shows "views_ok w' \<and> relays_ok w'"
  using assms(1)
proof (cases rule: startFeeder_cases)
  case (start x)
  then show ?thesis using views_relay [OF assms(3), of "WEvent ''feedingStarted'' (now w) ''Feeding started'' ''success''"]
    assms(3) by (simp add: views_ok_def relays_ok_def isFeeding_def isRecording_def)
qed (use assms in simp)

lemma stopFeeder_views:
  assumes "stopFeeder w = Inr w'" and "views_ok w" and "relays_ok w"
  shows "views_ok w' \<and> relays_ok w'"
  using assms(1)
proof (cases rule: stopFeeder_cases)
  case (stop t x)
  then show ?thesis using views_relay [OF assms(3), of "WEvent ''feedingStopped'' (now w) ''Feeding stopped'' ''success''"]
    assms(3) by (simp add: views_ok_def relays_ok_def isFeeding_def isRecording_def)
qed (use assms in simp)

lemma stopSpeechRecording_views:
  assumes "stopSpeechRecording w = Inr w'" and "views_ok w" and "relays_ok w"
  shows "views_ok w' \<and> relays_ok w'"
  using assms(1)
proof (cases rule: stopSpeechRecording_cases)
  case (stop t r)
  then show ?thesis using views_relay [OF assms(3),
      of "WEvent ''speechRecordingStopped'' (now w) ''Speech recording stopped'' ''success''"]
    assms(3) by (simp add: views_ok_def relays_ok_def isFeeding_def isRecording_def)
qed (use assms in simp)

lemma startSpeechRecording_views:
  assumes "startSpeechRecording w = Inr w'" and "views_ok w" and "relays_ok w"
  shows "views_ok w' \<and> relays_ok w'"
  using assms views_relay [OF assms(3),
      of "WEvent ''speechRecordingStarted'' (now w) ''Speech recording started'' ''success''"]
  by (auto simp: startSpeechRecording_eq views_ok_def relays_ok_def isFeeding_def isRecording_def)

lemma run_callback_views:
  assumes "run_callback cb w = Inr w'" and "views_ok w" and "relays_ok w"
  shows "views_ok w' \<and> relays_ok w'"
  using assms stopFeeder_views [of w w'] stopSpeechRecording_views [of w w'] by (cases cb) simp_all

lemma fire_one_views [simp]:
  "views_ok (fire_one x w) = views_ok w" "relays_ok (fire_one x w) = relays_ok w"
  by (simp_all add: views_ok_def relays_ok_def fire_one_def isFeeding_def isRecording_def)

lemma fire_due_views:
  "fire_due target w = Inr w' \<Longrightarrow> views_ok w \<Longrightarrow> relays_ok w \<Longrightarrow> views_ok w' \<and> relays_ok w'"
proof (induction target w rule: fire_due.induct)
  case (1 target w)
  show ?case
  proof (cases "due_timer target (timers w)")
    case None
    with "1.prems" show ?thesis
      by (auto simp: fire_due.simps [of target w] views_ok_def relays_ok_def isFeeding_def isRecording_def)
  next
    case (Some x)
    with "1.prems" obtain w1 where cb: "run_callback (t_cb x) (fire_one x w) = Inr w1"
      and rest: "fire_due target w1 = Inr w'"
      by (auto simp: fire_due.simps [of target w] split: sum.splits)
    have "views_ok w1 \<and> relays_ok w1" using run_callback_views [OF cb] "1.prems"(2,3) by simp
    then show ?thesis using "1.IH" [OF Some cb rest] by simp
  qed
qed

lemma views_info_all:
  "list_all (\<lambda>(s, inbox). last_info inbox = Some (a, b)) (deliver [WInfo d a b] ss)"
  by (induction ss) (auto simp: last_info_append)

lemma emit_other_views [simp]:
  "views_ok (w\<lparr>emitted := es\<rparr>) = views_ok w" "relays_ok (w\<lparr>emitted := es\<rparr>) = relays_ok w"
  by (simp_all add: views_ok_def relays_ok_def isFeeding_def isRecording_def)

lemma sys_step_views:
  assumes "sys_step w i = Inr w'" and "views_ok w" and "relays_ok w"
  shows "views_ok w' \<and> relays_ok w'"
proof (cases i)
  case Connect
  with assms show ?thesis
    using views_info_all [of "\<not> isFeeding w" "\<not> isRecording w" "now w" "sockets w @ [(next_id w, [])]"]
    by (auto simp: onSocketConnected_eq views_ok_def relays_ok_def isFeeding_def isRecording_def)
next
  case (Disconnect s)
  with assms show ?thesis
    by (auto simp: onSocketDisconnected_def views_ok_def relays_ok_def list_all_iff
        isFeeding_def isRecording_def)
next
  case (Advance d)
  with assms show ?thesis using fire_due_views [of "now w + d" w w'] by simp
next
  case (CmdStartFeeding s)
  with assms show ?thesis using startFeeder_views [of w w'] by (auto simp: onStartFeeding_def split: if_splits)
next
  case (CmdStartSpeechRecording s)
  with assms show ?thesis
    using startSpeechRecording_views [of w w'] by (auto simp: onStartSpeechRecording_def split: if_splits)
next
  case (SpeechData r d)
  with assms show ?thesis
    using startFeeder_views [of "w\<lparr>emitted := emitted w @ [SpeechRecordingRecognized]\<rparr>" w']
    by (auto split: if_splits dest!: speech_on_data_Inr)
next
  case (CameraRead f b)
  from assms(1) CameraRead have "camera_on_read f b w = Inr w'" by simp
  then show ?thesis
  proof (cases rule: camera_on_read_cases)
    case (frame data)
    then show ?thesis using views_relay [OF assms(3),
        of "WImage (now w) (Some (base64_encode data)) ''New frame received'' ''success''"] assms(3)
      by (simp add: views_ok_def relays_ok_def info_wire_def isFeeding_def isRecording_def)
  qed (use assms in simp)
qed (use assms in \<open>auto simp: boardReady_def views_ok_def relays_ok_def isFeeding_def isRecording_def
      split: if_splits\<close>)

lemma reachable_views: "reachable w \<Longrightarrow> views_ok w \<and> relays_ok w"
proof (induction rule: reachable.induct)
  case (init c)
  then show ?case by (simp add: init_world_def startTimelapse_def views_ok_def relays_ok_def)
next
  case (step w i w')
  then show ?case using sys_step_views by blast
qed


lemma mem_deliver:
  "(s, x) \<in> set (deliver ms ss) \<Longrightarrow> \<exists>y. x = y @ ms \<and> (s, y) \<in> set ss"
  by (induction ss) auto

end
