(* ===== verification/App.thy ===== *)
theory App
  imports Prelude
begin

text \<open>
  The HTTP side of the process: the Express application of \<open>src/app.js\<close> and the router
  of \<open>src/routes/index.js\<close>. A request runs through the middleware stack in the order
  of the \<open>app.use\<close> calls. Logging (\<open>morgan\<close>), compression, the security headers of
  \<open>helmet\<close> and cookie parsing pass every request on and are not modelled.
  \<open>express.json()\<close> parses a JSON body and passes a parse error (status 400) to the error
  handler; \<open>express.static\<close> serves an existing file to a \<open>GET\<close> or \<open>HEAD\<close> request
  and lets every other request fall through; the \<open>/vendor\<close> mount strips its prefix and
  tries the three vendor directories in order; the locals middleware sets the
  application's name, description and version; the router renders \<open>index\<close> for
  \<open>GET /\<close> (Express routes a \<open>HEAD\<close> to the \<open>GET\<close> handler); everything else becomes a
  404 error, and the error handler renders the \<open>error\<close> view with the error's status
  (500 when it has none), its message, and the error object only in development.
\<close>

section \<open>Requests, responses and configuration\<close>

datatype body = NoBody | JsonBody "string option" | FormBody
  \<comment> \<open>\<open>JsonBody (Some m)\<close>: a JSON body that does not parse, with the parser's message\<close>

record request =
  req_method :: string
  req_path :: string
  req_body :: body

record http_error =
  err_status :: "nat option"
  err_message :: string

record locals =
  appDescription :: "string option"
  appName :: "string option"
  appVersion :: "string option"
  message :: "string option"
  error :: "http_error option"

datatype response =
    SendFile string string  \<comment> \<open>directory and path of the file sent\<close>
  | Render nat string locals  \<comment> \<open>status, view, locals\<close>

record app_config =
  app_description :: string
  app_name :: string
  app_version :: string
  app_env :: string              \<comment> \<open>\<open>req.app.get("env")\<close>, from \<open>NODE_ENV\<close>\<close>
  public_files :: "string list"   \<comment> \<open>paths of the files under \<open>src/public\<close>\<close>
  vendor_dirs :: "(string \<times> string list) list"  \<comment> \<open>jquery, muicss, socket.io-client dist\<close>

section \<open>Middleware\<close>

definition no_locals :: locals where
  "no_locals = \<lparr>appDescription = None, appName = None, appVersion = None, message = None, error = None\<rparr>"

definition json_parser :: "request \<Rightarrow> http_error option" where
  "json_parser req = (case req_body req of
     JsonBody (Some m) \<Rightarrow> Some \<lparr>err_status = Some 400, err_message = m\<rparr>
   | _ \<Rightarrow> None)"

definition is_get :: "request \<Rightarrow> bool" where
  "is_get req \<longleftrightarrow> req_method req = ''GET'' \<or> req_method req = ''HEAD''"

definition serve_static :: "string \<Rightarrow> string list \<Rightarrow> string \<Rightarrow> request \<Rightarrow> response option" where
  "serve_static dir fs p req = (if is_get req \<and> p \<in> set fs then Some (SendFile dir p) else None)"

text \<open>Express matches mount paths without regard to case (its \<open>caseSensitive\<close> option
  is off by default); the fold of the model is the ASCII one.\<close>

definition fold_case :: "char \<Rightarrow> char" where
  "fold_case c = (if (65 :: nat) \<le> of_char c \<and> of_char c \<le> (90 :: nat) then char_of (of_char c + (32 :: nat)) else c)"

fun drop_prefix :: "string \<Rightarrow> string \<Rightarrow> string option" where
  "drop_prefix [] ys = Some ys"
| "drop_prefix (x # xs) [] = None"
| "drop_prefix (x # xs) (y # ys) = (if fold_case x = fold_case y then drop_prefix xs ys else None)"

definition mount_path :: "string \<Rightarrow> string \<Rightarrow> string option" where
  "mount_path m p = (case drop_prefix m p of
     None \<Rightarrow> None
   | Some [] \<Rightarrow> Some ''/''
   | Some (c # cs) \<Rightarrow> if c = CHR ''/'' then Some (c # cs) else None)"

fun serve_first :: "(string \<times> string list) list \<Rightarrow> string \<Rightarrow> request \<Rightarrow> response option" where
  "serve_first [] p req = None"
| "serve_first ((d, fs) # ds) p req =
     (case serve_static d fs p req of Some r \<Rightarrow> Some r | None \<Rightarrow> serve_first ds p req)"

definition serve_vendor :: "app_config \<Rightarrow> request \<Rightarrow> response option" where
  "serve_vendor cfg req = (case mount_path ''/vendor'' (req_path req) of
     None \<Rightarrow> None
   | Some p \<Rightarrow> serve_first (vendor_dirs cfg) p req)"

definition app_locals :: "app_config \<Rightarrow> locals" where
  "app_locals cfg = no_locals\<lparr>appDescription := Some (app_description cfg),
     appName := Some (app_name cfg), appVersion := Some (app_version cfg)\<rparr>"

definition route_index :: "request \<Rightarrow> bool" where
  "route_index req \<longleftrightarrow> is_get req \<and> req_path req = ''/''"

definition error_handler :: "app_config \<Rightarrow> locals \<Rightarrow> http_error \<Rightarrow> response" where
  "error_handler cfg loc err =
     Render (case err_status err of Some s \<Rightarrow> s | None \<Rightarrow> 500) ''error''
       (loc\<lparr>message := Some (err_message err),
            error := (if app_env cfg = ''development'' then Some err else None)\<rparr>)"

definition not_found :: http_error where
  "not_found = \<lparr>err_status = Some 404, err_message = ''Not Found''\<rparr>"

definition handle_request :: "app_config \<Rightarrow> request \<Rightarrow> response" where
  "handle_request cfg req =
     (case json_parser req of
        Some err \<Rightarrow> error_handler cfg no_locals err
      | None \<Rightarrow>
          (case serve_static ''public'' (public_files cfg) (req_path req) req of
             Some r \<Rightarrow> r
           | None \<Rightarrow>
               (case serve_vendor cfg req of
                  Some r \<Rightarrow> r
                | None \<Rightarrow>
                    (let loc = app_locals cfg
                     in if route_index req then Render 200 ''index'' loc
                        else error_handler cfg loc not_found))))"

section \<open>Lemmas\<close>

lemma error_handler_error:
  "error_handler cfg loc err = Render st v l \<Longrightarrow>
     v = ''error'' \<and> error l = (if app_env cfg = ''development'' then Some err else None)"
  by (auto simp: error_handler_def)

lemma serve_static_SendFile: "serve_static d fs p req = Some r \<Longrightarrow> \<exists>q. r = SendFile d q"
  by (auto simp: serve_static_def split: if_splits)

lemma serve_first_SendFile: "serve_first ds p req = Some r \<Longrightarrow> \<exists>d q. r = SendFile d q"
  by (induction ds p req rule: serve_first.induct) (auto split: option.splits dest: serve_static_SendFile)

lemma serve_vendor_SendFile: "serve_vendor cfg req = Some r \<Longrightarrow> \<exists>d q. r = SendFile d q"
  by (auto simp: serve_vendor_def split: option.splits dest: serve_first_SendFile)


lemma serve_first_find:
  "is_get req \<Longrightarrow>
   serve_first ds p req = map_option (\<lambda>(d, fs). SendFile d p) (find (\<lambda>(d, fs). p \<in> set fs) ds)"
  by (induction ds p req rule: serve_first.induct) (simp_all add: serve_static_def)

end
