(* ===== verification/Express.thy ===== *)
theory Express
  imports App
begin

text \<open>
  The middleware stack of \<open>src/app.js\<close> as Express keeps it: a list of layers, one per
  function given to \<open>app.use\<close>, in the order of the calls, each with the path it is
  mounted on. \<open>app.use("/vendor", [a, b, c])\<close> flattens its array into three layers
  mounted on \<open>/vendor\<close>; \<open>app.use(fn)\<close> and \<open>app.use("/", router)\<close> mount on the root,
  which every path matches. Express runs the layers in order, threading the response
  locals and the error passed to \<open>next\<close>: a layer whose mount path does not match is
  skipped with the path unchanged; a matching layer sees the path without the mount
  prefix and either ends the request with a response, calls \<open>next()\<close>, or calls
  \<open>next(err)\<close>. While an error is pending only error handlers (the middleware with four
  parameters) run, and an error handler is skipped while none is pending. A request
  that runs off the end of the stack goes to Express's final handler, the value
  \<open>None\<close> here.

  The main lemma shows that the application handler \<^theory_text>\<open>App\<close> defines directly,
  \<open>handle_request\<close>, is what Express computes from this stack.
\<close>

section \<open>Layers\<close>

datatype handler =
    Morgan        \<comment> \<open>\<open>morgan("short", ...)\<close>: logs, calls \<open>next()\<close>\<close>
  | Compression   \<comment> \<open>\<open>compression()\<close>: wraps the response, calls \<open>next()\<close>\<close>
  | Helmet        \<comment> \<open>\<open>helmet()\<close>: sets security headers, calls \<open>next()\<close>\<close>
  | CookieParser  \<comment> \<open>\<open>cookieParser()\<close>: parses the cookie header, calls \<open>next()\<close>\<close>
  | JsonParser    \<comment> \<open>\<open>express.json()\<close>\<close>
  | UrlEncoded    \<comment> \<open>\<open>express.urlencoded({extended: false})\<close>: calls \<open>next()\<close>\<close>
  | Static string "string list"  \<comment> \<open>\<open>express.static(dir)\<close> with the files under \<open>dir\<close>\<close>
  | SetLocals     \<comment> \<open>the locals middleware of lines 96 to 101\<close>
  | Router        \<comment> \<open>\<open>require("./routes")\<close>\<close>
  | CatchNotFound \<comment> \<open>the middleware of lines 107 to 109\<close>
  | ErrorHandler  \<comment> \<open>the error handler of lines 113 to 121\<close>

type_synonym layer = "string option \<times> handler"
  \<comment> \<open>mount path (\<open>None\<close>: the root) and handler\<close>

text \<open>What a layer does with the request: end it, or call \<open>next\<close> with the (possibly
  updated) locals and the pending error.\<close>

datatype outcome = Respond response | Next locals "http_error option"

definition app_stack :: "app_config \<Rightarrow> layer list" where
  "app_stack ac =
     [(None, Morgan), (None, Compression), (None, Helmet), (None, CookieParser),
      (None, JsonParser), (None, UrlEncoded), (None, Static ''public'' (public_files ac))]
     @ map (\<lambda>(d, fs). (Some ''/vendor'', Static d fs)) (vendor_dirs ac)
     @ [(None, SetLocals), (None, Router), (None, CatchNotFound), (None, ErrorHandler)]"

fun is_error_handler :: "handler \<Rightarrow> bool" where
  "is_error_handler ErrorHandler = True"
| "is_error_handler _ = False"

fun handler_step :: "app_config \<Rightarrow> handler \<Rightarrow> request \<Rightarrow> locals \<Rightarrow> outcome" where
  "handler_step ac JsonParser req loc = Next loc (json_parser req)"
| "handler_step ac (Static d fs) req loc =
     (case serve_static d fs (req_path req) req of Some r \<Rightarrow> Respond r | None \<Rightarrow> Next loc None)"
| "handler_step ac SetLocals req loc =
     Next (loc\<lparr>appDescription := Some (app_description ac), appName := Some (app_name ac),
               appVersion := Some (app_version ac)\<rparr>) None"
| "handler_step ac Router req loc =
     (if route_index req then Respond (Render 200 ''index'' loc) else Next loc None)"
| "handler_step ac CatchNotFound req loc = Next loc (Some not_found)"
| "handler_step ac _ req loc = Next loc None"

text \<open>Express's dispatch of one matching layer: the error handler runs only while an
  error is pending and ends the request with the error page; every other layer runs
  only while none is pending.\<close>

definition layer_step ::
  "app_config \<Rightarrow> handler \<Rightarrow> request \<Rightarrow> locals \<Rightarrow> http_error option \<Rightarrow> outcome" where
  "layer_step ac h req loc e =
     (case e of
        None \<Rightarrow> (if is_error_handler h then Next loc None else handler_step ac h req loc)
      | Some err \<Rightarrow> (if is_error_handler h then Respond (error_handler ac loc err) else Next loc e))"

fun layer_path :: "string option \<Rightarrow> string \<Rightarrow> string option" where
  "layer_path None p = Some p"
| "layer_path (Some m) p = mount_path m p"

fun express_run ::
  "app_config \<Rightarrow> layer list \<Rightarrow> request \<Rightarrow> locals \<Rightarrow> http_error option \<Rightarrow> response option" where
  "express_run ac [] req loc e = None"
| "express_run ac ((m, h) # ls) req loc e =
     (case layer_path m (req_path req) of
        None \<Rightarrow> express_run ac ls req loc e
      | Some p \<Rightarrow>
          (case layer_step ac h (req\<lparr>req_path := p\<rparr>) loc e of
             Respond r \<Rightarrow> Some r
           | Next loc' e' \<Rightarrow> express_run ac ls req loc' e'))"

definition app_dispatch :: "app_config \<Rightarrow> request \<Rightarrow> response option" where
  "app_dispatch ac req = express_run ac (app_stack ac) req no_locals None"

section \<open>Running a stack\<close>

text \<open>While an error is pending, a part of the stack without error handlers passes it on.\<close>

lemma express_run_skip:
  assumes "\<forall>(m, h) \<in> set xs. \<not> is_error_handler h"
  shows "express_run ac (xs @ ys) req loc (Some err) = express_run ac ys req loc (Some err)"
  using assms
  by (induction xs) (auto simp: layer_step_def split: option.splits)

text \<open>The three vendor layers: the first directory that has the file under the mount
  ends the request, as \<open>serve_vendor\<close> does; otherwise the request goes on.\<close>

lemma express_run_vendor:
  "express_run ac (map (\<lambda>(d, fs). (Some ''/vendor'', Static d fs)) ds @ ys) req loc None =
     (case (case mount_path ''/vendor'' (req_path req) of None \<Rightarrow> None
            | Some p \<Rightarrow> serve_first ds p req) of
        Some r \<Rightarrow> Some r
      | None \<Rightarrow> express_run ac ys req loc None)"
  by (induction ds) (auto simp: layer_step_def serve_static_def is_get_def split: option.splits)

section \<open>The stack implements the handler\<close>

text \<open>
  The stack of \<open>src/app.js\<close>, run the way Express runs it, answers every request, with
  the response of \<open>handle_request\<close>: no request reaches Express's final handler.
\<close>

lemma stack_implements_handler: "app_dispatch ac req = Some (handle_request ac req)"
proof -
  let ?ds = "map (\<lambda>(d, fs). (Some ''/vendor'', Static d fs)) (vendor_dirs ac)"
  let ?tl = "[(None, SetLocals), (None, Router), (None, CatchNotFound), (None, ErrorHandler)]"
  have skip: "\<forall>(m, h) \<in> set ?ds. \<not> is_error_handler h" by auto
  show ?thesis
  proof (cases "json_parser req")
    case (Some err)
    then show ?thesis
      using express_run_skip [OF skip, of ac ?tl req no_locals err]
      by (simp add: app_dispatch_def app_stack_def handle_request_def layer_step_def)
  next
    case None
    then show ?thesis
      by (simp add: app_dispatch_def app_stack_def handle_request_def layer_step_def
          express_run_vendor serve_vendor_def app_locals_def no_locals_def
          split: option.splits)
  qed
qed

end
