(* ===== verification/SpeechLive.thy ===== *)
theory SpeechLive
  imports Invariants
begin

text \<open>
  The recording side of the timing argument. \<open>speech_deadline_ok\<close> says that the
  timer handle \<open>speech.js\<close> holds in \<open>timer\<close> names a pending timer due within the
  configured speech time; it holds in every reachable state. When time passes, the
  event loop leaves the recorder's \<open>timer\<close> alone or clears it, and when it clears it,
  the microphone of the current recording is stopped.
\<close>

definition speech_deadline_ok :: "world \<Rightarrow> bool" where
  "speech_deadline_ok w \<longleftrightarrow>
     pred_option (\<lambda>t. \<exists>x \<in> set (timers w). t_id x = t
                       \<and> t_due x \<le> now w + timer_delay (cfg_speech_timer (cfg w)))
       (speech_timer w)"

section \<open>The event loop and the recorder\<close>

lemma run_callback_speech:
  assumes "run_callback cb w = Inr w'"
  shows "speech_timer w' = speech_timer w
    \<or> speech_timer w' = None \<and> (\<forall>r. recording w = Some r \<longrightarrow> r \<notin> set (mics w'))"
proof (cases cb)
  case StopFeederCb
  with assms show ?thesis by (simp add: stopFeeder_frame(2))
next
  case StopSpeechCb
  with assms have "stopSpeechRecording w = Inr w'" by simp
  then show ?thesis by (cases rule: stopSpeechRecording_cases) auto
qed

lemma fire_due_speech:
  "fire_due target w = Inr w' \<Longrightarrow> speech_timer w' = speech_timer w
    \<or> speech_timer w' = None \<and> (\<forall>r. recording w = Some r \<longrightarrow> r \<notin> set (mics w'))"
proof (induction target w rule: fire_due.induct)
  case (1 target w)
  show ?case
  proof (cases "due_timer target (timers w)")
    case None
    with "1.prems" show ?thesis by (auto simp: fire_due.simps [of target w])
  next
    case (Some x)
    with "1.prems" obtain w1 where cb: "run_callback (t_cb x) (fire_one x w) = Inr w1"
      and rest: "fire_due target w1 = Inr w'"
      by (auto simp: fire_due.simps [of target w] split: sum.splits)
    have fr: "loop_frame w1 w'" by (rule fire_due_frame [OF rest])
    have rec: "recording w1 = recording w"
      using run_callback_frame [OF cb] by (simp add: loop_frame_def fire_one_def)
    from run_callback_speech [OF cb] show ?thesis
    proof
      assume "speech_timer w1 = speech_timer (fire_one x w)"
      with "1.IH" [OF Some cb rest] rec fr show ?thesis
        by (auto simp: fire_one_def loop_frame_def)
    next
      assume s: "speech_timer w1 = None \<and>
        (\<forall>r. recording (fire_one x w) = Some r \<longrightarrow> r \<notin> set (mics w1))"
      with "1.IH" [OF Some cb rest] fr show ?thesis
        by (auto simp: fire_one_def loop_frame_def)
    qed
  qed
qed

section \<open>The deadline of the current recording\<close>

lemma speech_deadline_mono:
  assumes "speech_deadline_ok w" and "speech_timer w' = speech_timer w" and "cfg w' = cfg w"
    and "now w \<le> now w'" and "set (timers w) \<subseteq> set (timers w')"
  shows "speech_deadline_ok w'"
  using assms by (fastforce simp: speech_deadline_ok_def)

lemma fire_due_deadline:
  assumes "core_inv w" and "speech_deadline_ok w" and "now w \<le> target"
    and "fire_due target w = Inr w'"
  shows "speech_deadline_ok w'"
proof -
  from fire_due_core [OF assms(1,3)] assms(4) have inv': "core_inv w'" and fr: "loop_frame w w'"
    by auto
  from fire_due_speech [OF assms(4)] show ?thesis
  proof
    assume st: "speech_timer w' = speech_timer w"
    show ?thesis
    proof (cases "speech_timer w")
      case (Some t)
      with st inv' obtain x' where x': "x' \<in> set (timers w')" "t_id x' = t"
        by (auto simp: core_inv_def speech_ok_def)
      from Some assms(2) obtain x where x: "x \<in> set (timers w)" "t_id x = t"
        and due: "t_due x \<le> now w + timer_delay (cfg_speech_timer (cfg w))"
        by (auto simp: speech_deadline_ok_def)
      have "x' \<in> set (timers w)" using x'(1) fr by (auto simp: loop_frame_def)
      then have "x' = x"
        using x x'(2) assms(1) distinct_ids_eq [of "timers w" x' x] by (simp add: core_inv_def ids_ok_def)
      with x' due st Some fr show ?thesis by (auto simp: speech_deadline_ok_def loop_frame_def)
    qed (use st in \<open>simp add: speech_deadline_ok_def\<close>)
  next
    assume "speech_timer w' = None \<and> (\<forall>r. recording w = Some r \<longrightarrow> r \<notin> set (mics w'))"
    then show ?thesis by (simp add: speech_deadline_ok_def)
  qed
qed

lemma startFeeder_deadline:
  "startFeeder w = Inr w' \<Longrightarrow> speech_deadline_ok w \<Longrightarrow> speech_deadline_ok w'"
  by (erule startFeeder_cases) (auto intro: speech_deadline_mono)

lemma sys_step_deadline:
  assumes "core_inv w" and "speech_deadline_ok w" and "sys_step w i = Inr w'"
  shows "speech_deadline_ok w'"
proof (cases i)
  case (Advance d)
  with assms show ?thesis using fire_due_deadline [of w "now w + d" w'] by simp
next
  case (CmdStartFeeding s)
  with assms show ?thesis by (auto simp: onStartFeeding_def split: if_splits intro: startFeeder_deadline)
next
  case (CmdStartSpeechRecording s)
  with assms show ?thesis
    by (auto simp: onStartSpeechRecording_def startSpeechRecording_eq speech_deadline_ok_def
        speech_timer_entry_def split: if_splits)
next
  case (SpeechData r d)
  with assms show ?thesis
    using startFeeder_deadline [of "w\<lparr>emitted := emitted w @ [SpeechRecordingRecognized]\<rparr>" w']
    by (auto split: if_splits dest!: speech_on_data_Inr simp: speech_deadline_ok_def)
next
  case (CameraRead f b)
  with assms show ?thesis by (auto elim!: camera_on_read_cases simp: speech_deadline_ok_def)
qed (use assms in \<open>auto simp: onSocketConnected_eq onSocketDisconnected_def boardReady_def
      speech_deadline_ok_def split: if_splits\<close>)

lemma reachable_deadline: "reachable w \<Longrightarrow> speech_deadline_ok w"
proof (induction rule: reachable.induct)
  case (init c)
  then show ?case by (simp add: init_world_def startTimelapse_def speech_deadline_ok_def)
next
  case (step w i w')
  then show ?case using sys_step_deadline reachable_core_inv by blast
qed

end
