(* ===== verification/Spec2Isabelle.thy ===== *)
theory Spec2Isabelle
  imports FeederSpec SpeechSpec Views Express SpeechLive
begin

text \<open>
  \<^bold>\<open>node-rpi-feeder, verified model.\<close> The program is a Raspberry Pi pet feeder. A servo
  opens a feed gate for a configured time. A microphone session listens for a spoken
  hotword that starts feeding. A camera timelapse streams frames. Browsers connected
  over Socket.IO see the events and send commands. All of it runs on one Node thread:
  every event (a board, socket, timer, stream or camera callback) runs to completion
  before the next.

  \<^bold>\<open>Parts and theories.\<close>
  \<^item> \<^theory_text>\<open>Prelude\<close>: handle types (\<open>tid\<close>, \<open>rid\<close>, \<open>sid\<close>), \<open>byte = 8 word\<close>, the
    \<open>frame_simps\<close> collection, and generic list, option, byte and iteration lemmas.
  \<^item> \<^theory_text>\<open>World\<close>: the whole process state as the record \<open>world\<close>. It holds the closure
    variables of \<open>src/raspi/gpio.js\<close> and \<open>speech.js\<close> (\<open>servo\<close>, \<open>timer\<close>,
    \<open>recording\<close>), the Node timers, the emitter's listeners and emit history, the
    connected sockets with everything each received, and the frame files on disk. It
    also holds Node's \<open>setTimeout\<close>/\<open>clearTimeout\<close>, with the delay clamped to
    \<open>[1, 2147483647]\<close> as Node does.
  \<^item> \<^theory_text>\<open>EventBus\<close>: \<open>EventEmitter.emit\<close> of \<open>src/raspi/index.js\<close> (\<open>ee_emit\<close>).
    Listeners run in registration order; an exception stops the emit.
  \<^item> \<^theory_text>\<open>Notify\<close>: \<open>io.emit\<close>, \<open>updateInfo\<close> and the five relay listeners of
    \<open>src/io.js\<close>. \<open>emit_relay\<close> is \<open>emitter.emit\<close> of a relayed event.
  \<^item> \<^theory_text>\<open>Gpio\<close>: \<open>boardReady\<close>, \<open>startFeeder\<close> and \<open>stopFeeder\<close> of \<open>gpio.js\<close>.
    \<^theory_text>\<open>Speech\<close>: \<open>startSpeechRecording\<close>, \<open>stopSpeechRecording\<close>, the data
    listener \<open>speech_on_data\<close> and the transcript normalisation \<open>trim().toLowerCase()\<close>.
    \<^theory_text>\<open>Base64\<close> and \<^theory_text>\<open>Camera\<close>: \<open>Buffer.toString("base64")\<close> and the \<open>read\<close> listener of
    \<open>camera.js\<close>.
  \<^item> \<^theory_text>\<open>Facade\<close>: the objects the module factories return, as records of operations:
    \<open>gpio\<close>, \<open>speech\<close>, \<open>camera\<close>, and the facade \<open>raspi\<close> of \<open>src/raspi/index.js\<close> through
    which \<open>io.js\<close> and the start-up call the controllers.
  \<^item> \<^theory_text>\<open>Gateway\<close>: \<open>onSocketConnected\<close>, the socket command handlers and the
    \<open>speechRecordingRecognized\<close> listener of \<open>io.js\<close>.
    \<^theory_text>\<open>Speech\<close> and \<^theory_text>\<open>Camera\<close> also hold the constant arguments the modules pass
    to their libraries: the recognize \<open>request\<close>, the recorder options and the
    \<open>RaspiCam\<close> options.
  \<^item> \<^theory_text>\<open>System\<close>: the process as the deterministic step function
    \<open>sys_step :: world \<Rightarrow> input \<Rightarrow> js_error + world\<close>, where \<open>Inl\<close> is an exception
    that escapes a handler and ends the process. It also defines the event loop
    \<open>fire_due\<close> (time passing runs the due timers in order), runs of inputs, and the
    inductive set \<open>reachable\<close> of states reachable from start-up (\<open>init_world\<close>, the
    factory of \<open>src/raspi/index.js\<close>).
  \<^item> \<^theory_text>\<open>Invariants\<close>: the invariant of the process (\<open>world_inv\<close>), proved for every
    reachable state by rule induction.
  \<^item> \<^theory_text>\<open>SpeechLive\<close>: the deadline of the current recording, an invariant of
    every reachable state, and what the event loop does to the recorder.
  \<^item> \<^theory_text>\<open>FeederSpec\<close>: the spec's feeder machine \<open>Idle/Feeding\<close> (\<open>feeder_astep\<close>)
    and the simulation of the program's feeder by it.
  \<^item> \<^theory_text>\<open>SpeechSpec\<close>: the recorder's machine as the code implements it
    (\<open>speech_astep\<close>, with an unguarded start), the simulation of every step by it,
    and the shape of the start/stop log it keeps.
  \<^item> \<^theory_text>\<open>Client\<close>: the browser page of \<open>src/public/js/main.js\<close>. \<^theory_text>\<open>Views\<close>
    composes it with the server.
  \<^item> \<^theory_text>\<open>App\<close>: the Express application of \<open>src/app.js\<close> and \<open>src/routes/index.js\<close>
    as one function from request to response (\<open>handle_request\<close>).
    \<^theory_text>\<open>Express\<close>: the same application as Express holds it, the list of layers of
    the \<open>app.use\<close> calls in order (\<open>app_stack\<close>), run by a model of Express's
    dispatch with \<open>next()\<close> and \<open>next(err)\<close> (\<open>express_run\<close>); a lemma checks that
    it agrees with \<open>handle_request\<close>, on which the properties are stated.

  \<^bold>\<open>Properties\<close> (this theory, except C10 to C12 in \<^theory_text>\<open>Base64\<close>):
  \<^item> Feeder: single flight (C1); gate and stop timer consistent (C2); the gate closes
    within the configured time (C3) and actually does when time passes (C4). A
    recording likewise ends when its time has passed (C28).
  \<^item> Refinement of the spec's machine (C8) and the order of feeder events (C9). The
    recorder never publishes a stop twice (C30).
  \<^item> Errors: the only escaping exception is \<open>servo.max()\<close> before the board is ready
    (C5, C18). Camera read errors are ignored and the file is left on disk (C13).
  \<^item> The unguarded speech restart, its leaked microphone and its stale timer, which
    cuts the next session short for every configuration (C6, C7, C26). A hotword
    delivered on a stream whose session has stopped still feeds (C27).
  \<^item> Base64: round trip, exact length, and the RFC 4648 alphabet with padding only at
    the end (C10 to C12); the frame relay (C14) and its display in every browser (C31).
  \<^item> Listener accumulation (C15).
  \<^item> The spec's one-client scenario for every configuration in Node's timer range
    (C16); hotword handling (C17), and hotwords that are not normalised never
    trigger (C20).
  \<^item> The camera capture runs from start-up until the raspistill process exits and is
    never restarted (C19).
  \<^item> Every browser's buttons reflect the global state (C21).
  \<^item> The HTTP application: index page, error details hidden outside development,
    404, rejection of malformed JSON, static files first and vendor directories in
    order (C22 to C25, C32, C33).
  \<^item> Boundaries: a feeder time outside Node's timer range closes the gate after 1 ms
    (C29).
  A property with a hypothesis is followed by a witness that applies it to a state
  reached by a concrete run from \<open>init_world demo_cfg\<close>, or to a concrete request.

  \<^bold>\<open>Bounds and loops.\<close> No fuel is used. \<open>fire_due\<close> is a \<open>function\<close> whose
  termination measure is the number of pending timers. Each round removes the fired
  timer, and neither callback creates one (the termination proof of \<open>fire_due\<close>). Time is an
  unbounded \<open>nat\<close> of milliseconds; JavaScript numbers do not overflow in the ranges
  used. The timer delay is clamped as Node clamps it.

  \<^bold>\<open>Not modelled.\<close>
  \<^item> The hardware and cloud libraries are opaque. johnny-five's servo is the position
    it was last sent. The sox recorder is a handle. The Google streaming recognizer is
    the data and error events of its stream. raspicam is its \<open>read\<close>, \<open>start\<close>,
    \<open>exit\<close> and \<open>stop\<close> events; \<open>exit\<close> means the raspistill process ended.
    Their listeners, like the error listeners of the two speech streams, only log.
  \<^item> Logging, the configuration loader, and the pug views (not under \<open>src/\<close>) are not
    modelled.
  \<^item> Of the HTTP stack, morgan, compression, helmet, cookie-parser and the
    urlencoded parser are layers that call \<open>next()\<close>: their logging, headers,
    encoding and parsed cookies are not part of the response model.
  \<^item> \<open>path.join\<close> is a join with one separator.
  \<^item> The camera's \<open>read\<close> listener, its \<open>fs.readFile\<close> callback and the \<open>fs.unlink\<close> it
    starts are one step, and the unlink always succeeds: its failure is only logged by
    the code (\<open>camera.js\<close> lines 88 to 90) and would leave the file on disk.
  \<^item> \<open>express.static\<close> serves listed files only: its directory index and trailing-slash
    redirect are not modelled, nor the 413 and 415 errors of the body parsers. Mount
    paths match without regard to ASCII case, as in Express.
  \<^item> Timers due at the same instant fire in creation order. Node guarantees this for
    timers of the same delay; for different delays its order may differ.
  \<^item> Socket.IO's removal of a socket on disconnect (\<open>onSocketDisconnected\<close>) is
    library behaviour: \<open>src/io.js\<close> has no disconnect handler.
\<close>

section \<open>Concrete configuration and states\<close>

definition demo_cfg :: config where
  "demo_cfg = \<lparr>cfg_feeder_timer = 5000, cfg_speech_timer = 10000, cfg_hotwords = [''feed''],
     cfg_output_dir = ''/home/pi/frames'', cfg_timelapse_interval = 1000,
     cfg_speech_device = ''plughw:1,0''\<rparr>"

text \<open>States reached by concrete runs, used by the witnesses below.\<close>

definition demo_feeding :: world where
  "demo_feeding = projr (run (init_world demo_cfg) [BoardReady, Connect, CmdStartFeeding 0])"

definition demo_unready :: world where
  "demo_unready = projr (run (init_world demo_cfg) [Connect])"

definition demo_recording :: world where
  "demo_recording = projr (run (init_world demo_cfg) [Connect, CmdStartSpeechRecording 0])"

definition demo_restarted :: world where
  "demo_restarted = projr (run (init_world demo_cfg)
     [Connect, CmdStartSpeechRecording 0, CmdStartSpeechRecording 0])"

definition demo_ready :: world where
  "demo_ready = projr (run (init_world demo_cfg) [BoardReady, Connect, Connect])"

definition demo_frame_path :: string where
  "demo_frame_path = ''/home/pi/frames/image_000001.jpg''"

definition demo_framed :: world where
  "demo_framed = projr (run (init_world demo_cfg) [Connect, FrameWritten demo_frame_path [1, 2, 3, 4]])"

definition demo_app :: app_config where
  "demo_app = \<lparr>app_description = ''Raspberry Pi pet feeder'', app_name = ''node-rpi-feeder'',
     app_version = ''1.0.0'', app_env = ''production'', public_files = [''/js/main.js''],
     vendor_dirs = [(''jquery'', [''/jquery.min.js'']), (''muicss'', [''/css/mui.min.css'']),
                    (''socket.io-client'', [''/socket.io.js''])]\<rparr>"

definition demo_restart_elapsed :: world where
  "demo_restart_elapsed = projr (run (init_world demo_cfg)
     [Connect, CmdStartSpeechRecording 0, CmdStartSpeechRecording 0, Advance 10000])"

definition demo_stopped :: world where
  "demo_stopped = projr (run (init_world demo_cfg)
     [BoardReady, Connect, CmdStartSpeechRecording 0, Advance 10000])"

definition demo_caps :: world where
  "demo_caps = projr (run (init_world (demo_cfg\<lparr>cfg_hotwords := [''Feed'']\<rparr>)) [BoardReady, Connect])"

definition demo_long_cfg :: config where
  "demo_long_cfg = demo_cfg\<lparr>cfg_feeder_timer := 2592000000\<rparr>"

definition demo_long_ready :: world where
  "demo_long_ready = projr (run (init_world demo_long_cfg) [BoardReady, Connect])"

section \<open>Facts shared by the properties\<close>

lemma demo_feeding_reachable: "reachable demo_feeding"
  by (rule reachable_by_run [of demo_cfg "[BoardReady, Connect, CmdStartFeeding 0]"])
    (simp add: demo_feeding_def demo_cfg_def eval_simps)

lemma demo_unready_reachable: "reachable demo_unready"
  by (rule reachable_by_run [of demo_cfg "[Connect]"]) (simp add: demo_unready_def demo_cfg_def eval_simps)

lemma demo_recording_reachable: "reachable demo_recording"
  by (rule reachable_by_run [of demo_cfg "[Connect, CmdStartSpeechRecording 0]"])
    (simp add: demo_recording_def demo_cfg_def eval_simps)

lemma demo_restarted_reachable: "reachable demo_restarted"
  by (rule reachable_by_run [of demo_cfg "[Connect, CmdStartSpeechRecording 0, CmdStartSpeechRecording 0]"])
    (simp add: demo_restarted_def demo_cfg_def eval_simps)

lemma demo_framed_reachable: "reachable demo_framed"
  by (rule reachable_by_run [of demo_cfg "[Connect, FrameWritten demo_frame_path [1, 2, 3, 4]]"])
    (simp add: demo_framed_def demo_frame_path_def demo_cfg_def eval_simps)

lemma demo_ready_reachable: "reachable demo_ready"
  by (rule reachable_by_run [of demo_cfg "[BoardReady, Connect, Connect]"])
    (simp add: demo_ready_def demo_cfg_def eval_simps)

section \<open>The feeder\<close>

text \<open>
  C1. While a feeding session is running, a \<open>startFeeding\<close> command from a browser does
  nothing: no actuator command, no timer, no event, no message; the state is unchanged.
\<close>

theorem feeder_single_flight:
  assumes "isFeeding w"
  shows "sys_step w (CmdStartFeeding s) = Inr w"
  using assms by (simp add: onStartFeeding_def startFeeder_while_feeding)

theorem feeder_single_flight_witness:
  "isFeeding demo_feeding \<and> sys_step demo_feeding (CmdStartFeeding 0) = Inr demo_feeding"
proof -
  have f: "isFeeding demo_feeding"
    by (simp add: demo_feeding_def demo_cfg_def eval_simps)
  show ?thesis using f feeder_single_flight [OF f] by simp
qed

text \<open>
  C2. In every reachable state the gate is open exactly while a feeding session runs, and
  exactly one stop timer of the feeder is pending during a session and none outside one.
\<close>

theorem feeder_gate_consistent:
  assumes "reachable w"
  shows "(isFeeding w \<longleftrightarrow> servo w = Some ServoMax)
    \<and> length (filter (\<lambda>x. t_cb x = StopFeederCb) (timers w)) = (if isFeeding w then 1 else 0)"
  using reachable_feeder_ok [OF assms]
  by (auto simp: feeder_ok_def feeder_stops_def isFeeding_def split: option.splits)

theorem feeder_gate_consistent_witness:
  "(isFeeding demo_feeding \<longleftrightarrow> servo demo_feeding = Some ServoMax)
    \<and> length (filter (\<lambda>x. t_cb x = StopFeederCb) (timers demo_feeding))
        = (if isFeeding demo_feeding then 1 else 0)"
  by (rule feeder_gate_consistent [OF demo_feeding_reachable])

text \<open>
  C3. Whenever the gate is open, the timer that closes it is pending and falls due within
  the configured feeding time (\<open>raspi.feeder.timer\<close>, as Node clamps it) from now.
\<close>

theorem feeder_gate_closes_in_time:
  assumes "reachable w" and "servo w = Some ServoMax"
  shows "\<exists>x \<in> set (timers w). t_cb x = StopFeederCb
           \<and> t_due x \<le> now w + timer_delay (cfg_feeder_timer (cfg w))"
proof -
  have ok: "feeder_ok w" by (rule reachable_feeder_ok [OF assms(1)])
  with assms(2) obtain t where t: "feeder_timer w = Some t"
    by (cases "feeder_timer w") (auto simp: feeder_ok_def)
  from ok t obtain y where y: "feeder_stops w = [y]"
    and due: "t_due y \<le> now w + timer_delay (cfg_feeder_timer (cfg w))"
    by (rule feeder_ok_Some_entry)
  have "y \<in> set (feeder_stops w)" by (simp add: y)
  then have "y \<in> set (timers w)" and "t_cb y = StopFeederCb" by (simp_all add: feeder_stops_def)
  with due show ?thesis by blast
qed

theorem feeder_gate_closes_in_time_witness:
  "reachable demo_feeding \<and> servo demo_feeding = Some ServoMax
   \<and> (\<exists>x \<in> set (timers demo_feeding). t_cb x = StopFeederCb
        \<and> t_due x \<le> now demo_feeding + timer_delay (cfg_feeder_timer (cfg demo_feeding)))"
proof -
  have s: "servo demo_feeding = Some ServoMax" by (simp add: demo_feeding_def demo_cfg_def eval_simps)
  show ?thesis
    using demo_feeding_reachable s feeder_gate_closes_in_time [OF demo_feeding_reachable s] by simp
qed

text \<open>
  C4. A feeding session ends on time: from every reachable state in which the feeder
  runs, letting the configured feeding time pass runs the stop timer, which closes the
  gate, ends the session and emits \<open>feedingStopped\<close> exactly once, and no exception
  escapes the event loop.
\<close>

theorem feeding_ends_on_time:
  assumes "reachable w" and "isFeeding w"
  shows "\<exists>w'. sys_step w (Advance (timer_delay (cfg_feeder_timer (cfg w)))) = Inr w'
     \<and> \<not> isFeeding w' \<and> servo w' = Some ServoMin
     \<and> count_list (emitted w') (Relay FeedingStopped) = Suc (count_list (emitted w) (Relay FeedingStopped))"
proof -
  let ?D = "timer_delay (cfg_feeder_timer (cfg w))"
  have inv: "core_inv w" by (rule reachable_core_inv [OF assms(1)])
  then obtain w' where run: "fire_due (now w + ?D) w = Inr w'" and inv': "core_inv w'"
    and st: "settled w'" and nw: "now w' = now w + ?D" and fr: "loop_frame w w'"
    and cnt: "count_list (emitted w') (Relay FeedingStopped) + length (feeder_stops w')
       = count_list (emitted w) (Relay FeedingStopped) + length (feeder_stops w)"
    using fire_due_core [of w "now w + ?D"] by auto
  obtain t where t: "feeder_timer w = Some t" using assms(2) by (auto simp: isFeeding_def)
  from inv t obtain y where y: "feeder_stops w = [y]" and due: "t_due y \<le> now w + ?D"
    by (auto simp: core_inv_def elim: feeder_ok_Some_entry)
  have "y \<notin> set (timers w')" using st nw due by (auto simp: settled_def)
  then have "y \<notin> set (feeder_stops w')" by (simp add: feeder_stops_def)
  moreover have "set (feeder_stops w') \<subseteq> set (feeder_stops w)"
    using fr by (auto simp: loop_frame_def feeder_stops_def)
  ultimately have none: "feeder_stops w' = []"
    using y subset_singleton_iff [of "set (feeder_stops w')" y] by auto
  then have nf: "feeder_timer w' = None"
    using inv' by (cases "feeder_timer w'") (auto simp: core_inv_def feeder_ok_def)
  have "servo w = Some ServoMax" using inv t by (simp add: core_inv_def feeder_ok_def)
  then have "servo w' \<noteq> None" "servo w' \<noteq> Some ServoMax"
    using fr inv' nf by (auto simp: loop_frame_def core_inv_def feeder_ok_def)
  then have "servo w' = Some ServoMin"
  proof (cases "servo w'")
    case (Some p)
    then show ?thesis using \<open>servo w' \<noteq> Some ServoMax\<close> by (cases p) simp_all
  qed (use \<open>servo w' \<noteq> None\<close> in simp)
  with run nf cnt none y show ?thesis by (auto simp: isFeeding_def)
qed

theorem feeding_ends_on_time_witness:
  "reachable demo_feeding \<and> isFeeding demo_feeding
   \<and> (\<exists>w'. sys_step demo_feeding (Advance (timer_delay (cfg_feeder_timer (cfg demo_feeding)))) = Inr w'
     \<and> \<not> isFeeding w' \<and> servo w' = Some ServoMin
     \<and> count_list (emitted w') (Relay FeedingStopped)
         = Suc (count_list (emitted demo_feeding) (Relay FeedingStopped)))"
proof -
  have f: "isFeeding demo_feeding" by (simp add: demo_feeding_def demo_cfg_def eval_simps)
  show ?thesis using demo_feeding_reachable f feeding_ends_on_time [OF demo_feeding_reachable f] by simp
qed

section \<open>Errors\<close>

text \<open>
  C5. The only exception that escapes an event handler is the \<open>TypeError\<close> of
  \<open>servo.max()\<close> before the board is ready: a feeding request (from a browser or a
  recognised hotword) that arrives before johnny-five's \<open>ready\<close> event crashes the
  process. Every other event of every reachable state is handled without exception.
\<close>

theorem errors_only_before_board_ready:
  assumes "reachable w" and "sys_step w i = Inl e"
  shows "servo w = None \<and> e = TypeError ''Cannot read property max of undefined''"
proof (cases i)
  case (Advance d)
  from fire_due_core [OF reachable_core_inv [OF assms(1)], of "now w + d"] assms(2) Advance
  show ?thesis by auto
next
  case (CmdStartFeeding s)
  with assms(2) show ?thesis by (auto simp: onStartFeeding_def split: if_splits dest: startFeeder_Inl)
next
  case (CmdStartSpeechRecording s)
  with assms(2) startSpeechRecording_Inr [of w] show ?thesis
    by (auto simp: onStartSpeechRecording_def split: if_splits)
next
  case (SpeechData r d)
  with assms(2) have "speech_on_data emit_recognized d w = Inl e" by (simp split: if_splits)
  then have "startFeeder (w\<lparr>emitted := emitted w @ [SpeechRecordingRecognized]\<rparr>) = Inl e"
    by (rule speech_on_data_Inl)
  then show ?thesis by (auto dest: startFeeder_Inl)
next
  case (CameraRead f b)
  with assms(2) camera_on_read_Inr [of f b w] show ?thesis by auto
qed (use assms(2) in auto)

theorem errors_only_before_board_ready_witness:
  "reachable demo_unready \<and> sys_step demo_unready (CmdStartFeeding 0)
     = Inl (TypeError ''Cannot read property max of undefined'')
   \<and> servo demo_unready = None"
proof -
  have st: "sys_step demo_unready (CmdStartFeeding 0) = Inl (TypeError ''Cannot read property max of undefined'')"
    by (simp add: demo_unready_def demo_cfg_def eval_simps)
  show ?thesis using errors_only_before_board_ready [OF demo_unready_reachable st] st demo_unready_reachable
    by simp
qed

section \<open>The recorder\<close>

text \<open>
  C6. \<open>startSpeechRecording\<close> has no single-flight guard: called while a recording
  runs, it opens a second microphone and a second deadline timer and overwrites the
  handles, so the previous recording's microphone stays open but is no longer the one
  \<open>stopSpeechRecording\<close> stops, and its deadline timer stays pending.
\<close>

theorem speech_restart_orphans_session:
  assumes "reachable w" and "isRecording w" and "startSpeechRecording w = Inr w'"
  shows "\<exists>r t. recording w = Some r \<and> speech_timer w = Some t
     \<and> r \<in> set (mics w') \<and> recording w' \<noteq> Some r
     \<and> t \<in> set (map t_id (timers w')) \<and> speech_timer w' \<noteq> Some t \<and> isRecording w'"
proof -
  have inv: "core_inv w" by (rule reachable_core_inv [OF assms(1)])
  obtain t where t: "speech_timer w = Some t" using assms(2) by (auto simp: isRecording_def)
  with inv obtain r x where r: "recording w = Some r" "r \<in> set (mics w)"
    and x: "x \<in> set (timers w)" "t_id x = t"
    by (auto simp: core_inv_def speech_ok_def)
  have "r < next_id w" "t < next_id w"
    using inv r x by (auto simp: core_inv_def ids_ok_def)
  with assms(3) r t x show ?thesis
    by (auto simp: startSpeechRecording_eq isRecording_def image_iff)
qed

theorem speech_restart_orphans_session_witness:
  "reachable demo_recording \<and> isRecording demo_recording
   \<and> startSpeechRecording demo_recording = Inr (projr (startSpeechRecording demo_recording))
   \<and> (\<exists>r t. recording demo_recording = Some r \<and> speech_timer demo_recording = Some t
     \<and> r \<in> set (mics (projr (startSpeechRecording demo_recording)))
     \<and> recording (projr (startSpeechRecording demo_recording)) \<noteq> Some r
     \<and> t \<in> set (map t_id (timers (projr (startSpeechRecording demo_recording))))
     \<and> speech_timer (projr (startSpeechRecording demo_recording)) \<noteq> Some t
     \<and> isRecording (projr (startSpeechRecording demo_recording)))"
proof -
  have rec: "isRecording demo_recording" by (simp add: demo_recording_def demo_cfg_def eval_simps)
  have st: "startSpeechRecording demo_recording = Inr (projr (startSpeechRecording demo_recording))"
    by (simp add: startSpeechRecording_eq)
  show ?thesis
    using demo_recording_reachable rec st speech_restart_orphans_session [OF demo_recording_reachable rec st]
    by simp
qed

text \<open>
  C7. A microphone that is open but no longer the current recording is never closed:
  once \<open>startSpeechRecording\<close> has replaced a recording (C6), no sequence of later
  events stops the old \<open>sox\<close> process.
\<close>

theorem orphaned_microphone_never_closed:
  assumes "reachable w" and "r \<in> set (mics w)" and "recording w \<noteq> Some r"
    and "run w ins = Inr w'"
  shows "r \<in> set (mics w') \<and> recording w' \<noteq> Some r"
  using assms
proof (induction ins arbitrary: w)
  case Nil
  then show ?case by simp
next
  case (Cons i ins)
  from Cons.prems(4) obtain w1 where st: "sys_step w i = Inr w1" and rest: "run w1 ins = Inr w'"
    by (blast dest: run_Inr_step)
  have "r \<in> set (mics w1) \<and> recording w1 \<noteq> Some r"
    by (rule orphan_mic_step [OF reachable_core_inv [OF Cons.prems(1)] Cons.prems(2,3) st])
  with Cons.IH [OF reachable.step [OF Cons.prems(1) st]] rest show ?case by blast
qed

theorem orphaned_microphone_never_closed_witness:
  "reachable demo_restarted \<and> 1 \<in> set (mics demo_restarted) \<and> recording demo_restarted \<noteq> Some 1
   \<and> run demo_restarted [Advance 10000, Advance 10000] = Inr (projr (run demo_restarted [Advance 10000, Advance 10000]))
   \<and> 1 \<in> set (mics (projr (run demo_restarted [Advance 10000, Advance 10000])))"
proof -
  have m: "1 \<in> set (mics demo_restarted)" and r: "recording demo_restarted \<noteq> Some 1"
    by (simp_all add: demo_restarted_def demo_cfg_def eval_simps)
  have run: "run demo_restarted [Advance 10000, Advance 10000]
      = Inr (projr (run demo_restarted [Advance 10000, Advance 10000]))"
    by (simp add: demo_restarted_def demo_cfg_def eval_simps)
  show ?thesis
    using demo_restarted_reachable m r run
      orphaned_microphone_never_closed [OF demo_restarted_reachable m r run] by simp
qed

section \<open>Time and independence\<close>

section \<open>The feeder refines its specification\<close>

text \<open>
  C8. The feeder of the program refines the two-state machine of the spec: the
  abstraction of every reachable state (mode and log of feeder events) is reachable in
  the abstract machine from \<open>Idle\<close> with an empty log, and every event the process
  handles from a reachable state is either invisible to the abstraction or exactly one
  abstract step (a start from \<open>Idle\<close> or an expiry from \<open>Feeding\<close>).
\<close>

theorem feeder_refinement:
  assumes "reachable w"
  shows "feeder_astep\<^sup>*\<^sup>* (Idle, []) (feeder_abs w)
    \<and> (\<forall>i w'. sys_step w i = Inr w' \<longrightarrow>
         feeder_abs w' = feeder_abs w \<or> feeder_astep (feeder_abs w) (feeder_abs w'))"
  using reachable_feeder_areach [OF assms] sys_step_feeder_sim by blast

theorem feeder_refinement_witness:
  "feeder_astep\<^sup>*\<^sup>* (Idle, []) (feeder_abs demo_feeding)
    \<and> sys_step demo_feeding (Advance 5000) = Inr (projr (sys_step demo_feeding (Advance 5000)))
    \<and> (feeder_abs (projr (sys_step demo_feeding (Advance 5000))) = feeder_abs demo_feeding
       \<or> feeder_astep (feeder_abs demo_feeding) (feeder_abs (projr (sys_step demo_feeding (Advance 5000)))))"
proof -
  have st: "sys_step demo_feeding (Advance 5000) = Inr (projr (sys_step demo_feeding (Advance 5000)))"
    by (simp add: demo_feeding_def demo_cfg_def eval_simps)
  show ?thesis using feeder_refinement [OF demo_feeding_reachable] st by blast
qed

text \<open>
  C9. Feeder events are published in the order of the state transitions: in every
  reachable state the history of \<open>feedingStarted\<close>/\<open>feedingStopped\<close> emits is
  started, stopped, started, stopped, ..., ending with an unmatched \<open>feedingStarted\<close>
  exactly while a feeding session runs.
\<close>

theorem feeding_events_alternate:
  assumes "reachable w"
  shows "\<exists>n. feed_log w = concat (replicate n [Relay FeedingStarted, Relay FeedingStopped])
                         @ (if isFeeding w then [Relay FeedingStarted] else [])"
  using feeder_areach_log [OF reachable_feeder_areach [OF assms]]
  by (cases "isFeeding w") (simp_all add: feeder_abs_def)

theorem feeding_events_alternate_witness:
  "\<exists>n. feed_log demo_feeding = concat (replicate n [Relay FeedingStarted, Relay FeedingStopped])
         @ (if isFeeding demo_feeding then [Relay FeedingStarted] else [])"
  by (rule feeding_events_alternate [OF demo_feeding_reachable])

section \<open>Camera frames\<close>

text \<open>
  C13. When reading a frame file fails, the read listener does nothing: no
  \<open>frameLoaded\<close> event, no message, and the file is not unlinked (the whole state,
  disk included, is unchanged).
\<close>

theorem frame_read_error_keeps_file: "sys_step w (CameraRead f True) = Inr w"
  by (simp add: camera_on_read_error)

text \<open>
  C14. When a frame file is read, every connected socket receives the frame as base64
  in an \<open>image\<close> message, followed by a status snapshot, once per registered
  \<open>frameLoaded\<close> relay, and the file is then unlinked.
\<close>

theorem frame_relayed_and_released:
  assumes "files w (join_path (cfg_output_dir (cfg w)) f) = Some data"
  shows "\<exists>w'. sys_step w (CameraRead f False) = Inr w'
     \<and> files w' (join_path (cfg_output_dir (cfg w)) f) = None
     \<and> sockets w' = deliver (concat (replicate (count_list (listeners w) (Relay FrameLoaded))
          [WImage (now w) (Some (base64_encode data)) ''New frame received'' ''success'', info_wire w]))
          (sockets w)"
  using camera_on_read_ok [OF assms] by simp

theorem frame_relayed_and_released_witness:
  "files demo_framed (join_path (cfg_output_dir (cfg demo_framed)) ''image_000001.jpg'') = Some [1, 2, 3, 4]
   \<and> (\<exists>w'. sys_step demo_framed (CameraRead ''image_000001.jpg'' False) = Inr w'
     \<and> files w' (join_path (cfg_output_dir (cfg demo_framed)) ''image_000001.jpg'') = None
     \<and> sockets w' = deliver (concat (replicate (count_list (listeners demo_framed) (Relay FrameLoaded))
          [WImage (now demo_framed) (Some (base64_encode [1, 2, 3, 4])) ''New frame received'' ''success'',
           info_wire demo_framed])) (sockets demo_framed))"
proof -
  have f: "files demo_framed (join_path (cfg_output_dir (cfg demo_framed)) ''image_000001.jpg'') = Some [1, 2, 3, 4]"
    by (simp add: demo_framed_def demo_frame_path_def demo_cfg_def eval_simps)
  show ?thesis using f frame_relayed_and_released [OF f] by simp
qed

section \<open>Connections and relays\<close>

text \<open>
  C15. The emitter listeners only accumulate: a connection appends the six listeners of
  \<open>onSocketConnected\<close>, and no event, a disconnection included, removes any.
\<close>

theorem relays_accumulate:
  assumes "sys_step w i = Inr w'"
  shows "listeners w' = listeners w @ (if i = Connect then io_listeners else [])"
proof (cases i)
  case (Advance d)
  with assms show ?thesis by (auto dest: fire_due_frame simp: loop_frame_def)
next
  case (CmdStartFeeding s)
  with assms show ?thesis by (auto simp: onStartFeeding_def split: if_splits dest: startFeeder_frame(5))
next
  case (CmdStartSpeechRecording s)
  with assms show ?thesis by (auto simp: onStartSpeechRecording_def startSpeechRecording_eq split: if_splits)
next
  case (SpeechData r d)
  with assms show ?thesis
    by (auto split: if_splits dest!: speech_on_data_Inr dest: startFeeder_frame(5))
next
  case (CameraRead f b)
  with assms show ?thesis by (auto dest: camera_on_read_frame(11))
qed (use assms in \<open>auto simp: onSocketConnected_eq onSocketDisconnected_def boardReady_def split: if_splits\<close>)

theorem relays_accumulate_witness:
  "sys_step demo_feeding Connect = Inr (onSocketConnected demo_feeding)
   \<and> listeners (onSocketConnected demo_feeding) = listeners demo_feeding @ io_listeners"
  using relays_accumulate [of demo_feeding Connect "onSocketConnected demo_feeding"] by simp

text \<open>
  C16. The scenario of the spec's section 8 with one client, for every configuration
  whose feeder time is within Node's timer range and for every time span at least as
  long as it: the client receives \<open>info\<close> on connecting, then \<open>feedingStarted\<close> and an
  \<open>info\<close> with feeding not possible, and when the feeder time has elapsed
  \<open>feedingStopped\<close>, stamped with that time, and an \<open>info\<close> with feeding possible
  again, nothing else; the gate is closed at the end.
\<close>

theorem spec_feeding_scenario:
  assumes "1 \<le> cfg_feeder_timer c" and "cfg_feeder_timer c \<le> 2147483647" and "cfg_feeder_timer c \<le> d"
  shows "\<exists>w. run (init_world c) [BoardReady, Connect, CmdStartFeeding 0, Advance d] = Inr w
    \<and> sockets w = [(0, [WInfo 0 True True, WEvent ''feedingStarted'' 0 ''Feeding started'' ''success'',
        WInfo 0 False True,
        WEvent ''feedingStopped'' (cfg_feeder_timer c) ''Feeding stopped'' ''success'',
        WInfo (cfg_feeder_timer c) True True])]
    \<and> servo w = Some ServoMin \<and> \<not> isFeeding w"
  using assms by (simp add: eval_simps)

theorem spec_feeding_scenario_witness:
  "1 \<le> cfg_feeder_timer demo_cfg \<and> cfg_feeder_timer demo_cfg \<le> 2147483647
   \<and> cfg_feeder_timer demo_cfg \<le> 6000
   \<and> (\<exists>w. run (init_world demo_cfg) [BoardReady, Connect, CmdStartFeeding 0, Advance 6000] = Inr w
      \<and> sockets w = [(0, [WInfo 0 True True, WEvent ''feedingStarted'' 0 ''Feeding started'' ''success'',
          WInfo 0 False True, WEvent ''feedingStopped'' 5000 ''Feeding stopped'' ''success'',
          WInfo 5000 True True])]
      \<and> servo w = Some ServoMin \<and> \<not> isFeeding w)"
proof -
  have a: "1 \<le> cfg_feeder_timer demo_cfg" "cfg_feeder_timer demo_cfg \<le> 2147483647"
    "cfg_feeder_timer demo_cfg \<le> 6000" by (simp_all add: demo_cfg_def)
  have t: "cfg_feeder_timer demo_cfg = 5000" by (simp add: demo_cfg_def)
  show ?thesis using a spec_feeding_scenario [OF a] by (simp only: t)
qed

section \<open>Hotwords\<close>

text \<open>
  C17. A transcript whose normalised text is a configured hotword starts the feeder
  exactly once, however many \<open>speechRecordingRecognized\<close> listeners the connections
  have registered: one \<open>speechRecordingRecognized\<close> emit, one \<open>feedingStarted\<close>.
\<close>

theorem hotword_starts_feeder_once:
  assumes "normalize_transcript tr \<in> set (cfg_hotwords (cfg w))"
    and "SpeechRecordingRecognized \<in> set (listeners w)" and "\<not> isFeeding w" and "servo w \<noteq> None"
  shows "\<exists>w'. speech_on_data emit_recognized ((tr # alts) # rest) w = Inr w' \<and> isFeeding w'
    \<and> count_list (emitted w') SpeechRecordingRecognized = Suc (count_list (emitted w) SpeechRecordingRecognized)
    \<and> count_list (emitted w') (Relay FeedingStarted) = Suc (count_list (emitted w) (Relay FeedingStarted))"
proof -
  let ?w = "w\<lparr>emitted := emitted w @ [SpeechRecordingRecognized]\<rparr>"
  have on: "speech_on_data emit_recognized ((tr # alts) # rest) w = startFeeder ?w"
    using assms(1,2) by (simp add: speech_on_data_def emit_recognized_eq)
  obtain x where "servo ?w = Some x" using assms(4) by auto
  moreover have "\<not> isFeeding ?w" using assms(3) by (simp add: isFeeding_def)
  ultimately show ?thesis
    using on by (simp add: startFeeder_start isFeeding_def)
qed

theorem hotword_starts_feeder_once_witness:
  "normalize_transcript '' Feed '' \<in> set (cfg_hotwords (cfg demo_ready))
   \<and> SpeechRecordingRecognized \<in> set (listeners demo_ready) \<and> \<not> isFeeding demo_ready
   \<and> servo demo_ready \<noteq> None
   \<and> (\<exists>w'. speech_on_data emit_recognized (['' Feed ''] # []) demo_ready = Inr w' \<and> isFeeding w'
     \<and> count_list (emitted w') SpeechRecordingRecognized
         = Suc (count_list (emitted demo_ready) SpeechRecordingRecognized)
     \<and> count_list (emitted w') (Relay FeedingStarted)
         = Suc (count_list (emitted demo_ready) (Relay FeedingStarted)))"
proof -
  have "normalize_transcript '' Feed '' = ''feed''" by code_simp
  moreover have "cfg_hotwords (cfg demo_ready) = [''feed'']"
    by (simp add: demo_ready_def demo_cfg_def eval_simps)
  ultimately have h: "normalize_transcript '' Feed '' \<in> set (cfg_hotwords (cfg demo_ready))" by simp
  have l: "SpeechRecordingRecognized \<in> set (listeners demo_ready)" "\<not> isFeeding demo_ready"
    "servo demo_ready \<noteq> None"
    by (simp_all add: demo_ready_def demo_cfg_def eval_simps io_listeners_def)
  show ?thesis using h l hotword_starts_feeder_once [OF h l, of "[]" "[]"] by simp
qed

text \<open>
  C18. An exception of the \<open>speechRecordingRecognized\<close> listener is not isolated: in
  a reachable state in which the board is not ready, a recognised hotword makes
  \<open>startFeeder\<close> throw the \<open>TypeError\<close> of \<open>servo.max()\<close>, which leaves
  \<open>emitter.emit\<close> and the stream's \<open>data\<close> handler.
\<close>

theorem hotword_before_ready_throws:
  assumes "reachable w" and "normalize_transcript tr \<in> set (cfg_hotwords (cfg w))"
    and "SpeechRecordingRecognized \<in> set (listeners w)" and "servo w = None"
  shows "speech_on_data emit_recognized ((tr # alts) # rest) w
           = Inl (TypeError ''Cannot read property max of undefined'')"
proof -
  have "\<not> isFeeding w"
    using reachable_feeder_ok [OF assms(1)] assms(4)
    by (cases "feeder_timer w") (simp_all add: isFeeding_def feeder_ok_def)
  then have "startFeeder (w\<lparr>emitted := emitted w @ [SpeechRecordingRecognized]\<rparr>)
      = Inl (TypeError ''Cannot read property max of undefined'')"
    using assms(4) by (intro startFeeder_not_ready) (simp_all add: isFeeding_def)
  with assms(2,3) show ?thesis by (simp add: speech_on_data_def emit_recognized_eq)
qed

theorem hotword_before_ready_throws_witness:
  "reachable demo_unready \<and> normalize_transcript ''feed'' \<in> set (cfg_hotwords (cfg demo_unready))
   \<and> SpeechRecordingRecognized \<in> set (listeners demo_unready) \<and> servo demo_unready = None
   \<and> speech_on_data emit_recognized ([''feed''] # []) demo_unready
       = Inl (TypeError ''Cannot read property max of undefined'')"
proof -
  have "normalize_transcript ''feed'' = ''feed''" by code_simp
  then have h: "normalize_transcript ''feed'' \<in> set (cfg_hotwords (cfg demo_unready))"
    by (simp add: demo_unready_def demo_cfg_def eval_simps)
  have l: "SpeechRecordingRecognized \<in> set (listeners demo_unready)" "servo demo_unready = None"
    by (simp_all add: demo_unready_def demo_cfg_def eval_simps io_listeners_def)
  show ?thesis
    using demo_unready_reachable h l hotword_before_ready_throws [OF demo_unready_reachable h l] by simp
qed

text \<open>
  C19. The facade starts the camera timelapse once, when it is constructed, and no
  handler of the process starts or stops it afterwards: after any run from the start
  the timelapse runs exactly when the raspistill process has not exited. Once it has
  exited, no event brings the capture back.
\<close>

theorem capture_runs_until_exit:
  assumes "run (init_world c) ins = Inr w"
  shows "timelapse w \<longleftrightarrow> CameraEvent CamExit \<notin> set ins"
  using run_timelapse [OF assms] by (simp add: init_world_def startTimelapse_def)

theorem capture_runs_until_exit_witness:
  "run (init_world demo_cfg) [Connect, CameraEvent CamExit, CameraEvent CamStart]
     = Inr (projr (run (init_world demo_cfg) [Connect, CameraEvent CamExit, CameraEvent CamStart]))
   \<and> \<not> timelapse (projr (run (init_world demo_cfg) [Connect, CameraEvent CamExit, CameraEvent CamStart]))"
proof -
  have r: "run (init_world demo_cfg) [Connect, CameraEvent CamExit, CameraEvent CamStart]
     = Inr (projr (run (init_world demo_cfg) [Connect, CameraEvent CamExit, CameraEvent CamStart]))"
    by (simp add: demo_cfg_def eval_simps)
  show ?thesis using r capture_runs_until_exit [OF r] by simp
qed

text \<open>
  C20. Only transcripts are normalised, not the configured hotwords: when every
  configured hotword is changed by normalisation (for example \<open>Feed\<close>, with an upper-case
  letter, or \<open> feed\<close>, with a space), no result of the recognize stream does anything,
  whatever its transcript.
\<close>

theorem unnormalised_hotword_never_matches:
  assumes "\<forall>h \<in> set (cfg_hotwords (cfg w)). normalize_transcript h \<noteq> h"
  shows "speech_on_data emit_recognized d w = Inr w"
proof -
  have "speech_on_data emit_recognized d w = speech_on_data emit_recognized d w" ..
  then show ?thesis
  proof (cases rule: speech_on_data_cases)
    case (recognized tr alts rest)
    with assms unnormalised_not_normal [of "normalize_transcript tr" tr] show ?thesis by auto
  qed
qed

theorem unnormalised_hotword_never_matches_witness:
  "cfg_hotwords (cfg demo_caps) = [''Feed''] \<and> normalize_transcript ''Feed'' \<noteq> ''Feed''
   \<and> speech_on_data emit_recognized [['' FEED '']] demo_caps = Inr demo_caps"
proof -
  have n: "normalize_transcript ''Feed'' \<noteq> ''Feed''" by code_simp
  have c: "cfg_hotwords (cfg demo_caps) = [''Feed'']" by (simp add: demo_caps_def demo_cfg_def eval_simps)
  with n have h: "\<forall>h \<in> set (cfg_hotwords (cfg demo_caps)). normalize_transcript h \<noteq> h" by simp
  show ?thesis using c n unnormalised_hotword_never_matches [OF h, of "[['' FEED '']]"] by simp
qed

section \<open>Handles and the event loop\<close>

section \<open>What the browsers show\<close>

text \<open>
  C21. Every browser's controls reflect the global state: in every reachable state, for
  every connected socket, the page of \<open>main.js\<close> after handling what the socket
  received has the feed button disabled exactly while a feeding session runs and the
  recording button disabled exactly while a recording runs, so a click on the feed
  button sends \<open>startFeeding\<close> exactly when feeding is possible.
\<close>

theorem client_buttons_reflect_state:
  assumes "reachable w" and "(s, inbox) \<in> set (sockets w)"
  shows "feed_disabled (client_view c inbox) = isFeeding w
    \<and> rec_disabled (client_view c inbox) = isRecording w
    \<and> click_feed (client_view c inbox) = (if isFeeding w then [] else [StartFeedingCmd])"
proof -
  have "last_info inbox = Some (\<not> isFeeding w, \<not> isRecording w)"
    using reachable_views [OF assms(1)] assms(2) by (auto simp: views_ok_def list_all_iff)
  then show ?thesis using client_view_buttons [of c inbox] by (simp add: click_feed_def)
qed

theorem client_buttons_reflect_state_witness:
  "(0, snd (hd (sockets demo_feeding))) \<in> set (sockets demo_feeding)
   \<and> feed_disabled (client_view client_init (snd (hd (sockets demo_feeding)))) = isFeeding demo_feeding
   \<and> rec_disabled (client_view client_init (snd (hd (sockets demo_feeding)))) = isRecording demo_feeding
   \<and> click_feed (client_view client_init (snd (hd (sockets demo_feeding))))
       = (if isFeeding demo_feeding then [] else [StartFeedingCmd])"
proof -
  have m: "(0, snd (hd (sockets demo_feeding))) \<in> set (sockets demo_feeding)"
    by (simp add: demo_feeding_def demo_cfg_def eval_simps)
  show ?thesis using m client_buttons_reflect_state [OF demo_feeding_reachable m] by simp
qed

section \<open>The web application\<close>

text \<open>
  C22. \<open>GET /\<close> renders the \<open>index\<close> view with status 200 and the application's name,
  description and version as locals, when the request carries no malformed JSON and no
  static file shadows the route.
\<close>

theorem index_page:
  assumes "req_method req = ''GET''" and "req_path req = ''/''" and "json_parser req = None"
    and "''/'' \<notin> set (public_files ac)"
  shows "handle_request ac req = Render 200 ''index'' (app_locals ac)"
  using assms
  by (simp add: handle_request_def serve_static_def serve_vendor_def mount_path_def route_index_def is_get_def)

theorem index_page_witness:
  "req_method \<lparr>req_method = ''GET'', req_path = ''/'', req_body = NoBody\<rparr> = ''GET''
   \<and> req_path \<lparr>req_method = ''GET'', req_path = ''/'', req_body = NoBody\<rparr> = ''/''
   \<and> json_parser \<lparr>req_method = ''GET'', req_path = ''/'', req_body = NoBody\<rparr> = None
   \<and> ''/'' \<notin> set (public_files demo_app)
   \<and> handle_request demo_app \<lparr>req_method = ''GET'', req_path = ''/'', req_body = NoBody\<rparr>
       = Render 200 ''index'' (app_locals demo_app)"
proof -
  have j: "json_parser \<lparr>req_method = ''GET'', req_path = ''/'', req_body = NoBody\<rparr> = None"
    by (simp add: json_parser_def)
  have f: "''/'' \<notin> set (public_files demo_app)" by (simp add: demo_app_def)
  show ?thesis using j f index_page [of "\<lparr>req_method = ''GET'', req_path = ''/'', req_body = NoBody\<rparr>", OF _ _ j f]
    by simp
qed

text \<open>
  C23. Outside development the error page never carries the error object: whatever the
  request, a rendered response has no \<open>error\<close> local.
\<close>

theorem error_details_only_in_development:
  assumes "app_env ac \<noteq> ''development''" and "handle_request ac req = Render st v l"
  shows "error l = None"
proof -
  have "error (app_locals ac) = None" by (simp add: app_locals_def no_locals_def)
  with assms show ?thesis
    by (auto simp: handle_request_def Let_def split: option.splits if_splits
        dest: error_handler_error serve_static_SendFile serve_vendor_SendFile)
qed

theorem error_details_only_in_development_witness:
  "app_env demo_app \<noteq> ''development''
   \<and> handle_request demo_app \<lparr>req_method = ''GET'', req_path = ''/admin'', req_body = NoBody\<rparr>
       = Render 404 ''error'' ((app_locals demo_app)\<lparr>message := Some ''Not Found'', error := None\<rparr>)
   \<and> error ((app_locals demo_app)\<lparr>message := Some ''Not Found'', error := None\<rparr>) = None"
proof -
  have e: "app_env demo_app \<noteq> ''development''" by (simp add: demo_app_def)
  have h: "handle_request demo_app \<lparr>req_method = ''GET'', req_path = ''/admin'', req_body = NoBody\<rparr>
       = Render 404 ''error'' ((app_locals demo_app)\<lparr>message := Some ''Not Found'', error := None\<rparr>)"
    by (simp add: handle_request_def json_parser_def serve_static_def serve_vendor_def mount_path_def
        route_index_def is_get_def error_handler_def not_found_def demo_app_def)
  show ?thesis using e h error_details_only_in_development [OF e h] by simp
qed

text \<open>
  C24. A request that no static file, no vendor file and no route answers gets the
  \<open>error\<close> page with status 404 and message \<open>Not Found\<close>.
\<close>

theorem unknown_path_not_found:
  assumes "json_parser req = None" and "serve_static ''public'' (public_files ac) (req_path req) req = None"
    and "serve_vendor ac req = None" and "\<not> route_index req"
  shows "handle_request ac req = Render 404 ''error''
    ((app_locals ac)\<lparr>message := Some ''Not Found'',
       error := (if app_env ac = ''development'' then Some not_found else None)\<rparr>)"
  using assms by (simp add: handle_request_def error_handler_def not_found_def)

theorem unknown_path_not_found_witness:
  "json_parser \<lparr>req_method = ''POST'', req_path = ''/'', req_body = FormBody\<rparr> = None
   \<and> serve_static ''public'' (public_files demo_app) ''/'' \<lparr>req_method = ''POST'', req_path = ''/'', req_body = FormBody\<rparr> = None
   \<and> serve_vendor demo_app \<lparr>req_method = ''POST'', req_path = ''/'', req_body = FormBody\<rparr> = None
   \<and> \<not> route_index \<lparr>req_method = ''POST'', req_path = ''/'', req_body = FormBody\<rparr>
   \<and> handle_request demo_app \<lparr>req_method = ''POST'', req_path = ''/'', req_body = FormBody\<rparr>
       = Render 404 ''error'' ((app_locals demo_app)\<lparr>message := Some ''Not Found'',
           error := (if app_env demo_app = ''development'' then Some not_found else None)\<rparr>)"
proof -
  let ?r = "\<lparr>req_method = ''POST'', req_path = ''/'', req_body = FormBody\<rparr>"
  have a: "json_parser ?r = None" by (simp add: json_parser_def)
  have b: "serve_static ''public'' (public_files demo_app) (req_path ?r) ?r = None"
    by (simp add: serve_static_def is_get_def)
  have c: "serve_vendor demo_app ?r = None" by (simp add: serve_vendor_def mount_path_def)
  have d: "\<not> route_index ?r" by (simp add: route_index_def is_get_def)
  show ?thesis using a b c d unknown_path_not_found [OF a b c d] by simp
qed

text \<open>
  C25. A request with a JSON body that does not parse is answered by the error page
  with status 400 and the parser's message, before static files and routes are tried,
  and without the application's locals (the locals middleware never ran).
\<close>

theorem malformed_json_rejected:
  assumes "req_body req = JsonBody (Some m)"
  shows "handle_request ac req = Render 400 ''error''
    (no_locals\<lparr>message := Some m,
       error := (if app_env ac = ''development'' then Some \<lparr>err_status = Some 400, err_message = m\<rparr> else None)\<rparr>)"
  using assms by (simp add: handle_request_def json_parser_def error_handler_def)

theorem malformed_json_rejected_witness:
  "req_body \<lparr>req_method = ''GET'', req_path = ''/js/main.js'', req_body = JsonBody (Some ''Unexpected token'')\<rparr>
     = JsonBody (Some ''Unexpected token'')
   \<and> handle_request demo_app \<lparr>req_method = ''GET'', req_path = ''/js/main.js'', req_body = JsonBody (Some ''Unexpected token'')\<rparr>
     = Render 400 ''error'' (no_locals\<lparr>message := Some ''Unexpected token'',
         error := (if app_env demo_app = ''development''
                   then Some \<lparr>err_status = Some 400, err_message = ''Unexpected token''\<rparr> else None)\<rparr>)"
  using malformed_json_rejected [of "\<lparr>req_method = ''GET'', req_path = ''/js/main.js'',
      req_body = JsonBody (Some ''Unexpected token'')\<rparr>" "''Unexpected token''" demo_app] by simp

section \<open>The recorder, continued\<close>

text \<open>
  C26. The stale deadline timer of a replaced recording cuts the next session short,
  for every configuration whose speech time \<open>T\<close> is within Node's timer range and every
  restart time \<open>s\<close> with \<open>0 < s < T\<close>: a recording started at 0 and restarted at \<open>s\<close> is
  stopped at \<open>T\<close>, after \<open>T - s\<close> ms instead of \<open>T\<close>, by the first session's timer, and
  the first session's microphone (handle 1) is still open.
\<close>

theorem stale_speech_timer_cuts_session:
  assumes "cfg_speech_timer c \<le> 2147483647" and "0 < s" and "s < cfg_speech_timer c"
  shows "\<exists>w. run (init_world c)
     [Connect, CmdStartSpeechRecording 0, Advance s, CmdStartSpeechRecording 0,
      Advance (cfg_speech_timer c - s)] = Inr w
   \<and> \<not> isRecording w \<and> now w = cfg_speech_timer c \<and> mics w = [1]"
  using assms by (simp add: eval_simps)

theorem stale_speech_timer_cuts_session_witness:
  "cfg_speech_timer demo_cfg \<le> 2147483647 \<and> (0::nat) < 5000 \<and> 5000 < cfg_speech_timer demo_cfg
   \<and> (\<exists>w. run (init_world demo_cfg)
     [Connect, CmdStartSpeechRecording 0, Advance 5000, CmdStartSpeechRecording 0,
      Advance (cfg_speech_timer demo_cfg - 5000)] = Inr w
   \<and> \<not> isRecording w \<and> now w = cfg_speech_timer demo_cfg \<and> mics w = [1])"
proof -
  have a: "cfg_speech_timer demo_cfg \<le> 2147483647" "(0::nat) < 5000" "5000 < cfg_speech_timer demo_cfg"
    by (simp_all add: demo_cfg_def)
  show ?thesis using a stale_speech_timer_cuts_session [OF a] by simp
qed

text \<open>
  C27. The data listener of a recognize stream does not check whether the session is
  still recording: in any state in which the recording has stopped but its recognize
  stream is still open (it ends only when Google closes it), a hotword result on that
  stream starts the feeder, and the recorder stays stopped.
\<close>

theorem hotword_after_stop_still_feeds:
  assumes "\<not> isRecording w" and "r \<in> set (streams w)"
    and "normalize_transcript tr \<in> set (cfg_hotwords (cfg w))"
    and "SpeechRecordingRecognized \<in> set (listeners w)" and "\<not> isFeeding w" and "servo w \<noteq> None"
  shows "\<exists>w'. sys_step w (SpeechData r ((tr # alts) # rest)) = Inr w' \<and> isFeeding w' \<and> \<not> isRecording w'"
proof -
  let ?w = "w\<lparr>emitted := emitted w @ [SpeechRecordingRecognized]\<rparr>"
  have on: "sys_step w (SpeechData r ((tr # alts) # rest)) = startFeeder ?w"
    using assms(2,3,4) by (simp add: speech_on_data_def emit_recognized_eq)
  obtain x where "servo ?w = Some x" using assms(6) by auto
  moreover have "\<not> isFeeding ?w" using assms(5) by (simp add: isFeeding_def)
  ultimately show ?thesis
    using on assms(1) by (simp add: startFeeder_start isFeeding_def isRecording_def)
qed

theorem hotword_after_stop_still_feeds_witness:
  "\<not> isRecording demo_stopped \<and> 1 \<in> set (streams demo_stopped)
   \<and> normalize_transcript ''feed'' \<in> set (cfg_hotwords (cfg demo_stopped))
   \<and> SpeechRecordingRecognized \<in> set (listeners demo_stopped) \<and> \<not> isFeeding demo_stopped
   \<and> servo demo_stopped \<noteq> None
   \<and> (\<exists>w'. sys_step demo_stopped (SpeechData 1 [[''feed'']]) = Inr w' \<and> isFeeding w' \<and> \<not> isRecording w')"
proof -
  have n: "normalize_transcript ''feed'' = ''feed''" by code_simp
  have a: "\<not> isRecording demo_stopped" "1 \<in> set (streams demo_stopped)"
    "SpeechRecordingRecognized \<in> set (listeners demo_stopped)" "\<not> isFeeding demo_stopped"
    "servo demo_stopped \<noteq> None"
    by (simp_all add: demo_stopped_def demo_cfg_def eval_simps io_listeners_def)
  have h: "normalize_transcript ''feed'' \<in> set (cfg_hotwords (cfg demo_stopped))"
    using n by (simp add: demo_stopped_def demo_cfg_def eval_simps)
  show ?thesis using a h hotword_after_stop_still_feeds [OF a(1,2) h a(3,4,5), of "[]" "[]"] by simp
qed

text \<open>
  C28. A recording ends on time: from every reachable state in which a recording runs,
  letting the configured speech time pass stops it without exception, and the
  microphone of the current recording is closed.
\<close>

theorem recording_ends_on_time:
  assumes "reachable w" and "isRecording w"
  shows "\<exists>r w'. recording w = Some r
     \<and> sys_step w (Advance (timer_delay (cfg_speech_timer (cfg w)))) = Inr w'
     \<and> \<not> isRecording w' \<and> r \<notin> set (mics w')"
proof -
  let ?D = "timer_delay (cfg_speech_timer (cfg w))"
  have inv: "core_inv w" by (rule reachable_core_inv [OF assms(1)])
  obtain t where t: "speech_timer w = Some t" using assms(2) by (auto simp: isRecording_def)
  with inv obtain r where r: "recording w = Some r" by (auto simp: core_inv_def speech_ok_def)
  from t reachable_deadline [OF assms(1)] obtain x where x: "x \<in> set (timers w)" "t_id x = t"
    and due: "t_due x \<le> now w + ?D" by (auto simp: speech_deadline_ok_def)
  from fire_due_core [OF inv, of "now w + ?D"] obtain w' where run: "fire_due (now w + ?D) w = Inr w'"
    and inv': "core_inv w'" and st: "settled w'" and nw: "now w' = now w + ?D" and fr: "loop_frame w w'"
    by auto
  have "speech_timer w' = None \<and> r \<notin> set (mics w')"
    using fire_due_speech [OF run]
  proof
    assume same: "speech_timer w' = speech_timer w"
    with t inv' obtain x' where x': "x' \<in> set (timers w')" "t_id x' = t"
      by (auto simp: core_inv_def speech_ok_def)
    then have "x' \<in> set (timers w)" using fr by (auto simp: loop_frame_def)
    then have "x' = x"
      using x x'(2) inv distinct_ids_eq [of "timers w" x' x] by (simp add: core_inv_def ids_ok_def)
    with x'(1) st nw due show ?thesis by (auto simp: settled_def)
  next
    assume "speech_timer w' = None \<and> (\<forall>r. recording w = Some r \<longrightarrow> r \<notin> set (mics w'))"
    with r show ?thesis by simp
  qed
  with r run show ?thesis by (auto simp: isRecording_def)
qed

theorem recording_ends_on_time_witness:
  "reachable demo_restarted \<and> isRecording demo_restarted
   \<and> (\<exists>r w'. recording demo_restarted = Some r
     \<and> sys_step demo_restarted (Advance (timer_delay (cfg_speech_timer (cfg demo_restarted)))) = Inr w'
     \<and> \<not> isRecording w' \<and> r \<notin> set (mics w'))"
proof -
  have rec: "isRecording demo_restarted" by (simp add: demo_restarted_def demo_cfg_def eval_simps)
  show ?thesis
    using demo_restarted_reachable rec recording_ends_on_time [OF demo_restarted_reachable rec] by simp
qed

section \<open>Boundaries\<close>

text \<open>
  C29. A feeder time of 0 ms or above \<open>2147483647\<close> ms (about 24.8 days) is not what
  the gate gets: Node clamps the delay of \<open>setTimeout\<close> to 1 ms, so the stop timer
  \<open>startFeeder\<close> creates falls due 1 ms after the start.
\<close>

theorem feeder_timer_clamped:
  assumes "cfg_feeder_timer (cfg w) = 0 \<or> 2147483647 < cfg_feeder_timer (cfg w)"
    and "\<not> isFeeding w" and "startFeeder w = Inr w'"
  shows "feeder_timer w' = Some (t_id (feeder_timer_entry w))
    \<and> feeder_timer_entry w \<in> set (timers w') \<and> t_due (feeder_timer_entry w) = now w + 1"
  using assms(3)
proof (cases rule: startFeeder_cases)
  case (start x)
  with assms(1) show ?thesis by (auto simp: feeder_timer_entry_def timer_delay_def)
qed (use assms(2) in simp)

theorem feeder_timer_clamped_witness:
  "(cfg_feeder_timer (cfg demo_long_ready) = 0 \<or> 2147483647 < cfg_feeder_timer (cfg demo_long_ready))
   \<and> \<not> isFeeding demo_long_ready
   \<and> startFeeder demo_long_ready = Inr (projr (startFeeder demo_long_ready))
   \<and> feeder_timer (projr (startFeeder demo_long_ready)) = Some (t_id (feeder_timer_entry demo_long_ready))
   \<and> feeder_timer_entry demo_long_ready \<in> set (timers (projr (startFeeder demo_long_ready)))
   \<and> t_due (feeder_timer_entry demo_long_ready) = now demo_long_ready + 1"
proof -
  have c: "cfg_feeder_timer (cfg demo_long_ready) = 0 \<or> 2147483647 < cfg_feeder_timer (cfg demo_long_ready)"
    and f: "\<not> isFeeding demo_long_ready"
    and s: "startFeeder demo_long_ready = Inr (projr (startFeeder demo_long_ready))"
    by (simp_all add: demo_long_ready_def demo_long_cfg_def demo_cfg_def eval_simps)
  show ?thesis using c f s feeder_timer_clamped [OF c f s] by simp
qed

section \<open>What the browsers show, continued\<close>

text \<open>
  C30. The recorder never publishes a stop twice. In every reachable state the history
  of \<open>speechRecordingStarted\<close> and \<open>speechRecordingStopped\<close> on the emitter begins with
  a start, every stop directly follows a start, and while a recording runs the last
  of them is a start. Starts may repeat, as \<open>startSpeechRecording\<close> has no guard (C6),
  but \<open>stopSpeechRecording\<close> checks \<open>isRecording()\<close> and clears the timer, so the
  duplicate stop event that section 5 of the spec rules out never happens.
\<close>

theorem speech_stop_never_repeated:
  assumes "reachable w"
  shows "successively (\<lambda>a b. b = Relay SpeechRecordingStopped \<longrightarrow> a = Relay SpeechRecordingStarted)
           (speech_log w)
    \<and> (speech_log w \<noteq> [] \<longrightarrow> hd (speech_log w) = Relay SpeechRecordingStarted)
    \<and> (isRecording w \<longrightarrow> speech_log w \<noteq> []
         \<and> last (speech_log w) = Relay SpeechRecordingStarted)"
  using speech_areach_log_ok [OF reachable_speech_areach [OF assms]]
  by (simp add: speech_log_ok_def speech_abs_def)

theorem speech_stop_never_repeated_witness:
  "reachable demo_restart_elapsed
   \<and> speech_log demo_restart_elapsed
       = [Relay SpeechRecordingStarted, Relay SpeechRecordingStarted, Relay SpeechRecordingStopped]
   \<and> successively (\<lambda>a b. b = Relay SpeechRecordingStopped \<longrightarrow> a = Relay SpeechRecordingStarted)
       (speech_log demo_restart_elapsed)"
proof -
  have r: "reachable demo_restart_elapsed"
    by (rule reachable_by_run [of demo_cfg "[Connect, CmdStartSpeechRecording 0,
        CmdStartSpeechRecording 0, Advance 10000]"])
      (simp add: demo_restart_elapsed_def demo_cfg_def eval_simps)
  have l: "speech_log demo_restart_elapsed
       = [Relay SpeechRecordingStarted, Relay SpeechRecordingStarted, Relay SpeechRecordingStopped]"
    by (simp add: demo_restart_elapsed_def demo_cfg_def eval_simps speech_log_def)
  show ?thesis using r l speech_stop_never_repeated [OF r] by simp
qed

text \<open>
  C31. A frame read by the camera module is shown by every connected browser: after the
  read, the highlighted image of each page is the \<open>data:\<close> URI of the base64 text of
  the file's bytes, stamped with the read time, and the placeholder is hidden.
\<close>

theorem frame_shown_by_every_client:
  assumes "reachable w" and "files w (join_path (cfg_output_dir (cfg w)) f) = Some data"
    and "sys_step w (CameraRead f False) = Inr w'" and "(s, inbox) \<in> set (sockets w')"
  shows "highlighted (client_view c inbox) = Some (''data:image/jpeg;base64,'' @ base64_encode data, now w)
    \<and> \<not> placeholder_visible (client_view c inbox)"
proof -
  let ?k = "count_list (listeners w) (Relay FrameLoaded)"
  let ?B = "[WImage (now w) (Some (base64_encode data)) ''New frame received'' ''success'', info_wire w]"
  have "sockets w' = deliver (concat (replicate ?k ?B)) (sockets w)"
    using assms(3) camera_on_read_ok [OF assms(2)] by auto
  with assms(4) obtain y where y: "inbox = y @ concat (replicate ?k ?B)" and "(s, y) \<in> set (sockets w)"
    by (auto dest: mem_deliver)
  then have "sockets w \<noteq> []" by auto
  then have "?k \<noteq> 0" using reachable_views [OF assms(1)] by (simp add: relays_count)
  then show ?thesis
    using image_blocks_shown [of ?k "client_view c y"] by (simp add: y client_view_append info_wire_def)
qed

theorem frame_shown_by_every_client_witness:
  "files demo_framed (join_path (cfg_output_dir (cfg demo_framed)) ''image_000001.jpg'') = Some [1, 2, 3, 4]
   \<and> sys_step demo_framed (CameraRead ''image_000001.jpg'' False)
       = Inr (projr (sys_step demo_framed (CameraRead ''image_000001.jpg'' False)))
   \<and> (0, snd (hd (sockets (projr (sys_step demo_framed (CameraRead ''image_000001.jpg'' False))))))
       \<in> set (sockets (projr (sys_step demo_framed (CameraRead ''image_000001.jpg'' False))))
   \<and> highlighted (client_view client_init
        (snd (hd (sockets (projr (sys_step demo_framed (CameraRead ''image_000001.jpg'' False)))))))
       = Some (''data:image/jpeg;base64,'' @ base64_encode [1, 2, 3, 4], now demo_framed)"
proof -
  let ?w' = "projr (sys_step demo_framed (CameraRead ''image_000001.jpg'' False))"
  have f: "files demo_framed (join_path (cfg_output_dir (cfg demo_framed)) ''image_000001.jpg'') = Some [1, 2, 3, 4]"
    by (simp add: demo_framed_def demo_frame_path_def demo_cfg_def eval_simps)
  have st: "sys_step demo_framed (CameraRead ''image_000001.jpg'' False) = Inr ?w'"
    using camera_on_read_ok [OF f] by simp
  have m: "(0, snd (hd (sockets ?w'))) \<in> set (sockets ?w')"
    using st camera_on_read_ok [OF f]
    by (simp add: demo_framed_def demo_frame_path_def demo_cfg_def eval_simps)
  show ?thesis using f st m frame_shown_by_every_client [OF demo_framed_reachable f st m] by simp
qed

section \<open>The web application, continued\<close>

text \<open>
  C32. Static files come first: a \<open>GET\<close> or \<open>HEAD\<close> for a file under \<open>public/\<close> is
  answered with that file, before the vendor mount, the locals and the routes.
\<close>

theorem static_file_served:
  assumes "json_parser req = None" and "is_get req" and "req_path req \<in> set (public_files ac)"
  shows "handle_request ac req = SendFile ''public'' (req_path req)"
  using assms by (simp add: handle_request_def serve_static_def)

theorem static_file_served_witness:
  "json_parser \<lparr>req_method = ''GET'', req_path = ''/js/main.js'', req_body = NoBody\<rparr> = None
   \<and> is_get \<lparr>req_method = ''GET'', req_path = ''/js/main.js'', req_body = NoBody\<rparr>
   \<and> ''/js/main.js'' \<in> set (public_files demo_app)
   \<and> handle_request demo_app \<lparr>req_method = ''GET'', req_path = ''/js/main.js'', req_body = NoBody\<rparr>
       = SendFile ''public'' ''/js/main.js''"
proof -
  let ?r = "\<lparr>req_method = ''GET'', req_path = ''/js/main.js'', req_body = NoBody\<rparr>"
  have a: "json_parser ?r = None" by (simp add: json_parser_def)
  have b: "is_get ?r" by (simp add: is_get_def)
  have c: "req_path ?r \<in> set (public_files demo_app)" by (simp add: demo_app_def)
  show ?thesis using a b c static_file_served [OF a b c] by simp
qed

text \<open>
  C33. Under \<open>/vendor\<close> the three vendor directories are tried in the order of the
  \<open>app.use\<close> array: the file sent is the one of the first directory that has it.
\<close>

theorem vendor_first_match:
  assumes "json_parser req = None" and "is_get req" and "req_path req \<notin> set (public_files ac)"
    and "mount_path ''/vendor'' (req_path req) = Some p"
    and "find (\<lambda>(d, fs). p \<in> set fs) (vendor_dirs ac) = Some (d, fs)"
  shows "handle_request ac req = SendFile d p"
  using assms by (simp add: handle_request_def serve_static_def serve_vendor_def serve_first_find)

theorem vendor_first_match_witness:
  "json_parser \<lparr>req_method = ''GET'', req_path = ''/vendor/socket.io.js'', req_body = NoBody\<rparr> = None
   \<and> is_get \<lparr>req_method = ''GET'', req_path = ''/vendor/socket.io.js'', req_body = NoBody\<rparr>
   \<and> ''/vendor/socket.io.js'' \<notin> set (public_files demo_app)
   \<and> mount_path ''/vendor'' ''/vendor/socket.io.js'' = Some ''/socket.io.js''
   \<and> find (\<lambda>(d, fs). ''/socket.io.js'' \<in> set fs) (vendor_dirs demo_app) = Some (''socket.io-client'', [''/socket.io.js''])
   \<and> handle_request demo_app \<lparr>req_method = ''GET'', req_path = ''/vendor/socket.io.js'', req_body = NoBody\<rparr>
       = SendFile ''socket.io-client'' ''/socket.io.js''"
proof -
  let ?r = "\<lparr>req_method = ''GET'', req_path = ''/vendor/socket.io.js'', req_body = NoBody\<rparr>"
  have a: "json_parser ?r = None" by (simp add: json_parser_def)
  have b: "is_get ?r" by (simp add: is_get_def)
  have c: "req_path ?r \<notin> set (public_files demo_app)" by (simp add: demo_app_def)
  have d: "mount_path ''/vendor'' (req_path ?r) = Some ''/socket.io.js''" by (simp add: mount_path_def)
  have e: "find (\<lambda>(d, fs). ''/socket.io.js'' \<in> set fs) (vendor_dirs demo_app)
      = Some (''socket.io-client'', [''/socket.io.js''])" by (simp add: demo_app_def)
  show ?thesis using a b c d e vendor_first_match [OF a b c d e] by simp
qed

end
